theory Spec2Isabelle
  imports Main "HOL-Library.Word"
begin

unbundle bit_operations_syntax

section \<open>The request state machine of drbd\_req.c\<close>

subsection \<open>Data\<close>

text \<open>
  \<open>req->rq_state\<close> is an \<open>unsigned long\<close> used as a bit mask. The header drbd\_req.h,
  which gives every \<open>RQ_*\<close> flag its bit, is not among the sources; every flag is one bit
  of its own, so the mask is modelled as the set of the flags that are set:
  \<open>s & RQ_X\<close> is \<open>RQ_X \<in> s\<close>, \<open>s |= RQ_X\<close> is \<open>insert RQ_X s\<close> and
  \<open>s &= ~RQ_X\<close> is \<open>s - {RQ_X}\<close>.
\<close>

datatype rq_flag =
    RQ_LOCAL_PENDING | RQ_LOCAL_COMPLETED | RQ_LOCAL_OK | RQ_LOCAL_ABORTED
  | RQ_NET_PENDING | RQ_NET_QUEUED | RQ_NET_SENT | RQ_NET_DONE | RQ_NET_OK | RQ_NET_SIS
  | RQ_WRITE | RQ_IN_ACT_LOG | RQ_POSTPONED | RQ_EXP_RECEIVE_ACK | RQ_EXP_WRITE_ACK

text \<open>
  Modelled from the spec: the two masks \<open>RQ_LOCAL_MASK\<close> and \<open>RQ_NET_MASK\<close> of
  drbd\_req.h are missing from the sources. They collect the flags named \<open>LOCAL_*\<close>
  and \<open>NET_*\<close>. No general theorem below unfolds these two definitions: each holds for
  any value of the masks.
\<close>

definition RQ_LOCAL_MASK :: "rq_flag set" where
  "RQ_LOCAL_MASK = {RQ_LOCAL_PENDING, RQ_LOCAL_COMPLETED, RQ_LOCAL_OK, RQ_LOCAL_ABORTED}"

definition RQ_NET_MASK :: "rq_flag set" where
  "RQ_NET_MASK =
     {RQ_NET_PENDING, RQ_NET_QUEUED, RQ_NET_SENT, RQ_NET_DONE, RQ_NET_OK, RQ_NET_SIS}"

text \<open>The direction of a bio as \<open>bio_rw()\<close> reports it: read, write or read-ahead.\<close>

datatype rw = READ | WRITE | READA

record bio =
  bi_rw :: rw
  bi_hardbarrier :: bool  \<comment> \<open>\<open>bi_rw & DRBD_REQ_HARDBARRIER\<close>\<close>
  bi_sector :: "64 word"
  bi_size :: "32 word"

definition bio_rw :: "bio \<Rightarrow> rw" where
  "bio_rw b = bi_rw b"

text \<open>\<open>bio_data_dir()\<close> knows two directions only: a read-ahead is a read.\<close>

definition bio_data_dir :: "bio \<Rightarrow> rw" where
  "bio_data_dir b = (if bi_rw b = WRITE then WRITE else READ)"

datatype work_cb = w_send_read_req | w_send_dblock | w_send_out_of_sync | w_restart_disk_io

text \<open>
  \<open>private_bio\<close> is a pointer (64 bits here). drbd\_request\_endio stores a local
  completion error in it as \<open>ERR_PTR(error)\<close>; \<open>PTR_ERR\<close> reads the pointer back as a
  \<open>long\<close>, and the assignment to \<open>int error\<close> keeps the low 32 bits.
\<close>

record drbd_request =
  rq_state :: "rq_flag set"
  master_bio :: "bio option"
  private_bio :: "64 word"
  epoch :: "32 word"
  i_sector :: "64 word"
  i_size :: "32 word"
  i_in_tree :: bool       \<comment> \<open>\<open>!drbd_interval_empty(&req->i)\<close>\<close>
  i_waiting :: bool
  on_tl :: bool           \<comment> \<open>\<open>!list_empty(&req->tl_requests)\<close>\<close>
  w_cb :: "work_cb option"
  start_time :: "64 word"
  req_device :: nat       \<comment> \<open>which device \<open>req->device\<close> points to\<close>

definition ERR_PTR :: "32 word \<Rightarrow> 64 word" where
  "ERR_PTR e = scast e"

definition PTR_ERR :: "64 word \<Rightarrow> 32 word" where
  "PTR_ERR p = ucast p"

definition EIO :: "32 word" where
  "EIO = 5"

record bio_and_error =
  m_bio :: "bio option"
  m_error :: "32 word"

text \<open>
  Everything the functions of this file do outside the request and the epoch counters
  (calls into the interval tree, the bitmap, the activity log, the work queues, the
  counters and the log) is recorded, in order, in a trace.
\<close>

datatype effect =
    WAKE_ALL_SENDERS
  | REMOVE_INTERVAL rw          \<comment> \<open>from \<open>write_requests\<close> or \<open>read_requests\<close>\<close>
  | INSERT_INTERVAL rw
  | WAKE_UP_MISC_WAIT
  | END_IO_ACCT
  | LIST_DEL_TL                 \<comment> \<open>\<open>list_del_init(&req->tl_requests)\<close>\<close>
  | SET_ALL_OUT_OF_SYNC "64 word" "32 word"
  | SET_ALL_IN_SYNC "64 word" "32 word"
  | SET_OUT_OF_SYNC "64 word" "32 word"
  | AL_COMPLETE_IO
  | GET_LDEV
  | PUT_LDEV
  | WARN_AL_COMPLETE_IO
  | RESTART_WRITE               \<comment> \<open>\<open>drbd_restart_write(req)\<close>\<close>
  | REQ_FREE                    \<comment> \<open>\<open>drbd_req_free(req)\<close>\<close>
  | LOGIC_BUG
  | FIXME_BARRIER_ACKED_BUT_PENDING
  | ASSERT_FAILED string
  | INC_AP_PENDING
  | DEC_AP_PENDING
  | ADD_AP_IN_FLIGHT "32 word"
  | SUB_AP_IN_FLIGHT "32 word"
  | ADD_WRIT_CNT "32 word"
  | ADD_READ_CNT "32 word"
  | CHK_IO_ERROR bool
  | SET_UNPLUG_REMOTE
  | QUEUE_SENDER_WORK "work_cb option"
  | QUEUE_RESOURCE_WORK work_cb
  | INFO_CONGESTION_FILL
  | INFO_CONGESTION_EXTENTS
  | CHANGE_REPL_STATE_AHEAD
  | CHANGE_CSTATE_DISCONNECTING
  | BIO_ENDIO bio "32 word"     \<comment> \<open>\<open>bio_endio(bio, error)\<close>\<close>
  | INC_AP_BIO
  | MAKE_REQUEST bio "64 word"  \<comment> \<open>\<open>__drbd_make_request(device, bio, start_time)\<close>\<close>
  | WARN_KO_COUNT_TIMEOUT
  | CHANGE_CSTATE_TIMEOUT       \<comment> \<open>\<open>__change_cstate(connection, C_TIMEOUT)\<close>, hard\<close>
  | WARN_DISK_TIMEOUT
  | MOD_TIMER "64 word"         \<comment> \<open>\<open>mod_timer(&device->request_timer, expires)\<close>\<close>

datatype drbd_prot = DRBD_PROT_A | DRBD_PROT_B | DRBD_PROT_C

text \<open>
  The part of the device, its resource and its connection that the request functions
  read or write. \<open>current_tle_nr\<close> is an \<open>atomic_t\<close>, a 32-bit counter.
\<close>

record drbd_device =
  current_tle_nr :: "32 word"
  current_tle_writes :: "32 word"
  susp :: bool                  \<comment> \<open>\<open>drbd_suspended(device)\<close>\<close>
  wire_protocol :: drbd_prot
  max_epoch_size :: "32 word"
  ldev_if_failed :: bool        \<comment> \<open>\<open>get_ldev_if_state(device, D_FAILED)\<close> succeeds\<close>
  ratelimit :: bool             \<comment> \<open>\<open>drbd_ratelimit()\<close>\<close>
  trace :: "effect list"

datatype req_fate = Alive | Freed | Restarted

datatype mr_rv = RV_0 | MR_READ | MR_WRITE

datatype drbd_req_event =
    CREATED
  | TO_BE_SENT
  | TO_BE_SUBMITTED
  | COMPLETED_OK
  | ABORT_DISK_IO
  | WRITE_COMPLETED_WITH_ERROR
  | READ_AHEAD_COMPLETED_WITH_ERROR
  | READ_COMPLETED_WITH_ERROR
  | QUEUE_FOR_NET_READ
  | QUEUE_FOR_NET_WRITE
  | QUEUE_FOR_SEND_OOS
  | READ_RETRY_REMOTE_CANCELED
  | SEND_CANCELED
  | SEND_FAILED
  | HANDED_OVER_TO_NETWORK
  | OOS_HANDED_TO_NETWORK
  | CONNECTION_LOST_WHILE_PENDING
  | DISCARD_WRITE
  | WRITE_ACKED_BY_PEER_AND_SIS
  | WRITE_ACKED_BY_PEER
  | RECV_ACKED_BY_PEER
  | POSTPONE_WRITE
  | NEG_ACKED
  | FAIL_FROZEN_DISK_IO
  | RESTART_FROZEN_DISK_IO
  | RESEND
  | BARRIER_ACKED
  | DATA_RECEIVED

subsection \<open>Helpers\<close>

definition emit :: "effect \<Rightarrow> drbd_device \<Rightarrow> drbd_device" where
  "emit e d = d\<lparr>trace := trace d @ [e]\<rparr>"

text \<open>
  \<open>D_ASSERT\<close> is a macro of drbd\_int.h, which is not among the sources. It is used as
  a statement, and no control flow of this file depends on its outcome: the model records a
  failed assertion in the trace and goes on.
\<close>

definition D_ASSERT :: "bool \<Rightarrow> string \<Rightarrow> drbd_device \<Rightarrow> drbd_device" where
  "D_ASSERT c what d = (if c then d else emit (ASSERT_FAILED what) d)"

definition set_flags :: "rq_flag set \<Rightarrow> drbd_request \<Rightarrow> drbd_request" where
  "set_flags fs r = r\<lparr>rq_state := rq_state r \<union> fs\<rparr>"

definition clear_flags :: "rq_flag set \<Rightarrow> drbd_request \<Rightarrow> drbd_request" where
  "clear_flags fs r = r\<lparr>rq_state := rq_state r - fs\<rparr>"

subsection \<open>Functions\<close>

definition start_new_tl_epoch :: "drbd_device \<Rightarrow> drbd_device" where
  "start_new_tl_epoch d =
     emit WAKE_ALL_SENDERS
       (d\<lparr>current_tle_writes := 0, current_tle_nr := current_tle_nr d + 1\<rparr>)"

definition maybe_wakeup_conflicting_requests :: "drbd_device \<Rightarrow> drbd_request \<Rightarrow> drbd_device" where
  "maybe_wakeup_conflicting_requests d req =
     (let s = rq_state req in
      if RQ_LOCAL_PENDING \<in> s \<and> RQ_LOCAL_ABORTED \<notin> s then d
      else if i_waiting req then emit WAKE_UP_MISC_WAIT d
      else d)"

text \<open>\<open>_req_is_done\<close>: \<open>rw\<close> is READ or WRITE.\<close>

definition req_is_done ::
  "drbd_device \<Rightarrow> drbd_request \<Rightarrow> rw \<Rightarrow> drbd_device \<times> drbd_request \<times> req_fate" where
  "req_is_done d req rw =
     (let s = rq_state req;
          d1 = emit LIST_DEL_TL d;
          req1 = req\<lparr>on_tl := False\<rparr>;
          d2 = (if rw = WRITE then
                  (let da = (if RQ_NET_OK \<notin> s \<or> RQ_LOCAL_OK \<notin> s
                             then emit (SET_ALL_OUT_OF_SYNC (i_sector req) (i_size req)) d1
                             else d1);
                       db = (if RQ_NET_OK \<in> s \<and> RQ_LOCAL_OK \<in> s \<and> RQ_NET_SIS \<in> s
                             then emit (SET_ALL_IN_SYNC (i_sector req) (i_size req)) da
                             else da)
                   in if s \<inter> RQ_LOCAL_MASK \<noteq> {} then
                        (if ldev_if_failed db then
                           emit PUT_LDEV (if RQ_IN_ACT_LOG \<in> s then emit AL_COMPLETE_IO db else db)
                         else if ratelimit db then emit WARN_AL_COMPLETE_IO db
                         else db)
                      else db)
                else d1)
      in if RQ_POSTPONED \<in> s then (emit RESTART_WRITE d2, req1, Restarted)
         else (emit REQ_FREE d2, req1, Freed))"

definition req_may_be_done ::
  "drbd_device \<Rightarrow> drbd_request \<Rightarrow> drbd_device \<times> drbd_request \<times> req_fate" where
  "req_may_be_done d req =
     (let s = rq_state req;
          rw = (if RQ_WRITE \<in> s then WRITE else READ)
      in if master_bio req \<noteq> None \<and> RQ_POSTPONED \<notin> s then (d, req, Alive)
         else if RQ_LOCAL_PENDING \<in> s then (d, req, Alive)
         else if s \<inter> RQ_NET_MASK = {} \<or> RQ_NET_DONE \<in> s then req_is_done d req rw
         else (d, req, Alive))"

text \<open>
  \<open>drbd_remove_request_interval\<close>: takes the interval out of its tree and wakes the
  waiters, if any.
\<close>

definition drbd_remove_request_interval ::
  "rw \<Rightarrow> drbd_device \<Rightarrow> drbd_request \<Rightarrow> drbd_device \<times> drbd_request" where
  "drbd_remove_request_interval root d req =
     (let d1 = emit (REMOVE_INTERVAL root) d;
          d2 = (if i_waiting req then emit WAKE_UP_MISC_WAIT d1 else d1)
      in (d2, req\<lparr>i_in_tree := False\<rparr>))"

text \<open>
  The block of \<open>req_may_be_completed\<close> that prepares the completion of a request
  whose \<open>master_bio\<close> is still there (\<open>b\<close>): it takes the request out of the interval
  tree, closes the current epoch if the request belongs to it, updates the disk statistics
  and marks a failed READ that is on the transfer log as postponed. \<open>s\<close> is the state on
  entry, as in the source.
\<close>

definition completion_block ::
  "drbd_device \<Rightarrow> drbd_request \<Rightarrow> bio \<Rightarrow> drbd_device \<times> drbd_request" where
  "completion_block d req b =
     (let s = rq_state req;
          rw = bio_rw b;
          ok = (RQ_LOCAL_OK \<in> s \<or> RQ_NET_OK \<in> s);
          (d1, req1) =
            (if i_in_tree req then
               drbd_remove_request_interval (if rw = WRITE then WRITE else READ) d req
             else if RQ_POSTPONED \<notin> s then
               (D_ASSERT (s \<inter> (RQ_NET_MASK - {RQ_NET_DONE}) = {})
                  ''(s & (RQ_NET_MASK & ~RQ_NET_DONE)) == 0'' d, req)
             else (d, req));
          d2 = (if rw = WRITE \<and> epoch req1 = current_tle_nr d1
                then start_new_tl_epoch d1 else d1);
          d3 = emit END_IO_ACCT d2;
          req2 = (if \<not> ok \<and> rw = READ \<and> on_tl req1
                  then set_flags {RQ_POSTPONED} req1 else req1)
      in (d3, req2))"

text \<open>
  \<open>req_may_be_completed\<close>. The result is \<open>None\<close> where the C code dereferences a null
  \<open>m\<close>. The test of \<open>RQ_POSTPONED\<close> before the completion reads \<open>req->rq_state\<close>
  again; \<open>ok\<close>, \<open>error\<close> and the two assertions use the state on entry.
\<close>

definition req_may_be_completed ::
  "drbd_device \<Rightarrow> drbd_request \<Rightarrow> bio_and_error option \<Rightarrow>
   (drbd_device \<times> drbd_request \<times> bio_and_error option \<times> req_fate) option" where
  "req_may_be_completed d req m =
     (let s = rq_state req in
      if RQ_LOCAL_PENDING \<in> s \<and> RQ_LOCAL_ABORTED \<notin> s then Some (d, req, m, Alive)
      else if RQ_NET_QUEUED \<in> s then Some (d, req, m, Alive)
      else if RQ_NET_PENDING \<in> s then Some (d, req, m, Alive)
      else
        (case master_bio req of
           None \<Rightarrow>
             (case req_may_be_done d req of (d', req', f) \<Rightarrow> Some (d', req', m, f))
         | Some b \<Rightarrow>
             (let ok = (RQ_LOCAL_OK \<in> s \<or> RQ_NET_OK \<in> s);
                  error = PTR_ERR (private_bio req);
                  (d3, req2) = completion_block d req b
              in if RQ_POSTPONED \<notin> rq_state req2 then
                   (case m of
                      None \<Rightarrow> None
                    | Some mm \<Rightarrow>
                        (let m' = mm\<lparr>m_error := (if ok then 0
                                                 else if error \<noteq> 0 then error else - EIO),
                                     m_bio := master_bio req2\<rparr>;
                             req3 = req2\<lparr>master_bio := None\<rparr>
                         in case req_may_be_done d3 req3 of
                              (d', req', f) \<Rightarrow> Some (d', req', Some m', f)))
                 else
                   (let d4 = D_ASSERT (RQ_LOCAL_PENDING \<notin> s) ''!(s & RQ_LOCAL_PENDING)'' d3;
                        d5 = D_ASSERT (RQ_NET_DONE \<in> s) ''(s & RQ_NET_DONE)'' d4
                    in case req_may_be_done d5 req2 of
                         (d', req', f) \<Rightarrow> Some (d', req', m, f)))))"

definition req_may_be_completed_not_susp ::
  "drbd_device \<Rightarrow> drbd_request \<Rightarrow> bio_and_error option \<Rightarrow>
   (drbd_device \<times> drbd_request \<times> bio_and_error option \<times> req_fate) option" where
  "req_may_be_completed_not_susp d req m =
     (if \<not> susp d then req_may_be_completed d req m else Some (d, req, m, Alive))"

text \<open>
  The label \<open>ack_common\<close> of \<open>__req_mod\<close>, reached from the positive acknowledgements.
\<close>

definition ack_common ::
  "drbd_device \<Rightarrow> drbd_request \<Rightarrow> bio_and_error option \<Rightarrow>
   (drbd_device \<times> drbd_request \<times> bio_and_error option \<times> req_fate) option" where
  "ack_common d req m =
     (let req1 = set_flags {RQ_NET_OK} req;
          d1 = D_ASSERT (RQ_NET_PENDING \<in> rq_state req1) ''req->rq_state & RQ_NET_PENDING'' d;
          d2 = emit DEC_AP_PENDING d1;
          d3 = emit (SUB_AP_IN_FLIGHT (drop_bit 9 (i_size req1))) d2;
          req2 = clear_flags {RQ_NET_PENDING} req1;
          d4 = maybe_wakeup_conflicting_requests d3 req2
      in req_may_be_completed_not_susp d4 req2 m)"

text \<open>The case \<open>BARRIER_ACKED\<close>, which \<open>RESEND\<close> falls through to.\<close>

definition barrier_acked ::
  "drbd_device \<Rightarrow> drbd_request \<Rightarrow> drbd_device \<times> drbd_request \<times> req_fate" where
  "barrier_acked d req =
     (if RQ_WRITE \<notin> rq_state req then (d, req, Alive)
      else
        (let d1 = (if RQ_NET_PENDING \<in> rq_state req
                   then emit FIXME_BARRIER_ACKED_BUT_PENDING d else d);
             (d2, req1) =
               (if rq_state req \<inter> RQ_NET_MASK \<noteq> {} then
                  (let r = set_flags {RQ_NET_DONE} req
                   in (if RQ_EXP_RECEIVE_ACK \<notin> rq_state r \<and> RQ_EXP_WRITE_ACK \<notin> rq_state r
                       then emit (SUB_AP_IN_FLIGHT (drop_bit 9 (i_size r))) d1 else d1, r))
                else (d1, req))
         in req_may_be_done d2 req1))"

definition with_rv ::
  "mr_rv \<Rightarrow> (drbd_device \<times> drbd_request \<times> bio_and_error option \<times> req_fate) option \<Rightarrow>
   (mr_rv \<times> drbd_device \<times> drbd_request \<times> bio_and_error option \<times> req_fate) option" where
  "with_rv rv x = map_option (Pair rv) x"

text \<open>
  The \<open>switch\<close> of \<open>__req_mod\<close>, one equation for each \<open>case\<close>. \<open>CREATED\<close> is not a
  case of the switch and takes its \<open>default\<close>. The result is \<open>None\<close> where the C
  code dereferences a null \<open>req->master_bio\<close> or a null \<open>m\<close>. The comparison of
  \<open>current_tle_writes\<close> with \<open>max_epoch_size\<close> is the unsigned one.
\<close>

fun req_mod_switch ::
  "drbd_device \<Rightarrow> drbd_request \<Rightarrow> drbd_req_event \<Rightarrow> bio_and_error option \<Rightarrow>
   (mr_rv \<times> drbd_device \<times> drbd_request \<times> bio_and_error option \<times> req_fate) option" where
  "req_mod_switch d req CREATED m = Some (RV_0, emit LOGIC_BUG d, req, m, Alive)"
| "req_mod_switch d req TO_BE_SENT m =
     (let d1 = D_ASSERT (rq_state req \<inter> RQ_NET_MASK = {}) ''!(req->rq_state & RQ_NET_MASK)'' d;
          req1 = set_flags {RQ_NET_PENDING} req;
          req2 = set_flags (case wire_protocol d1 of
                              DRBD_PROT_C \<Rightarrow> {RQ_EXP_WRITE_ACK}
                            | DRBD_PROT_B \<Rightarrow> {RQ_EXP_RECEIVE_ACK}
                            | DRBD_PROT_A \<Rightarrow> {}) req1
      in Some (RV_0, emit INC_AP_PENDING d1, req2, m, Alive))"
| "req_mod_switch d req TO_BE_SUBMITTED m =
     (let d1 = D_ASSERT (rq_state req \<inter> RQ_LOCAL_MASK = {}) ''!(req->rq_state & RQ_LOCAL_MASK)'' d
      in Some (RV_0, d1, set_flags {RQ_LOCAL_PENDING} req, m, Alive))"
| "req_mod_switch d req COMPLETED_OK m =
     (let d1 = emit (if RQ_WRITE \<in> rq_state req then ADD_WRIT_CNT (drop_bit 9 (i_size req))
                     else ADD_READ_CNT (drop_bit 9 (i_size req))) d;
          req1 = clear_flags {RQ_LOCAL_PENDING} (set_flags {RQ_LOCAL_COMPLETED, RQ_LOCAL_OK} req);
          d2 = maybe_wakeup_conflicting_requests d1 req1
      in with_rv RV_0 (req_may_be_completed_not_susp d2 req1 m))"
| "req_mod_switch d req ABORT_DISK_IO m =
     with_rv RV_0 (req_may_be_completed_not_susp d (set_flags {RQ_LOCAL_ABORTED} req) m)"
| "req_mod_switch d req WRITE_COMPLETED_WITH_ERROR m =
     (let req1 = clear_flags {RQ_LOCAL_PENDING} (set_flags {RQ_LOCAL_COMPLETED} req);
          d1 = emit (CHK_IO_ERROR False) d;
          d2 = maybe_wakeup_conflicting_requests d1 req1
      in with_rv RV_0 (req_may_be_completed_not_susp d2 req1 m))"
| "req_mod_switch d req READ_AHEAD_COMPLETED_WITH_ERROR m =
     (let req1 = clear_flags {RQ_LOCAL_PENDING} (set_flags {RQ_LOCAL_COMPLETED} req)
      in with_rv RV_0 (req_may_be_completed_not_susp d req1 m))"
| "req_mod_switch d req READ_COMPLETED_WITH_ERROR m =
     (let d1 = emit (SET_OUT_OF_SYNC (i_sector req) (i_size req)) d;
          req1 = clear_flags {RQ_LOCAL_PENDING} (set_flags {RQ_LOCAL_COMPLETED} req);
          d2 = D_ASSERT (rq_state req1 \<inter> RQ_NET_MASK = {}) ''!(req->rq_state & RQ_NET_MASK)'' d1
      in Some (RV_0, emit (CHK_IO_ERROR False) d2, req1, m, Alive))"
| "req_mod_switch d req QUEUE_FOR_NET_READ m =
     (let d1 = D_ASSERT (\<not> i_in_tree req) ''drbd_interval_empty(&req->i)'' d;
          d2 = emit (INSERT_INTERVAL READ) d1;
          req1 = req\<lparr>i_in_tree := True\<rparr>;
          d3 = emit SET_UNPLUG_REMOTE d2;
          d4 = D_ASSERT (RQ_NET_PENDING \<in> rq_state req1) ''req->rq_state & RQ_NET_PENDING'' d3;
          d5 = D_ASSERT (rq_state req1 \<inter> RQ_LOCAL_MASK = {})
                 ''(req->rq_state & RQ_LOCAL_MASK) == 0'' d4;
          req2 = (set_flags {RQ_NET_QUEUED} req1)\<lparr>w_cb := Some w_send_read_req\<rparr>
      in Some (RV_0, emit (QUEUE_SENDER_WORK (w_cb req2)) d5, req2, m, Alive))"
| "req_mod_switch d req QUEUE_FOR_NET_WRITE m =
     (let d1 = emit SET_UNPLUG_REMOTE d;
          d2 = D_ASSERT (RQ_NET_PENDING \<in> rq_state req) ''req->rq_state & RQ_NET_PENDING'' d1;
          req1 = (set_flags {RQ_NET_QUEUED} req)\<lparr>w_cb := Some w_send_dblock\<rparr>;
          d3 = emit (QUEUE_SENDER_WORK (w_cb req1)) d2;
          d4 = (if max_epoch_size d3 \<le> current_tle_writes d3 then start_new_tl_epoch d3 else d3)
      in Some (RV_0, d4, req1, m, Alive))"
| "req_mod_switch d req QUEUE_FOR_SEND_OOS m =
     (let req1 = (set_flags {RQ_NET_QUEUED} req)\<lparr>w_cb := Some w_send_out_of_sync\<rparr>
      in Some (RV_0, emit (QUEUE_SENDER_WORK (w_cb req1)) d, req1, m, Alive))"
| "req_mod_switch d req READ_RETRY_REMOTE_CANCELED m =
     with_rv RV_0 (req_may_be_completed_not_susp d (clear_flags {RQ_NET_QUEUED} req) m)"
| "req_mod_switch d req SEND_CANCELED m =
     with_rv RV_0 (req_may_be_completed_not_susp d (clear_flags {RQ_NET_QUEUED} req) m)"
| "req_mod_switch d req SEND_FAILED m =
     with_rv RV_0 (req_may_be_completed_not_susp d (clear_flags {RQ_NET_QUEUED} req) m)"
| "req_mod_switch d req HANDED_OVER_TO_NETWORK m =
     (case master_bio req of
        None \<Rightarrow> None
      | Some b \<Rightarrow>
          (let d1 = (if bio_data_dir b = WRITE
                     then emit (ADD_AP_IN_FLIGHT (drop_bit 9 (i_size req))) d else d);
               (d2, req1) =
                 (if bio_data_dir b = WRITE \<and>
                     RQ_EXP_RECEIVE_ACK \<notin> rq_state req \<and> RQ_EXP_WRITE_ACK \<notin> rq_state req
                  then (if RQ_NET_PENDING \<in> rq_state req
                        then (emit DEC_AP_PENDING d1,
                              set_flags {RQ_NET_OK} (clear_flags {RQ_NET_PENDING} req))
                        else (d1, req))
                  else (d1, req));
               req2 = set_flags {RQ_NET_SENT} (clear_flags {RQ_NET_QUEUED} req1)
           in with_rv RV_0 (req_may_be_completed_not_susp d2 req2 m)))"
| "req_mod_switch d req OOS_HANDED_TO_NETWORK m =
     (let req1 = set_flags {RQ_NET_DONE} (clear_flags {RQ_NET_QUEUED} req)
      in with_rv RV_0 (req_may_be_completed_not_susp d req1 m))"
| "req_mod_switch d req CONNECTION_LOST_WHILE_PENDING m =
     (let d1 = (if RQ_NET_PENDING \<in> rq_state req then emit DEC_AP_PENDING d else d);
          req1 = set_flags {RQ_NET_DONE} (clear_flags {RQ_NET_OK, RQ_NET_PENDING} req);
          d2 = (if RQ_NET_SENT \<in> rq_state req1 \<and> RQ_WRITE \<in> rq_state req1
                then emit (SUB_AP_IN_FLIGHT (drop_bit 9 (i_size req1))) d1 else d1)
      in with_rv RV_0 (req_may_be_completed d2 req1 m))"
| "req_mod_switch d req DISCARD_WRITE m =
     (let req1 = set_flags {RQ_NET_DONE} req;
          d1 = D_ASSERT (RQ_EXP_WRITE_ACK \<in> rq_state req1) ''req->rq_state & RQ_EXP_WRITE_ACK'' d
      in with_rv RV_0 (ack_common d1 req1 m))"
| "req_mod_switch d req WRITE_ACKED_BY_PEER_AND_SIS m =
     (let req1 = set_flags {RQ_NET_SIS} req;
          d1 = D_ASSERT (RQ_EXP_WRITE_ACK \<in> rq_state req1) ''req->rq_state & RQ_EXP_WRITE_ACK'' d
      in with_rv RV_0 (ack_common d1 req1 m))"
| "req_mod_switch d req WRITE_ACKED_BY_PEER m =
     (let d1 = D_ASSERT (RQ_EXP_WRITE_ACK \<in> rq_state req) ''req->rq_state & RQ_EXP_WRITE_ACK'' d
      in with_rv RV_0 (ack_common d1 req m))"
| "req_mod_switch d req RECV_ACKED_BY_PEER m =
     (let d1 = D_ASSERT (RQ_EXP_RECEIVE_ACK \<in> rq_state req)
                 ''req->rq_state & RQ_EXP_RECEIVE_ACK'' d
      in with_rv RV_0 (ack_common d1 req m))"
| "req_mod_switch d req POSTPONE_WRITE m =
     (let d1 = D_ASSERT (RQ_EXP_WRITE_ACK \<in> rq_state req) ''req->rq_state & RQ_EXP_WRITE_ACK'' d;
          d2 = D_ASSERT (RQ_NET_PENDING \<in> rq_state req) ''req->rq_state & RQ_NET_PENDING'' d1;
          req1 = set_flags {RQ_POSTPONED} req;
          d3 = maybe_wakeup_conflicting_requests d2 req1
      in with_rv RV_0 (req_may_be_completed_not_susp d3 req1 m))"
| "req_mod_switch d req NEG_ACKED m =
     (let d1 = (if RQ_NET_PENDING \<in> rq_state req then
                  (let da = emit DEC_AP_PENDING d
                   in if RQ_WRITE \<in> rq_state req
                      then emit (SUB_AP_IN_FLIGHT (drop_bit 9 (i_size req))) da else da)
                else d);
          req1 = set_flags {RQ_NET_DONE} (clear_flags {RQ_NET_OK, RQ_NET_PENDING} req);
          d2 = maybe_wakeup_conflicting_requests d1 req1
      in with_rv RV_0 (req_may_be_completed_not_susp d2 req1 m))"
| "req_mod_switch d req FAIL_FROZEN_DISK_IO m =
     (if RQ_LOCAL_COMPLETED \<notin> rq_state req then Some (RV_0, d, req, m, Alive)
      else with_rv RV_0 (req_may_be_completed d req m))"
| "req_mod_switch d req RESTART_FROZEN_DISK_IO m =
     (if RQ_LOCAL_COMPLETED \<notin> rq_state req then Some (RV_0, d, req, m, Alive)
      else
        (let req1 = clear_flags {RQ_LOCAL_COMPLETED} req
         in case master_bio req1 of
              None \<Rightarrow> None
            | Some b \<Rightarrow>
                (let rv = (if bio_data_dir b = WRITE then MR_WRITE else MR_READ);
                     d1 = emit GET_LDEV d;
                     req2 = req1\<lparr>w_cb := Some w_restart_disk_io\<rparr>
                 in Some (rv, emit (QUEUE_RESOURCE_WORK w_restart_disk_io) d1, req2, m, Alive))))"
| "req_mod_switch d req RESEND m =
     (if RQ_NET_OK \<notin> rq_state req then
        (if w_cb req \<noteq> None then
           Some (if RQ_WRITE \<in> rq_state req then MR_WRITE else MR_READ,
                 emit (QUEUE_SENDER_WORK (w_cb req)) d, req, m, Alive)
         else Some (RV_0, d, req, m, Alive))
      else (case barrier_acked d req of (d', req', f) \<Rightarrow> Some (RV_0, d', req', m, f)))"
| "req_mod_switch d req BARRIER_ACKED m =
     (case barrier_acked d req of (d', req', f) \<Rightarrow> Some (RV_0, d', req', m, f))"
| "req_mod_switch d req DATA_RECEIVED m =
     (let d1 = D_ASSERT (RQ_NET_PENDING \<in> rq_state req) ''req->rq_state & RQ_NET_PENDING'' d;
          d2 = emit DEC_AP_PENDING d1;
          req1 = set_flags {RQ_NET_OK, RQ_NET_DONE} (clear_flags {RQ_NET_PENDING} req)
      in with_rv RV_0 (req_may_be_completed_not_susp d2 req1 m))"

text \<open>\<open>__req_mod\<close>: \<open>if (m) m->bio = NULL\<close>, then the switch.\<close>

definition req_mod ::
  "drbd_device \<Rightarrow> drbd_request \<Rightarrow> drbd_req_event \<Rightarrow> bio_and_error option \<Rightarrow>
   (mr_rv \<times> drbd_device \<times> drbd_request \<times> bio_and_error option \<times> req_fate) option" where
  "req_mod d req what m =
     req_mod_switch d req what (map_option (\<lambda>mm. mm\<lparr>m_bio := None\<rparr>) m)"

subsection \<open>Predicates of the statements\<close>

text \<open>
  The destruction predicate in the words of the specification: \<open>master_bio\<close> is null,
  \<open>LOCAL_PENDING\<close> is clear, and no flag of \<open>NET_MASK\<close> is set or \<open>NET_DONE\<close> is set.
\<close>

definition destructible :: "drbd_request \<Rightarrow> bool" where
  "destructible r \<longleftrightarrow>
     master_bio r = None \<and> RQ_LOCAL_PENDING \<notin> rq_state r \<and>
     (rq_state r \<inter> RQ_NET_MASK = {} \<or> RQ_NET_DONE \<in> rq_state r)"

text \<open>
  The three early returns of \<open>req_may_be_completed\<close> are not taken: the local part is not
  pending (or it is aborted), and the network part is neither queued nor pending.
\<close>

definition may_complete :: "drbd_request \<Rightarrow> bool" where
  "may_complete r \<longleftrightarrow>
     \<not> (RQ_LOCAL_PENDING \<in> rq_state r \<and> RQ_LOCAL_ABORTED \<notin> rq_state r) \<and>
     RQ_NET_QUEUED \<notin> rq_state r \<and> RQ_NET_PENDING \<notin> rq_state r"

text \<open>A READ that failed on both sides and is on the transfer log: it will be retried.\<close>

definition retried_read :: "drbd_request \<Rightarrow> bool" where
  "retried_read r \<longleftrightarrow>
     (case master_bio r of
        None \<Rightarrow> False
      | Some b \<Rightarrow> RQ_LOCAL_OK \<notin> rq_state r \<and> RQ_NET_OK \<notin> rq_state r \<and>
                  bio_rw b = READ \<and> on_tl r)"

text \<open>This call of \<open>req_may_be_completed\<close> hands the master bio to the caller.\<close>

definition completes :: "drbd_request \<Rightarrow> bool" where
  "completes r \<longleftrightarrow>
     may_complete r \<and> master_bio r \<noteq> None \<and> RQ_POSTPONED \<notin> rq_state r \<and> \<not> retried_read r"

text \<open>
  The events of \<open>__req_mod\<close> that go on to \<open>req_may_be_completed\<close> or
  \<open>req_may_be_done\<close>, each with the condition under which it does.
\<close>

fun consults_done :: "drbd_device \<Rightarrow> drbd_request \<Rightarrow> drbd_req_event \<Rightarrow> bool" where
  "consults_done d r COMPLETED_OK = (\<not> susp d)"
| "consults_done d r ABORT_DISK_IO = (\<not> susp d)"
| "consults_done d r WRITE_COMPLETED_WITH_ERROR = (\<not> susp d)"
| "consults_done d r READ_AHEAD_COMPLETED_WITH_ERROR = (\<not> susp d)"
| "consults_done d r READ_RETRY_REMOTE_CANCELED = (\<not> susp d)"
| "consults_done d r SEND_CANCELED = (\<not> susp d)"
| "consults_done d r SEND_FAILED = (\<not> susp d)"
| "consults_done d r HANDED_OVER_TO_NETWORK = (\<not> susp d)"
| "consults_done d r OOS_HANDED_TO_NETWORK = (\<not> susp d)"
| "consults_done d r DISCARD_WRITE = (\<not> susp d)"
| "consults_done d r WRITE_ACKED_BY_PEER_AND_SIS = (\<not> susp d)"
| "consults_done d r WRITE_ACKED_BY_PEER = (\<not> susp d)"
| "consults_done d r RECV_ACKED_BY_PEER = (\<not> susp d)"
| "consults_done d r POSTPONE_WRITE = (\<not> susp d)"
| "consults_done d r NEG_ACKED = (\<not> susp d)"
| "consults_done d r DATA_RECEIVED = (\<not> susp d)"
| "consults_done d r CONNECTION_LOST_WHILE_PENDING = True"
| "consults_done d r FAIL_FROZEN_DISK_IO = (RQ_LOCAL_COMPLETED \<in> rq_state r)"
| "consults_done d r RESEND = (RQ_NET_OK \<in> rq_state r \<and> RQ_WRITE \<in> rq_state r)"
| "consults_done d r BARRIER_ACKED = (RQ_WRITE \<in> rq_state r)"
| "consults_done d r _ = False"

text \<open>
  The events by which the peer answers a request, or by which the connection is found
  lost: the only ones that take \<open>RQ_NET_PENDING\<close> away from a request that expects an
  acknowledgement.
\<close>

definition peer_answer :: "drbd_req_event \<Rightarrow> bool" where
  "peer_answer what \<longleftrightarrow>
     what \<in> {CONNECTION_LOST_WHILE_PENDING, DISCARD_WRITE, WRITE_ACKED_BY_PEER_AND_SIS,
             WRITE_ACKED_BY_PEER, RECV_ACKED_BY_PEER, NEG_ACKED, DATA_RECEIVED}"

text \<open>
  The condition under which \<open>req_may_be_done\<close> passes a request on to \<open>_req_is_done\<close>,
  read off its three tests.
\<close>

definition removable :: "drbd_request \<Rightarrow> bool" where
  "removable r \<longleftrightarrow>
     (master_bio r = None \<or> RQ_POSTPONED \<in> rq_state r) \<and> RQ_LOCAL_PENDING \<notin> rq_state r \<and>
     (rq_state r \<inter> RQ_NET_MASK = {} \<or> RQ_NET_DONE \<in> rq_state r)"

text \<open>What \<open>req_may_be_done\<close> does with a request in a given state.\<close>

definition fate_of :: "drbd_request \<Rightarrow> req_fate" where
  "fate_of r =
     (if removable r then (if RQ_POSTPONED \<in> rq_state r then Restarted else Freed) else Alive)"

text \<open>The error that \<open>req_may_be_completed\<close> reports for a request in a given state.\<close>

definition completion_error :: "drbd_request \<Rightarrow> 32 word" where
  "completion_error r =
     (if RQ_LOCAL_OK \<in> rq_state r \<or> RQ_NET_OK \<in> rq_state r then 0
      else if PTR_ERR (private_bio r) \<noteq> 0 then PTR_ERR (private_bio r) else - EIO)"

text \<open>This call of \<open>req_may_be_completed\<close> closes the current epoch.\<close>

definition soft_close :: "drbd_device \<Rightarrow> drbd_request \<Rightarrow> bool" where
  "soft_close d r \<longleftrightarrow>
     may_complete r \<and> (\<exists>b. master_bio r = Some b \<and> bio_rw b = WRITE) \<and>
     epoch r = current_tle_nr d"

text \<open>The request as \<open>HANDED_OVER_TO_NETWORK\<close> leaves it before it asks for completion.\<close>

definition handed_over :: "drbd_request \<Rightarrow> drbd_request" where
  "handed_over req =
     (let pa = (\<exists>b. master_bio req = Some b \<and> bio_data_dir b = WRITE) \<and>
               RQ_EXP_RECEIVE_ACK \<notin> rq_state req \<and> RQ_EXP_WRITE_ACK \<notin> rq_state req \<and>
               RQ_NET_PENDING \<in> rq_state req;
          req1 = (if pa then set_flags {RQ_NET_OK} (clear_flags {RQ_NET_PENDING} req) else req)
      in set_flags {RQ_NET_SENT} (clear_flags {RQ_NET_QUEUED} req1))"

subsection \<open>Congestion\<close>

datatype drbd_on_congestion = OC_BLOCK | OC_PULL_AHEAD | OC_DISCONNECT

text \<open>The fields of \<open>net_conf\<close> that \<open>conn_check_congested\<close> reads.\<close>

record net_conf_cong =
  on_congestion :: drbd_on_congestion
  cong_fill :: "32 word"
  cong_extents :: "32 word"

text \<open>
  \<open>conn_check_congested\<close>. \<open>nc\<close> is the connection's \<open>net_conf\<close>, which may be null;
  \<open>apv\<close> is \<open>connection->agreed_pro_version\<close>, \<open>in_flight\<close> the counter
  \<open>device->ap_in_flight\<close> and \<open>al_used\<close> is \<open>device->act_log->used\<close>. The comparisons
  are the unsigned ones.
\<close>

definition conn_check_congested ::
  "net_conf_cong option \<Rightarrow> 32 word \<Rightarrow> 32 word \<Rightarrow> 32 word \<Rightarrow> drbd_device \<Rightarrow>
   bool \<times> drbd_device" where
  "conn_check_congested nc apv in_flight al_used d =
     (case nc of
        None \<Rightarrow> (False, d)
      | Some c \<Rightarrow>
          if on_congestion c = OC_BLOCK \<or> apv < 96 then (False, d)
          else
            (let (g1, d1) = (if cong_fill c \<noteq> 0 \<and> cong_fill c \<le> in_flight
                             then (True, emit INFO_CONGESTION_FILL d) else (False, d));
                 (g2, d2) = (if cong_extents c \<le> al_used
                             then (True, emit INFO_CONGESTION_EXTENTS d1) else (g1, d1))
             in if g2 then
                  (let d3 = (if current_tle_writes d2 \<noteq> 0 then start_new_tl_epoch d2 else d2)
                   in (True, emit (if on_congestion c = OC_PULL_AHEAD
                                   then CHANGE_REPL_STATE_AHEAD
                                   else CHANGE_CSTATE_DISCONNECTING) d3))
                else (False, d2)))"

subsection \<open>The entry point\<close>

definition EOPNOTSUPP :: "32 word" where
  "EOPNOTSUPP = 95"

text \<open>\<open>IS_ALIGNED(x, a)\<close> of the kernel, for \<open>a\<close> a power of two: \<open>(x & (a - 1)) == 0\<close>.\<close>

definition IS_ALIGNED :: "32 word \<Rightarrow> 32 word \<Rightarrow> bool" where
  "IS_ALIGNED x a \<longleftrightarrow> x AND (a - 1) = 0"

text \<open>
  \<open>drbd_make_request\<close>. \<open>jiffies\<close> is the clock when the bio comes in. The body of
  \<open>__drbd_make_request\<close> is not modelled: the call is recorded in the trace, with the bio
  and the start time it is given.
\<close>

definition drbd_make_request :: "drbd_device \<Rightarrow> bio \<Rightarrow> 64 word \<Rightarrow> drbd_device" where
  "drbd_make_request d b jiffies =
     (if bi_hardbarrier b then emit (BIO_ENDIO b (- EOPNOTSUPP)) d
      else
        (let start_time = jiffies;
             d1 = D_ASSERT (0 < bi_size b) ''bio->bi_size > 0'' d;
             d2 = D_ASSERT (IS_ALIGNED (bi_size b) 512) ''IS_ALIGNED(bio->bi_size, 512)'' d1;
             d3 = emit INC_AP_BIO d2
         in emit (MAKE_REQUEST b start_time) d3))"

subsection \<open>The request timer\<close>

text \<open>
  \<open>find_oldest_request\<close>: the walk over the transfer log, oldest entry first.
\<close>

fun find_oldest_request :: "drbd_request list \<Rightarrow> drbd_request option" where
  "find_oldest_request [] = None"
| "find_oldest_request (r # rs) =
     (if rq_state r \<inter> {RQ_NET_PENDING, RQ_LOCAL_PENDING} \<noteq> {} then Some r
      else find_oldest_request rs)"

text \<open>\<open>min_not_zero(x, y)\<close> of the kernel: the smaller of the two that is not zero.\<close>

definition min_not_zero :: "64 word \<Rightarrow> 64 word \<Rightarrow> 64 word" where
  "min_not_zero x y = (if x = 0 then y else if y = 0 then x else min x y)"

text \<open>
  \<open>time_is_before_eq_jiffies(a)\<close> of the kernel is \<open>time_after_eq(jiffies, a)\<close>, that is
  \<open>(long)(jiffies - a) >= 0\<close>: a comparison that survives the wrap of the clock.
\<close>

definition time_is_before_eq_jiffies :: "64 word \<Rightarrow> 64 word \<Rightarrow> bool" where
  "time_is_before_eq_jiffies jiffies a \<longleftrightarrow> 0 \<le> sint (jiffies - a)"

text \<open>
  What \<open>request_timer_fn\<close> reads: the clock, the kernel's \<open>HZ\<close>, the timeouts of
  \<open>net_conf\<close> (which may be null) and of \<open>disk_conf\<close> (read only when \<open>get_ldev\<close>
  succeeds), the two state tests, the device the timer belongs to and the transfer log.
  The timeouts are 32-bit unsigned fields, and the products are computed in 32 bits.
\<close>

record net_conf_timer =
  nc_timeout :: "32 word"
  nc_ko_count :: "32 word"

record timer_env =
  te_jiffies :: "64 word"
  te_HZ :: "32 word"
  te_net_conf :: "net_conf_timer option"
  te_disk_timeout :: "32 word option"
  te_repl_below_standalone :: bool   \<comment> \<open>\<open>repl_state[NOW] < L_STANDALONE\<close>\<close>
  te_disk_at_most_failed :: bool     \<comment> \<open>\<open>disk_state[NOW] <= D_FAILED\<close>\<close>
  te_device :: nat
  te_transfer_log :: "drbd_request list"

definition timer_ent :: "timer_env \<Rightarrow> 64 word" where
  "timer_ent env =
     (case te_net_conf env of
        None \<Rightarrow> 0
      | Some nc \<Rightarrow> ucast (nc_timeout nc * te_HZ env div 10 * nc_ko_count nc))"

definition timer_dt :: "timer_env \<Rightarrow> 64 word" where
  "timer_dt env =
     (case te_disk_timeout env of
        None \<Rightarrow> 0
      | Some t \<Rightarrow> ucast (t * te_HZ env div 10))"

text \<open>
  \<open>request_timer_fn\<close>: the calls it makes, in order. No \<open>MOD_TIMER\<close> among them means
  that the recurring timer has stopped.
\<close>

definition request_timer_fn :: "timer_env \<Rightarrow> effect list" where
  "request_timer_fn env =
     (let ent = timer_ent env;
          dt = timer_dt env;
          et = min_not_zero dt ent;
          jiffies = te_jiffies env
      in if et = 0 \<or> (te_repl_below_standalone env \<and> te_disk_at_most_failed env) then []
         else
           (case find_oldest_request (te_transfer_log env) of
              None \<Rightarrow> [MOD_TIMER (jiffies + et)]
            | Some req \<Rightarrow>
                (let e1 = (if ent \<noteq> 0 \<and> RQ_NET_PENDING \<in> rq_state req \<and>
                              time_is_before_eq_jiffies jiffies (start_time req + ent)
                           then [WARN_KO_COUNT_TIMEOUT, CHANGE_CSTATE_TIMEOUT] else []);
                     e2 = (if dt \<noteq> 0 \<and> RQ_LOCAL_PENDING \<in> rq_state req \<and>
                              req_device req = te_device env \<and>
                              time_is_before_eq_jiffies jiffies (start_time req + dt)
                           then [WARN_DISK_TIMEOUT, CHK_IO_ERROR True] else []);
                     nt = (if time_is_before_eq_jiffies jiffies (start_time req + et)
                           then jiffies else start_time req) + et
                 in e1 @ e2 @ [MOD_TIMER nt])))"

section \<open>The transfer log, the bitmap and the sender of drbd\_main.c\<close>

subsection \<open>Data\<close>

text \<open>
  The transfer log of drbd\_main.c is a ring of pointers to requests: an array of
  \<open>conf.tl_size\<close> slots (the length of the list \<open>transfer_log\<close>) with the two cursors
  \<open>tl_begin\<close> (oldest entry) and \<open>tl_end\<close> (next free slot), kept here as indices into
  the array. A null pointer marks a barrier and the pointer \<open>-1\<close> an entry that has been
  taken out.
\<close>

definition TL_BARRIER :: "64 word" where
  "TL_BARRIER = 0"

definition TL_EMPTY :: "64 word" where
  "TL_EMPTY = - 1"

text \<open>
  The bitmap: \<open>bm_size\<close> is \<open>sbm->size\<close>, its size in bytes, and \<open>bm\<close> the buffer at
  \<open>sbm->bm\<close> as the array of \<open>unsigned long\<close> (of 64 bits here) that \<open>bm_set_bit\<close>
  takes it for: \<open>bm_init\<close> allocates \<open>size\<close> bytes, so the array has \<open>size / 8\<close>
  elements.
\<close>

record BitMap =
  bm_size :: "64 word"
  bm :: "64 word list"
  sb_bitnr :: "64 word"
  sb_mask :: "64 word"
  gb_bitnr :: "64 word"
  gb_snr :: "64 word"

definition BM_BLOCK_SIZE_B :: nat where
  "BM_BLOCK_SIZE_B = 12"

text \<open>\<open>LN2_BPL\<close> for \<open>BITS_PER_LONG == 64\<close>.\<close>

definition LN2_BPL :: nat where
  "LN2_BPL = 6"

text \<open>
  Modelled from the spec: the constants \<open>SS_OUT_OF_SYNC\<close> and \<open>SS_IN_SYNC\<close> of
  drbd\_int.h are missing from the sources. They are the values of the parameter \<open>bit\<close>
  (\<open>bitv\<close> here)
  of \<open>bm_set_bit\<close> that mark a block out-of-sync and in-sync: the values of
  \<open>BM_OUT_OF_SYNC\<close> (1) and \<open>BM_IN_SYNC\<close> (0) of drbd\_main.c.
\<close>

definition SS_OUT_OF_SYNC :: "32 word" where
  "SS_OUT_OF_SYNC = 1"

definition SS_IN_SYNC :: "32 word" where
  "SS_IN_SYNC = 0"

text \<open>
  The request of drbd\_main.c (\<open>drbd_request_t\<close>), which the entries of the transfer log
  point to: its sector and its status.
\<close>

record drbd_request_t =
  rq_sector :: "64 word"
  rq_status :: "32 word"

text \<open>
  What the functions write to the kernel log, and the calls they make to functions that are
  not among the sources (\<open>inc_pending\<close>, \<open>set_cstate\<close>,
  \<open>drbd_thread_restart_nowait\<close>) and to the socket, in order.
\<close>

datatype kevent =
    PRINTK_TL_TOO_SMALL
  | PRINTK_TL_MESSED_UP
  | PRINTK_INVALID_BARRIER_NR "32 word" "32 word"   \<comment> \<open>found, reported\<close>
  | PRINTK_EPOCH_SET_SIZE_WRONG "32 word" "32 word" \<comment> \<open>found, reported\<close>
  | PRINTK_BITMAP_TOO_SMALL
  | PRINTK_CALLING_SENDMSG_AGAIN
  | PRINTK_LEAVING_WHILE
  | PRINTK_SEND_TIMED_OUT
  | PRINTK_SENDMSG_RETURNED int
  | CALL_inc_pending
  | CALL_set_cstate nat
  | CALL_restart_receiver
  | SOCK_SENDMSG bool "8 word list" int
      \<comment> \<open>via the meta socket, the bytes offered, the result\<close>

datatype endian = LITTLE_ENDIAN | BIG_ENDIAN

text \<open>
  What one call of \<open>sock_sendmsg\<close> answers: its result, whether the signal \<open>DRBD_SIG\<close>
  is pending when it returns, and the value of \<open>ti.timeout_happened\<close> by then (set by the
  timer \<open>drbd_timeout\<close>; not initialised, so any value, when \<open>conf.timeout\<close> is 0).
\<close>

record sendmsg_result =
  sm_rv :: int
  sm_sig :: bool
  sm_timeout :: bool

record Drbd_Conf =
  transfer_log :: "64 word list"
  tl_begin :: nat
  tl_end :: nat
  barrier_nr_issue :: "32 word"
  barrier_nr_done :: "32 word"
  conf_wire_protocol :: drbd_prot
  conf_timeout :: "32 word"
  cstate :: nat
  blk_size_b :: nat
  mbds_id :: BitMap
  issue_barrier :: bool          \<comment> \<open>the bit \<open>ISSUE_BARRIER\<close> of \<open>mdev->flags\<close>\<close>
  have_sock :: bool              \<comment> \<open>\<open>mdev->sock\<close> is not null\<close>
  have_msock :: bool             \<comment> \<open>\<open>mdev->msock\<close> is not null\<close>
  host :: endian                 \<comment> \<open>the byte order of the machine\<close>
  requests :: "64 word \<Rightarrow> drbd_request_t"  \<comment> \<open>the memory the log's pointers point to\<close>
  sendmsg_results :: "sendmsg_result list"
    \<comment> \<open>the answers of the coming calls of \<open>sock_sendmsg\<close>, in order\<close>
  klog :: "kevent list"

definition printk :: "kevent \<Rightarrow> Drbd_Conf \<Rightarrow> Drbd_Conf" where
  "printk e m = m\<lparr>klog := klog m @ [e]\<rparr>"

text \<open>The step of a cursor: one slot further, and back to slot 0 after the last one.\<close>

definition tl_next :: "Drbd_Conf \<Rightarrow> nat \<Rightarrow> nat" where
  "tl_next m p = (if p + 1 = length (transfer_log m) then 0 else p + 1)"

subsection \<open>The transfer log\<close>

definition tl_add :: "Drbd_Conf \<Rightarrow> 64 word \<Rightarrow> Drbd_Conf" where
  "tl_add m new_item =
     (let m1 = m\<lparr>transfer_log := (transfer_log m)[tl_end m := new_item]\<rparr>;
          m2 = m1\<lparr>tl_end := tl_next m1 (tl_end m1)\<rparr>
      in if tl_end m2 = tl_begin m2 then printk PRINTK_TL_TOO_SMALL m2 else m2)"

definition tl_add_barrier :: "Drbd_Conf \<Rightarrow> 32 word \<times> Drbd_Conf" where
  "tl_add_barrier m =
     (let m1 = m\<lparr>transfer_log := (transfer_log m)[tl_end m := TL_BARRIER]\<rparr>;
          m2 = m1\<lparr>tl_end := tl_next m1 (tl_end m1)\<rparr>;
          m3 = (if tl_end m2 = tl_begin m2 then printk PRINTK_TL_TOO_SMALL m2 else m2);
          bnr = barrier_nr_issue m3
      in (bnr, m3\<lparr>barrier_nr_issue := barrier_nr_issue m3 + 1\<rparr>))"

text \<open>
  The statements of the \<open>do ... while\<close> loop of \<open>tl_release\<close> that move the cursor
  \<open>tl_begin\<close>.
\<close>

definition tl_release_step :: "Drbd_Conf \<Rightarrow> Drbd_Conf" where
  "tl_release_step m =
     (let m1 = m\<lparr>tl_begin := tl_next m (tl_begin m)\<rparr>
      in if tl_begin m1 = tl_end m1 then printk PRINTK_TL_MESSED_UP m1 else m1)"

text \<open>
  The loop itself. It runs until the cursor points to a barrier, for ever when the ring
  holds none: the result is \<open>None\<close> then.
\<close>

partial_function (option) tl_release_loop ::
  "Drbd_Conf \<Rightarrow> 32 word \<Rightarrow> (Drbd_Conf \<times> 32 word) option" where
  "tl_release_loop m epoch_size =
     (let m1 = tl_release_step m;
          es = epoch_size + 1
      in if transfer_log m1 ! tl_begin m1 \<noteq> TL_BARRIER then tl_release_loop m1 es
         else Some (m1, es))"

declare tl_release_loop.simps [code]

text \<open>
  \<open>tl_release\<close>. \<open>epoch_size\<close> is an \<open>int\<close> that is compared with the unsigned
  \<open>set_size\<close>: both are 32-bit words here.
\<close>

definition tl_release :: "Drbd_Conf \<Rightarrow> 32 word \<Rightarrow> 32 word \<Rightarrow> Drbd_Conf option" where
  "tl_release m barrier_nr set_size =
     (let es0 = (if transfer_log m ! tl_begin m = TL_BARRIER then - 1 else 0)
      in case tl_release_loop m es0 of
           None \<Rightarrow> None
         | Some (m1, epoch_size) \<Rightarrow>
             (let m2 = (if barrier_nr_done m1 \<noteq> barrier_nr
                        then printk (PRINTK_INVALID_BARRIER_NR (barrier_nr_done m1) barrier_nr) m1
                        else m1);
                  m3 = m2\<lparr>barrier_nr_done := barrier_nr_done m2 + 1\<rparr>;
                  m4 = (if epoch_size \<noteq> set_size
                        then printk (PRINTK_EPOCH_SET_SIZE_WRONG epoch_size set_size) m3
                        else m3)
              in Some m4))"

subsection \<open>The bitmap\<close>

text \<open>
  \<open>bm_set_bit\<close>, for a block size of at most 4096 bytes (\<open>ln2_block_size \<le> 12\<close>). It
  returns the bitmap and what it wrote to the kernel log. The code compares the index of
  the word, \<open>bitnr >> LN2_BPL\<close>, with \<open>sbm->size\<close>, the size in bytes: an index from
  \<open>size / 8\<close> on that is below \<open>size\<close> passes the test, and the word read and written
  lies behind the buffer. The result is \<open>None\<close> then.
\<close>

definition bm_set_bit ::
  "BitMap \<Rightarrow> 64 word \<Rightarrow> nat \<Rightarrow> 32 word \<Rightarrow> (BitMap \<times> kevent list) option" where
  "bm_set_bit sbm blocknr ln2_block_size bitv =
     (let cb = BM_BLOCK_SIZE_B - ln2_block_size;
          bitnr = drop_bit cb blocknr;
          sub = push_bit (unat (blocknr AND (push_bit cb 1 - 1))) (1 :: 64 word);
          widx = unat (drop_bit LN2_BPL bitnr);
          wbit = push_bit (unat (bitnr AND (push_bit LN2_BPL 1 - 1))) (1 :: 64 word);
          store = (\<lambda>s. if bm_size s \<le> drop_bit LN2_BPL bitnr
                        then Some (s, [PRINTK_BITMAP_TOO_SMALL])
                        else if widx < length (bm s)
                        then Some (s\<lparr>bm := (bm s)[widx := (if bitv \<noteq> 0 then bm s ! widx OR wbit
                                                            else bm s ! widx AND NOT wbit)]\<rparr>, [])
                        else None)
      in if bitv = 0 \<and> cb \<noteq> 0 then
           (if sb_bitnr sbm = bitnr then
              (let s1 = sbm\<lparr>sb_mask := sb_mask sbm OR sub\<rparr>
               in if sb_mask s1 \<noteq> push_bit (2 ^ cb) 1 - 1 then Some (s1, []) else store s1)
            else Some (sbm\<lparr>sb_bitnr := bitnr, sb_mask := sub\<rparr>, []))
         else store sbm)"

text \<open>
  The bit of the bitmap that \<open>bm_set_bit\<close> writes for the bit number \<open>bitnr\<close>: the bit
  \<open>bitnr & (BITS_PER_LONG - 1)\<close> of the word \<open>bm[bitnr >> LN2_BPL]\<close>, a word of the
  buffer.
\<close>

definition bm_is_set :: "BitMap \<Rightarrow> 64 word \<Rightarrow> bool" where
  "bm_is_set sbm bitnr \<longleftrightarrow>
     unat (drop_bit LN2_BPL bitnr) < length (bm sbm)
     \<and> bit (bm sbm ! unat (drop_bit LN2_BPL bitnr))
           (unat (bitnr AND (push_bit LN2_BPL 1 - 1)))"

subsection \<open>Byte order\<close>

text \<open>
  The bytes of a value in the order of increasing significance, and the other way round
  (big-endian, the network's order).
\<close>

definition le_bytes16 :: "16 word \<Rightarrow> 8 word list" where
  "le_bytes16 x = [ucast x, ucast (drop_bit 8 x)]"

definition le_bytes32 :: "32 word \<Rightarrow> 8 word list" where
  "le_bytes32 x = [ucast x, ucast (drop_bit 8 x), ucast (drop_bit 16 x), ucast (drop_bit 24 x)]"

definition le_bytes64 :: "64 word \<Rightarrow> 8 word list" where
  "le_bytes64 x = [ucast x, ucast (drop_bit 8 x), ucast (drop_bit 16 x), ucast (drop_bit 24 x),
                   ucast (drop_bit 32 x), ucast (drop_bit 40 x), ucast (drop_bit 48 x),
                   ucast (drop_bit 56 x)]"

definition be_bytes16 :: "16 word \<Rightarrow> 8 word list" where
  "be_bytes16 x = rev (le_bytes16 x)"

definition be_bytes32 :: "32 word \<Rightarrow> 8 word list" where
  "be_bytes32 x = rev (le_bytes32 x)"

definition be_bytes64 :: "64 word \<Rightarrow> 8 word list" where
  "be_bytes64 x = rev (le_bytes64 x)"

text \<open>The bytes in memory of a variable that holds \<open>x\<close>, on a machine of byte order \<open>e\<close>.\<close>

definition mem16 :: "endian \<Rightarrow> 16 word \<Rightarrow> 8 word list" where
  "mem16 e x = (if e = LITTLE_ENDIAN then le_bytes16 x else be_bytes16 x)"

definition mem32 :: "endian \<Rightarrow> 32 word \<Rightarrow> 8 word list" where
  "mem32 e x = (if e = LITTLE_ENDIAN then le_bytes32 x else be_bytes32 x)"

definition mem64 :: "endian \<Rightarrow> 64 word \<Rightarrow> 8 word list" where
  "mem64 e x = (if e = LITTLE_ENDIAN then le_bytes64 x else be_bytes64 x)"

text \<open>
  The kernel's \<open>cpu_to_be16\<close>, \<open>cpu_to_be32\<close> and \<open>cpu_to_be64\<close>: the identity on a
  big-endian machine, the swap of the bytes (\<open>___swab16\<close>, \<open>___swab32\<close>,
  \<open>___swab64\<close>) on a little-endian one.
\<close>

definition swab16 :: "16 word \<Rightarrow> 16 word" where
  "swab16 x = push_bit 8 (x AND 0x00ff) OR drop_bit 8 (x AND 0xff00)"

definition swab32 :: "32 word \<Rightarrow> 32 word" where
  "swab32 x = push_bit 24 (x AND 0x000000ff) OR push_bit 8 (x AND 0x0000ff00)
              OR drop_bit 8 (x AND 0x00ff0000) OR drop_bit 24 (x AND 0xff000000)"

definition swab64 :: "64 word \<Rightarrow> 64 word" where
  "swab64 x = push_bit 56 (x AND 0x00000000000000ff) OR push_bit 40 (x AND 0x000000000000ff00)
              OR push_bit 24 (x AND 0x0000000000ff0000) OR push_bit 8 (x AND 0x00000000ff000000)
              OR drop_bit 8 (x AND 0x000000ff00000000) OR drop_bit 24 (x AND 0x0000ff0000000000)
              OR drop_bit 40 (x AND 0x00ff000000000000) OR drop_bit 56 (x AND 0xff00000000000000)"

definition cpu_to_be16 :: "endian \<Rightarrow> 16 word \<Rightarrow> 16 word" where
  "cpu_to_be16 e x = (if e = LITTLE_ENDIAN then swab16 x else x)"

definition cpu_to_be32 :: "endian \<Rightarrow> 32 word \<Rightarrow> 32 word" where
  "cpu_to_be32 e x = (if e = LITTLE_ENDIAN then swab32 x else x)"

definition cpu_to_be64 :: "endian \<Rightarrow> 64 word \<Rightarrow> 64 word" where
  "cpu_to_be64 e x = (if e = LITTLE_ENDIAN then swab64 x else x)"

subsection \<open>Packets\<close>

text \<open>
  Modelled from the spec: the packet structures of drbd.h are missing from the sources.
  Following the spec's table of the wire protocol, \<open>Drbd_Packet\<close> is the header (magic of
  32 bits, command of 16 bits, length of 16 bits: 8 bytes), and the packets are the header
  \<open>p\<close> followed by the payload \<open>h\<close> without padding: \<open>barrier\<close> (32 bits) in a
  \<open>Drbd_Barrier_Packet\<close> (12 bytes), \<open>barrier\<close> and \<open>set_size\<close> (32 bits each) in a
  \<open>Drbd_BarrierAck_Packet\<close> (16 bytes), \<open>block_nr\<close> and \<open>block_id\<close> (64 bits each) in a
  \<open>Drbd_Data_Packet\<close> (24 bytes). The fields hold what the code stores in them; the
  functions below pass the bytes of \<open>h\<close>, as they are in memory, next to the header.
\<close>

record Drbd_Packet =
  magic :: "32 word"
  command :: "16 word"
  length_field :: "16 word"   \<comment> \<open>the field \<open>length\<close>\<close>

definition packet_image :: "endian \<Rightarrow> Drbd_Packet \<Rightarrow> 8 word list" where
  "packet_image e p = mem32 e (magic p) @ mem16 e (command p) @ mem16 e (length_field p)"

text \<open>
  Modelled from the spec: the magic number and the numbers of the commands (the
  enumeration \<open>Drbd_Packet_Cmd\<close>) are missing from the sources; the spec has a fixed cookie
  and the tags by name. No theorem depends on the numbers chosen here.
\<close>

definition DRBD_MAGIC :: "32 word" where
  "DRBD_MAGIC = 0x83740267"

datatype Drbd_Packet_Cmd = Data | Barrier | BarrierAck

fun cmd_code :: "Drbd_Packet_Cmd \<Rightarrow> 16 word" where
  "cmd_code Data = 0"
| "cmd_code Barrier = 3"
| "cmd_code BarrierAck = 9"

text \<open>
  Modelled from the spec: the connection states (the enumeration \<open>Drbd_CState\<close>) are
  missing from the sources. \<open>drbd_send\<close> refuses to send in a state before
  \<open>WFReportParams\<close>; only the order of the states matters.
\<close>

definition Timeout :: nat where
  "Timeout = 3"

definition BrokenPipe :: nat where
  "BrokenPipe = 4"

definition WFReportParams :: nat where
  "WFReportParams = 6"

text \<open>
  Modelled from the spec: \<open>ID_SYNCER\<close>, the block id of the blocks that the syncer sends,
  is missing from the sources. The theorems take a block id other than \<open>ID_SYNCER\<close>,
  whatever its value.
\<close>

definition ID_SYNCER :: "64 word" where
  "ID_SYNCER = - 1"

definition ERESTARTSYS :: int where
  "ERESTARTSYS = 512"

text \<open>
  \<open>set_cstate\<close>, \<open>inc_pending\<close> and \<open>drbd_thread_restart_nowait\<close> are not among the
  sources: \<open>set_cstate\<close> stores the state, and all three calls are recorded.
\<close>

definition set_cstate :: "nat \<Rightarrow> Drbd_Conf \<Rightarrow> Drbd_Conf" where
  "set_cstate ns m = printk (CALL_set_cstate ns) (m\<lparr>cstate := ns\<rparr>)"

definition inc_pending :: "Drbd_Conf \<Rightarrow> Drbd_Conf" where
  "inc_pending m = printk CALL_inc_pending m"

subsection \<open>Sending\<close>

text \<open>
  The loop of \<open>drbd_send\<close>. The two entries of \<open>iov\<close> are the bytes they still point to,
  \<open>iovlen\<close> is \<open>msg.msg_iovlen\<close>, and \<open>header_size\<close>, \<open>data_size\<close>, \<open>sent\<close> are the
  variables of the code; the sizes are natural numbers and the results integers, for frames
  of less than $2^{31}$ bytes. Every call of \<open>sock_sendmsg\<close> is recorded with the bytes
  it is offered and its answer, taken from the list \<open>rs\<close>. The loop returns the last
  \<open>rv\<close>, \<open>sent\<close>, the last value of \<open>ti.timeout_happened\<close>, what was logged and the
  answers left; it returns \<open>None\<close> when the answers end before the loop does.
\<close>

fun drbd_send_loop ::
  "bool \<Rightarrow> sendmsg_result list \<Rightarrow> 8 word list \<Rightarrow> 8 word list \<Rightarrow> nat \<Rightarrow> nat \<Rightarrow> nat \<Rightarrow> int
   \<Rightarrow> kevent list
   \<Rightarrow> (int \<times> int \<times> bool \<times> kevent list \<times> sendmsg_result list) option" where
  "drbd_send_loop via_msock [] iov0 iov1 iovlen header_size data_size sent lg = None"
| "drbd_send_loop via_msock (a # rs) iov0 iov1 iovlen header_size data_size sent lg =
     (let rv = sm_rv a;
          lg1 = lg @ [SOCK_SENDMSG via_msock
                        (take (header_size + data_size)
                           (if iovlen = 2 then iov0 @ iov1 else iov0)) rv]
      in if rv = - ERESTARTSYS \<and> sm_sig a then
           (if sm_timeout a
            then Some (rv, sent, sm_timeout a, lg1 @ [PRINTK_LEAVING_WHILE], rs)
            else drbd_send_loop via_msock rs iov0 iov1 iovlen header_size data_size sent lg1)
         else if rv \<le> 0 then Some (rv, sent, sm_timeout a, lg1, rs)
         else if sent + rv = int (header_size + data_size)
           then Some (rv, sent + rv, sm_timeout a, lg1, rs)
         else if rv < int header_size then
           drbd_send_loop via_msock rs (drop (nat rv) iov0) iov1 iovlen
             (header_size - nat rv) data_size (sent + rv) (lg1 @ [PRINTK_CALLING_SENDMSG_AGAIN])
         else if header_size \<noteq> 0 then
           drbd_send_loop via_msock rs (drop (nat (rv - int header_size)) iov1) iov1 1
             0 (data_size - nat (rv - int header_size)) (sent + rv)
             (lg1 @ [PRINTK_CALLING_SENDMSG_AGAIN])
         else
           drbd_send_loop via_msock rs (drop (nat rv) iov0) iov1 iovlen
             0 (data_size - nat rv) (sent + rv) (lg1 @ [PRINTK_CALLING_SENDMSG_AGAIN]))"

text \<open>
  The state of the variables of the loop when it is entered: with two entries in use, the
  first holds the \<open>header_size\<close> bytes left of the header and the second the data; with
  one, it holds the bytes left of the header of a packet without data, or the
  \<open>data_size\<close> bytes left of the data.
\<close>

definition drbd_send_vars :: "8 word list \<Rightarrow> 8 word list \<Rightarrow> nat \<Rightarrow> nat \<Rightarrow> nat \<Rightarrow> bool" where
  "drbd_send_vars iov0 iov1 iovlen header_size data_size \<longleftrightarrow>
     (if iovlen = 2 then length iov0 = header_size \<and> header_size \<noteq> 0 \<and> length iov1 = data_size
      else (header_size = length iov0 \<and> data_size = 0 \<and> iov1 = [])
           \<or> (header_size = 0 \<and> data_size = length iov0))"

text \<open>
  \<open>drbd_send\<close>: \<open>header\<close> is the structure at the start of the packet, \<open>rest\<close> the
  bytes of the packet behind it (\<open>header_size\<close> is the size of both), \<open>data\<close> the
  payload. It first stores the magic number and the length of the data in the header.
\<close>

definition drbd_send_header :: "Drbd_Conf \<Rightarrow> Drbd_Packet \<Rightarrow> 8 word list \<Rightarrow> Drbd_Packet" where
  "drbd_send_header m header data =
     header\<lparr>magic := cpu_to_be32 (host m) DRBD_MAGIC,
            length_field := cpu_to_be16 (host m) (of_nat (length data))\<rparr>"

definition drbd_send ::
  "Drbd_Conf \<Rightarrow> Drbd_Packet \<Rightarrow> 8 word list \<Rightarrow> 8 word list \<Rightarrow> bool \<Rightarrow> (int \<times> Drbd_Conf) option" where
  "drbd_send m header rest data via_msock =
     (if \<not> (if via_msock then have_msock m else have_sock m) then Some (- 1000, m)
      else if cstate m < WFReportParams then Some (- 1001, m)
      else
        (let iov0 = packet_image (host m) (drbd_send_header m header data) @ rest
         in case drbd_send_loop via_msock (sendmsg_results m) iov0 data
                   (if length data > 0 then 2 else 1) (length iov0) (length data) 0 [] of
              None \<Rightarrow> None
            | Some (rv, sent, timeout_happened, lg, rs) \<Rightarrow>
                (let m1 = m\<lparr>sendmsg_results := rs, klog := klog m @ lg\<rparr>
                 in if timeout_happened then
                      Some (- 1002, printk CALL_restart_receiver
                                      (set_cstate Timeout (printk PRINTK_SEND_TIMED_OUT m1)))
                    else if rv \<le> 0 then
                      Some (sent, printk CALL_restart_receiver
                                    (set_cstate BrokenPipe
                                       (printk (PRINTK_SENDMSG_RETURNED rv) m1)))
                    else Some (sent, m1))))"

text \<open>\<open>_drbd_send_barrier\<close>.\<close>

definition drbd_send_barrier :: "Drbd_Conf \<Rightarrow> (int \<times> Drbd_Conf) option" where
  "drbd_send_barrier m =
     (let (bnr, m1) = tl_add_barrier m;
          head = \<lparr>magic = 0, command = cpu_to_be16 (host m1) (cmd_code Barrier), length_field = 0\<rparr>
      in case drbd_send m1 head (mem32 (host m1) bnr) [] False of
           None \<Rightarrow> None
         | Some (r, m2) \<Rightarrow> Some (r, if r = 12 then inc_pending m2 else m2))"


text \<open>
  The first statement of \<open>drbd_send_data\<close> under the send mutex: when the bit
  \<open>ISSUE_BARRIER\<close> is set, it is cleared and a barrier is sent, whose result is ignored.
\<close>

definition drbd_send_data_barrier :: "Drbd_Conf \<Rightarrow> Drbd_Conf option" where
  "drbd_send_data_barrier m =
     (if issue_barrier m
      then map_option snd (drbd_send_barrier (m\<lparr>issue_barrier := False\<rparr>))
      else Some m)"

text \<open>
  \<open>drbd_send_data\<close>. The result is \<open>None\<close> when the answers of the socket end before
  a loop of \<open>drbd_send\<close> does, and when \<open>bm_set_bit\<close> writes behind the bitmap's buffer.
\<close>

definition drbd_send_data ::
  "Drbd_Conf \<Rightarrow> 8 word list \<Rightarrow> 64 word \<Rightarrow> 64 word \<Rightarrow> (int \<times> Drbd_Conf) option" where
  "drbd_send_data m data block_nr block_id =
     (case drbd_send_data_barrier m of
        None \<Rightarrow> None
      | Some m1 \<Rightarrow>
          (let head = \<lparr>magic = 0, command = cpu_to_be16 (host m1) (cmd_code Data), length_field = 0\<rparr>
           in case drbd_send m1 head
                     (mem64 (host m1) (cpu_to_be64 (host m1) block_nr) @ mem64 (host m1) block_id)
                     data False of
                None \<Rightarrow> None
              | Some (ret, m2) \<Rightarrow>
                  (let m3 = (if ret = int (length data + 24)
                                \<and> conf_wire_protocol m2 \<noteq> DRBD_PROT_A
                             then inc_pending m2 else m2)
                   in if block_id \<noteq> ID_SYNCER then
                        (if ret = int (length data + 24) then Some (ret, tl_add m3 block_id)
                         else
                           (case bm_set_bit (mbds_id m3) block_nr (blk_size_b m3)
                                   SS_OUT_OF_SYNC of
                              None \<Rightarrow> None
                            | Some (b, msgs) \<Rightarrow>
                                Some (0, m3\<lparr>mbds_id := b, klog := klog m3 @ msgs\<rparr>)))
                      else Some (ret, m3))))"

text \<open>
  The bytes that the socket has taken, according to the log: of each call of
  \<open>sock_sendmsg\<close> on the socket with a positive result \<open>rv\<close>, the first \<open>rv\<close> of the
  bytes offered.
\<close>

fun sock_accepted :: "bool \<Rightarrow> kevent list \<Rightarrow> 8 word list" where
  "sock_accepted via_msock [] = []"
| "sock_accepted via_msock (SOCK_SENDMSG v bytes rv # es) =
     (if v = via_msock \<and> 0 < rv then take (nat rv) bytes else []) @ sock_accepted via_msock es"
| "sock_accepted via_msock (e # es) = sock_accepted via_msock es"

text \<open>The bytes of the \<open>Data\<close> packet that \<open>drbd_send_data\<close> hands to \<open>drbd_send\<close>,
  header, block number, block id and data.\<close>

definition data_frame :: "Drbd_Conf \<Rightarrow> 8 word list \<Rightarrow> 64 word \<Rightarrow> 64 word \<Rightarrow> 8 word list" where
  "data_frame m data block_nr block_id =
     packet_image (host m)
       (drbd_send_header m
          \<lparr>magic = 0, command = cpu_to_be16 (host m) (cmd_code Data), length_field = 0\<rparr> data)
     @ mem64 (host m) (cpu_to_be64 (host m) block_nr) @ mem64 (host m) block_id @ data"

section \<open>Concrete inputs\<close>

text \<open>The requests, devices and logs at which the theorems below are instantiated.\<close>

definition ex_write_bio :: bio where
  "ex_write_bio = \<lparr>bi_rw = WRITE, bi_hardbarrier = False, bi_sector = 0, bi_size = 4096\<rparr>"

definition ex_read_bio :: bio where
  "ex_read_bio = \<lparr>bi_rw = READ, bi_hardbarrier = False, bi_sector = 8, bi_size = 4096\<rparr>"

definition ex_dev :: drbd_device where
  "ex_dev = \<lparr>current_tle_nr = 7, current_tle_writes = 1, susp = False,
             wire_protocol = DRBD_PROT_C, max_epoch_size = 2048, ldev_if_failed = True,
             ratelimit = True, trace = []\<rparr>"

definition ex_req :: "rq_flag set \<Rightarrow> drbd_request" where
  "ex_req s = \<lparr>rq_state = s, master_bio = Some ex_write_bio, private_bio = 0, epoch = 7,
               i_sector = 0, i_size = 4096, i_in_tree = True, i_waiting = False, on_tl = True,
               w_cb = Some w_send_dblock, start_time = 0, req_device = 0\<rparr>"

definition ex_m :: bio_and_error where
  "ex_m = \<lparr>m_bio = None, m_error = 0\<rparr>"

text \<open>
  A write whose local part failed with \<open>-ENOSPC\<close> (28), stored in \<open>private_bio\<close>, and
  that was never sent.
\<close>

definition ex_failed :: drbd_request where
  "ex_failed = (ex_req {RQ_WRITE, RQ_LOCAL_COMPLETED})\<lparr>private_bio := ERR_PTR (- 28)\<rparr>"

text \<open>
  A write that is pending on the local disk, \<open>private_bio\<close> pointing to the bio
  submitted, and that was never sent.
\<close>

definition ex_abort :: drbd_request where
  "ex_abort = (ex_req {RQ_WRITE, RQ_LOCAL_PENDING})\<lparr>private_bio := 0xffff880012345678,
                                                     w_cb := None\<rparr>"

text \<open>A device whose connection runs protocol A.\<close>

definition ex_devA :: drbd_device where
  "ex_devA = ex_dev\<lparr>wire_protocol := DRBD_PROT_A\<rparr>"

text \<open>
  A protocol A write that is on the sender's queue and has already been refused by the
  peer (\<open>NEG_ACKED\<close> came before the sender was done).
\<close>

definition ex_negacked :: drbd_request where
  "ex_negacked = ex_req {RQ_WRITE, RQ_NET_QUEUED, RQ_NET_DONE, RQ_LOCAL_PENDING}"

text \<open>
  A write that is on the sender's queue and done locally, under protocol A and under
  protocol C.
\<close>

definition ex_queuedA :: drbd_request where
  "ex_queuedA = ex_req {RQ_WRITE, RQ_NET_PENDING, RQ_NET_QUEUED, RQ_LOCAL_COMPLETED, RQ_LOCAL_OK}"

definition ex_queuedC :: drbd_request where
  "ex_queuedC = ex_req {RQ_WRITE, RQ_EXP_WRITE_ACK, RQ_NET_PENDING, RQ_NET_QUEUED,
                        RQ_LOCAL_COMPLETED, RQ_LOCAL_OK}"

text \<open>
  A postponed protocol C write, done on both sides, whose master bio has not been
  completed.
\<close>

definition ex_postponed :: drbd_request where
  "ex_postponed = ex_req {RQ_WRITE, RQ_EXP_WRITE_ACK, RQ_NET_SENT, RQ_NET_DONE, RQ_POSTPONED,
                          RQ_LOCAL_COMPLETED, RQ_LOCAL_OK}"

text \<open>
  A local write that was aborted: its master bio has been completed, the backing device
  still owns the private bio.
\<close>

definition ex_aborted :: drbd_request where
  "ex_aborted = (ex_req {RQ_WRITE, RQ_LOCAL_PENDING, RQ_LOCAL_ABORTED})
                  \<lparr>master_bio := None, i_in_tree := False\<rparr>"

text \<open>
  A protocol C write of an earlier epoch, written on both sides and completed to the upper
  layer, that waits for its barrier ack.
\<close>

definition ex_acked :: drbd_request where
  "ex_acked = (ex_req {RQ_WRITE, RQ_EXP_WRITE_ACK, RQ_NET_SENT, RQ_NET_OK,
                       RQ_LOCAL_COMPLETED, RQ_LOCAL_OK})
                \<lparr>master_bio := None, i_in_tree := False, epoch := 6\<rparr>"

text \<open>A protocol C write that has just been marked for sending.\<close>

definition ex_fresh :: drbd_request where
  "ex_fresh = ex_req {RQ_WRITE, RQ_EXP_WRITE_ACK, RQ_NET_PENDING}"

text \<open>A device whose current epoch has reached \<open>max_epoch_size\<close> writes.\<close>

definition ex_dev_full :: drbd_device where
  "ex_dev_full = ex_dev\<lparr>current_tle_writes := 2048\<rparr>"

text \<open>A device whose epoch counter has reached the largest \<open>int\<close>.\<close>

definition ex_dev_last :: drbd_device where
  "ex_dev_last = ex_dev\<lparr>current_tle_nr := 0x7FFFFFFF\<rparr>"

text \<open>A device whose I/O is suspended.\<close>

definition ex_dev_susp :: drbd_device where
  "ex_dev_susp = ex_dev\<lparr>susp := True\<rparr>"

text \<open>A bio of no bytes, and a bio of 100 bytes.\<close>

definition ex_empty_bio :: bio where
  "ex_empty_bio = \<lparr>bi_rw = WRITE, bi_hardbarrier = False, bi_sector = 0, bi_size = 0\<rparr>"

definition ex_odd_bio :: bio where
  "ex_odd_bio = \<lparr>bi_rw = WRITE, bi_hardbarrier = False, bi_sector = 0, bi_size = 100\<rparr>"

definition ex_barrier_bio :: bio where
  "ex_barrier_bio = \<lparr>bi_rw = WRITE, bi_hardbarrier = True, bi_sector = 0, bi_size = 4096\<rparr>"

text \<open>
  A protocol C write that was sent at time \<open>t\<close>, is done locally and waits for the peer.
\<close>

definition ex_waiting :: "64 word \<Rightarrow> drbd_request" where
  "ex_waiting t =
     (ex_req {RQ_WRITE, RQ_EXP_WRITE_ACK, RQ_NET_PENDING, RQ_NET_SENT, RQ_LOCAL_COMPLETED,
              RQ_LOCAL_OK})\<lparr>start_time := t\<rparr>"

text \<open>
  A timer tick at time 20000 with \<open>HZ\<close> 250, a network timeout of 6 seconds, a ko-count
  of 7 and no disk timeout: \<open>ent\<close> is 10500 ticks and \<open>dt\<close> is 0. The transfer log
  holds a finished write and a write that waits for the peer, sent at time \<open>t\<close>.
\<close>

definition ex_timer_env :: "64 word \<Rightarrow> timer_env" where
  "ex_timer_env t =
     \<lparr>te_jiffies = 20000, te_HZ = 250,
      te_net_conf = Some \<lparr>nc_timeout = 60, nc_ko_count = 7\<rparr>,
      te_disk_timeout = Some 0, te_repl_below_standalone = False,
      te_disk_at_most_failed = False, te_device = 0,
      te_transfer_log = [ex_acked, ex_waiting t]\<rparr>"

text \<open>
  A connected device with a ring of eight slots: the barrier acknowledged last in slot 0,
  two requests, the next barrier in slot 3, one more request.
\<close>

definition ex_bitmap :: BitMap where
  "ex_bitmap = \<lparr>bm_size = 16, bm = [0, 0], sb_bitnr = 0, sb_mask = 0,
                gb_bitnr = 0, gb_snr = 0\<rparr>"

definition ex_requests :: "64 word \<Rightarrow> drbd_request_t" where
  "ex_requests p = (if p = 0x1000 then \<lparr>rq_sector = 8, rq_status = 0xf200\<rparr>
                    else if p = 0x2000 then \<lparr>rq_sector = 16, rq_status = 0x0100\<rparr>
                    else \<lparr>rq_sector = 804, rq_status = 0x0101\<rparr>)"

definition ex_conf :: Drbd_Conf where
  "ex_conf = \<lparr>transfer_log = [TL_BARRIER, 0x1000, 0x2000, TL_BARRIER, 0x3000,
                              TL_EMPTY, TL_EMPTY, TL_EMPTY],
              tl_begin = 0, tl_end = 5, barrier_nr_issue = 7, barrier_nr_done = 5,
              conf_wire_protocol = DRBD_PROT_C, conf_timeout = 60, cstate = 7,
              blk_size_b = 12, mbds_id = ex_bitmap, issue_barrier = False,
              have_sock = True, have_msock = True, host = LITTLE_ENDIAN,
              requests = ex_requests, sendmsg_results = [], klog = []\<rparr>"

text \<open>
  The device with a socket that takes twelve bytes at once (a whole \<open>Barrier\<close> packet),
  sixteen bytes at once (a whole \<open>BarrierAck\<close> packet), twenty-eight bytes at once (a
  \<open>Data\<close> packet with four bytes of data), and with one that takes ten bytes and then
  fails.
\<close>

definition ex_answer :: "int \<Rightarrow> sendmsg_result" where
  "ex_answer n = \<lparr>sm_rv = n, sm_sig = False, sm_timeout = False\<rparr>"

definition ex_sender :: "int list \<Rightarrow> Drbd_Conf" where
  "ex_sender ns = ex_conf\<lparr>sendmsg_results := map ex_answer ns\<rparr>"

section \<open>Properties of the request state machine\<close>

subsection \<open>Auxiliary facts\<close>

lemma PTR_ERR_ERR_PTR: "PTR_ERR (ERR_PTR e) = e"
  unfolding PTR_ERR_def ERR_PTR_def
  apply (rule bit_word_eqI)
  apply (simp add: bit_simps)
  done

lemma emit_fields [simp]:
  "current_tle_nr (emit e d) = current_tle_nr d"
  "current_tle_writes (emit e d) = current_tle_writes d"
  "susp (emit e d) = susp d"
  "wire_protocol (emit e d) = wire_protocol d"
  "max_epoch_size (emit e d) = max_epoch_size d"
  "ldev_if_failed (emit e d) = ldev_if_failed d"
  "ratelimit (emit e d) = ratelimit d"
  "trace (emit e d) = trace d @ [e]"
  by (simp_all add: emit_def)

lemma D_ASSERT_fields [simp]:
  "current_tle_nr (D_ASSERT c w d) = current_tle_nr d"
  "current_tle_writes (D_ASSERT c w d) = current_tle_writes d"
  "susp (D_ASSERT c w d) = susp d"
  "wire_protocol (D_ASSERT c w d) = wire_protocol d"
  "max_epoch_size (D_ASSERT c w d) = max_epoch_size d"
  "ldev_if_failed (D_ASSERT c w d) = ldev_if_failed d"
  "ratelimit (D_ASSERT c w d) = ratelimit d"
  by (simp_all add: D_ASSERT_def)

lemma start_new_tl_epoch_fields [simp]:
  "current_tle_nr (start_new_tl_epoch d) = current_tle_nr d + 1"
  "current_tle_writes (start_new_tl_epoch d) = 0"
  "susp (start_new_tl_epoch d) = susp d"
  "wire_protocol (start_new_tl_epoch d) = wire_protocol d"
  "max_epoch_size (start_new_tl_epoch d) = max_epoch_size d"
  by (simp_all add: start_new_tl_epoch_def)

lemma maybe_wakeup_fields [simp]:
  "current_tle_nr (maybe_wakeup_conflicting_requests d r) = current_tle_nr d"
  "current_tle_writes (maybe_wakeup_conflicting_requests d r) = current_tle_writes d"
  "susp (maybe_wakeup_conflicting_requests d r) = susp d"
  by (simp_all add: maybe_wakeup_conflicting_requests_def Let_def)

lemma set_flags_fields [simp]:
  "rq_state (set_flags fs r) = rq_state r \<union> fs"
  "master_bio (set_flags fs r) = master_bio r"
  "private_bio (set_flags fs r) = private_bio r"
  "epoch (set_flags fs r) = epoch r"
  "on_tl (set_flags fs r) = on_tl r"
  "i_in_tree (set_flags fs r) = i_in_tree r"
  by (simp_all add: set_flags_def)

lemma clear_flags_fields [simp]:
  "rq_state (clear_flags fs r) = rq_state r - fs"
  "master_bio (clear_flags fs r) = master_bio r"
  "private_bio (clear_flags fs r) = private_bio r"
  "epoch (clear_flags fs r) = epoch r"
  "on_tl (clear_flags fs r) = on_tl r"
  "i_in_tree (clear_flags fs r) = i_in_tree r"
  by (simp_all add: clear_flags_def)

lemma req_is_done_result:
  assumes "req_is_done d req rw = (d', req', f)"
  shows "req' = req\<lparr>on_tl := False\<rparr>"
    and "f = (if RQ_POSTPONED \<in> rq_state req then Restarted else Freed)"
    and "current_tle_nr d' = current_tle_nr d"
    and "current_tle_writes d' = current_tle_writes d"
    and "susp d' = susp d"
proof -
  have "fst (snd (req_is_done d req rw)) = req\<lparr>on_tl := False\<rparr>"
    by (simp add: req_is_done_def Let_def)
  with assms show "req' = req\<lparr>on_tl := False\<rparr>" by simp
  have "snd (snd (req_is_done d req rw)) =
          (if RQ_POSTPONED \<in> rq_state req then Restarted else Freed)"
    by (simp add: req_is_done_def Let_def)
  with assms show "f = (if RQ_POSTPONED \<in> rq_state req then Restarted else Freed)" by simp
  have "current_tle_nr (fst (req_is_done d req rw)) = current_tle_nr d"
    by (simp add: req_is_done_def Let_def)
  with assms show "current_tle_nr d' = current_tle_nr d" by simp
  have "current_tle_writes (fst (req_is_done d req rw)) = current_tle_writes d"
    by (simp add: req_is_done_def Let_def)
  with assms show "current_tle_writes d' = current_tle_writes d" by simp
  have "susp (fst (req_is_done d req rw)) = susp d"
    by (simp add: req_is_done_def Let_def)
  with assms show "susp d' = susp d" by simp
qed

lemma req_may_be_done_unfold:
  "req_may_be_done d req =
     (if removable req then req_is_done d req (if RQ_WRITE \<in> rq_state req then WRITE else READ)
      else (d, req, Alive))"
  by (auto simp add: req_may_be_done_def removable_def Let_def)

lemma req_may_be_done_result:
  assumes "req_may_be_done d req = (d', req', f)"
  shows "req' = (if removable req then req\<lparr>on_tl := False\<rparr> else req) \<and>
         f = (if removable req then (if RQ_POSTPONED \<in> rq_state req then Restarted else Freed)
              else Alive) \<and>
         current_tle_nr d' = current_tle_nr d \<and>
         current_tle_writes d' = current_tle_writes d \<and> susp d' = susp d"
proof (cases "removable req")
  case True
  with assms have "req_is_done d req (if RQ_WRITE \<in> rq_state req then WRITE else READ) =
                     (d', req', f)"
    by (simp add: req_may_be_done_unfold)
  from req_is_done_result [OF this] True show ?thesis by simp
next
  case False
  with assms show ?thesis by (simp add: req_may_be_done_unfold)
qed

lemma completion_block_result:
  assumes "completion_block d req b = (d3, req2)"
  shows "rq_state req2 = (if RQ_LOCAL_OK \<notin> rq_state req \<and> RQ_NET_OK \<notin> rq_state req \<and>
                             bio_rw b = READ \<and> on_tl req
                          then insert RQ_POSTPONED (rq_state req) else rq_state req)"
    and "master_bio req2 = master_bio req"
    and "on_tl req2 = on_tl req"
    and "current_tle_nr d3 = (if bio_rw b = WRITE \<and> epoch req = current_tle_nr d
                              then current_tle_nr d + 1 else current_tle_nr d)"
    and "current_tle_writes d3 = (if bio_rw b = WRITE \<and> epoch req = current_tle_nr d
                                  then 0 else current_tle_writes d)"
    and "susp d3 = susp d"
proof -
  obtain d1 req1 where s1:
    "(if i_in_tree req then
        drbd_remove_request_interval (if bio_rw b = WRITE then WRITE else READ) d req
      else if RQ_POSTPONED \<notin> rq_state req then
        (D_ASSERT (rq_state req \<inter> (RQ_NET_MASK - {RQ_NET_DONE}) = {})
           ''(s & (RQ_NET_MASK & ~RQ_NET_DONE)) == 0'' d, req)
      else (d, req)) = (d1, req1)"
    by fastforce
  then have r1: "rq_state req1 = rq_state req" "master_bio req1 = master_bio req"
      "on_tl req1 = on_tl req" "epoch req1 = epoch req"
      "current_tle_nr d1 = current_tle_nr d" "current_tle_writes d1 = current_tle_writes d"
      "susp d1 = susp d"
    by (auto simp add: drbd_remove_request_interval_def Let_def split: if_splits)
  from assms s1 have d3: "d3 = emit END_IO_ACCT
        (if bio_rw b = WRITE \<and> epoch req1 = current_tle_nr d1 then start_new_tl_epoch d1 else d1)"
    and req2: "req2 = (if \<not> (RQ_LOCAL_OK \<in> rq_state req \<or> RQ_NET_OK \<in> rq_state req) \<and>
                          bio_rw b = READ \<and> on_tl req1
                       then set_flags {RQ_POSTPONED} req1 else req1)"
    by (simp_all add: completion_block_def Let_def)
  from req2 r1 show "rq_state req2 = (if RQ_LOCAL_OK \<notin> rq_state req \<and> RQ_NET_OK \<notin> rq_state req \<and>
                             bio_rw b = READ \<and> on_tl req
                          then insert RQ_POSTPONED (rq_state req) else rq_state req)"
    by simp
  from req2 r1 show "master_bio req2 = master_bio req" by simp
  from req2 r1 show "on_tl req2 = on_tl req" by simp
  from d3 r1 show "current_tle_nr d3 = (if bio_rw b = WRITE \<and> epoch req = current_tle_nr d
                              then current_tle_nr d + 1 else current_tle_nr d)" by simp
  from d3 r1 show "current_tle_writes d3 = (if bio_rw b = WRITE \<and> epoch req = current_tle_nr d
                                  then 0 else current_tle_writes d)" by simp
  from d3 r1 show "susp d3 = susp d" by simp
qed

lemma req_may_be_completed_result:
  assumes "req_may_be_completed d req m = Some (d', req', m', f)"
  shows "m' = (if completes req
               then map_option (\<lambda>mm. mm\<lparr>m_error := completion_error req,
                                          m_bio := master_bio req\<rparr>) m
               else m) \<and>
         master_bio req' = (if completes req then None else master_bio req) \<and>
         rq_state req' = (if may_complete req \<and> retried_read req
                          then insert RQ_POSTPONED (rq_state req) else rq_state req) \<and>
         f = (if may_complete req then fate_of req' else Alive) \<and>
         current_tle_nr d' = (if soft_close d req then current_tle_nr d + 1 else current_tle_nr d) \<and>
         current_tle_writes d' = (if soft_close d req then 0 else current_tle_writes d) \<and>
         susp d' = susp d"
proof (cases "may_complete req")
  case False
  then have "req_may_be_completed d req m = Some (d, req, m, Alive)"
    by (auto simp add: req_may_be_completed_def may_complete_def Let_def)
  with assms False show ?thesis
    by (simp add: completes_def soft_close_def)
next
  case True
  then have mc: "(RQ_LOCAL_PENDING \<in> rq_state req \<and> RQ_LOCAL_ABORTED \<notin> rq_state req) = False"
     "RQ_NET_QUEUED \<notin> rq_state req" "RQ_NET_PENDING \<notin> rq_state req"
    by (simp_all add: may_complete_def)
  show ?thesis
  proof (cases "master_bio req")
    case None
    obtain d1 r1 f1 where rd: "req_may_be_done d req = (d1, r1, f1)"
      by (cases "req_may_be_done d req")
    with mc None have "req_may_be_completed d req m = Some (d1, r1, m, f1)"
      by (simp only: req_may_be_completed_def Let_def mc if_False option.case prod.case not_False_eq_True)
    with assms have eq: "d' = d1" "req' = r1" "m' = m" "f = f1"
      by simp_all
    from req_may_be_done_result [OF rd] eq None True show ?thesis
      by (simp add: completes_def retried_read_def soft_close_def fate_of_def removable_def)
  next
    case (Some b)
    obtain d3 req2 where cb: "completion_block d req b = (d3, req2)"
      by (cases "completion_block d req b")
    note cbr = completion_block_result [OF cb]
    have rr: "retried_read req \<longleftrightarrow> RQ_LOCAL_OK \<notin> rq_state req \<and> RQ_NET_OK \<notin> rq_state req \<and>
                bio_rw b = READ \<and> on_tl req"
      using Some by (simp add: retried_read_def)
    have sc: "soft_close d req \<longleftrightarrow> bio_rw b = WRITE \<and> epoch req = current_tle_nr d"
      using Some True by (simp add: soft_close_def)
    show ?thesis
    proof (cases "RQ_POSTPONED \<in> rq_state req2")
      case pp: True
      define d5 where "d5 = D_ASSERT (RQ_NET_DONE \<in> rq_state req) ''(s & RQ_NET_DONE)''
           (D_ASSERT (RQ_LOCAL_PENDING \<notin> rq_state req) ''!(s & RQ_LOCAL_PENDING)'' d3)"
      obtain d1 r1 f1 where rd: "req_may_be_done d5 req2 = (d1, r1, f1)"
        by (cases "req_may_be_done d5 req2")
      with Some cb pp have "req_may_be_completed d req m = Some (d1, r1, m, f1)"
        by (simp add: req_may_be_completed_def Let_def d5_def mc)
      with assms have eq: "d' = d1" "req' = r1" "m' = m" "f = f1"
        by simp_all
      from pp cbr rr have nc: "\<not> completes req"
        by (auto simp add: completes_def split: if_splits)
      from req_may_be_done_result [OF rd] eq cbr rr sc nc True Some show ?thesis
        by (simp add: d5_def fate_of_def removable_def)
    next
      case np: False
      with cbr rr True Some have c: "completes req"
        by (auto simp add: completes_def split: if_splits)
      from np cbr rr have nrr: "\<not> retried_read req" and st: "rq_state req2 = rq_state req"
        by (auto split: if_splits)
      show ?thesis
      proof (cases m)
        case None
        with Some cb np have "req_may_be_completed d req m = None"
          by (simp add: req_may_be_completed_def Let_def mc)
        with assms show ?thesis by simp
      next
        case (Some mm)
        obtain d1 r1 f1 where rd: "req_may_be_done d3 (req2\<lparr>master_bio := None\<rparr>) = (d1, r1, f1)"
          by (cases "req_may_be_done d3 (req2\<lparr>master_bio := None\<rparr>)")
        with \<open>master_bio req = Some b\<close> cb np Some
        have "req_may_be_completed d req m =
                Some (d1, r1, Some (mm\<lparr>m_error := completion_error req,
                                         m_bio := master_bio req2\<rparr>), f1)"
          by (simp add: req_may_be_completed_def Let_def completion_error_def mc)
        with assms have eq: "d' = d1" "req' = r1" "f = f1"
            "m' = Some (mm\<lparr>m_error := completion_error req, m_bio := master_bio req2\<rparr>)"
          by simp_all
        from req_may_be_done_result [OF rd] eq cbr sc c nrr st True Some show ?thesis
          by (simp add: fate_of_def removable_def)
      qed
    qed
  qed
qed

subsection \<open>What the completion reports\<close>

text \<open>
  What \<open>req_may_be_completed\<close> reports in general. When it hands the master bio to the
  caller (\<open>m->bio\<close> was null before the call and is set after it), the bio handed over is
  the request's master bio, the request keeps no master bio, and the error is 0 (success)
  exactly when \<open>RQ_LOCAL_OK\<close> or \<open>RQ_NET_OK\<close> is set in the request's state. When
  neither is set, the error is \<open>PTR_ERR(req->private_bio)\<close>, the low 32 bits of
  \<open>private_bio\<close> whatever it holds, if that is not zero, and \<open>-EIO\<close> otherwise. So an
  error \<open>e\<close> stored as \<open>ERR_PTR(e)\<close> is reported as \<open>e\<close> and a null \<open>private_bio\<close>
  as \<open>-EIO\<close>; a \<open>private_bio\<close> that still points to a bio is reported as an error too.
\<close>

lemma req_may_be_completed_reports:
  assumes "req_may_be_completed d req (Some mm) = Some (d', req', Some mo, f)"
      and "m_bio mm = None" and "m_bio mo \<noteq> None"
  shows "m_bio mo = master_bio req \<and> master_bio req' = None \<and>
         (m_error mo = 0 \<longleftrightarrow> RQ_LOCAL_OK \<in> rq_state req \<or> RQ_NET_OK \<in> rq_state req) \<and>
         (RQ_LOCAL_OK \<notin> rq_state req \<and> RQ_NET_OK \<notin> rq_state req \<longrightarrow>
            m_error mo = (if PTR_ERR (private_bio req) \<noteq> 0 then PTR_ERR (private_bio req)
                          else - EIO)) \<and>
         (\<forall>e. RQ_LOCAL_OK \<notin> rq_state req \<and> RQ_NET_OK \<notin> rq_state req \<and>
               private_bio req = ERR_PTR e \<and> e \<noteq> 0 \<longrightarrow> m_error mo = e) \<and>
         (RQ_LOCAL_OK \<notin> rq_state req \<and> RQ_NET_OK \<notin> rq_state req \<and> private_bio req = 0 \<longrightarrow>
            m_error mo = - EIO)"
proof -
  note r = req_may_be_completed_result [OF assms(1)]
  have c: "completes req"
  proof (rule ccontr)
    assume "\<not> completes req"
    with r have "mo = mm" by simp
    with assms(2,3) show False by simp
  qed
  with r have mo: "mo = mm\<lparr>m_error := completion_error req, m_bio := master_bio req\<rparr>"
    and mb: "master_bio req' = None"
    by simp_all
  have nz: "- EIO \<noteq> (0 :: 32 word)" by (simp add: EIO_def)
  have p0: "PTR_ERR 0 = 0" by (simp add: PTR_ERR_def)
  from mo mb nz p0 show ?thesis
    by (auto simp add: completion_error_def PTR_ERR_ERR_PTR)
qed

lemma req_may_be_completed_reports_example:
  "req_may_be_completed ex_dev ex_failed (Some ex_m) =
     Some (ex_dev\<lparr>current_tle_nr := 8, current_tle_writes := 0,
             trace := [REMOVE_INTERVAL WRITE, WAKE_ALL_SENDERS, END_IO_ACCT, LIST_DEL_TL,
                       SET_ALL_OUT_OF_SYNC 0 4096, PUT_LDEV, REQ_FREE]\<rparr>,
           ex_failed\<lparr>master_bio := None, i_in_tree := False, on_tl := False\<rparr>,
           Some \<lparr>m_bio = Some ex_write_bio, m_error = - 28\<rparr>, Freed) \<and>
   m_bio ex_m = None \<and>
   RQ_LOCAL_OK \<notin> rq_state ex_failed \<and> RQ_NET_OK \<notin> rq_state ex_failed \<and>
   private_bio ex_failed = ERR_PTR (- 28) \<and>
   m_error \<lparr>m_bio = Some ex_write_bio, m_error = - 28\<rparr> \<noteq> 0 \<and>
   m_error \<lparr>m_bio = Some ex_write_bio, m_error = - 28\<rparr> = PTR_ERR (private_bio ex_failed)"
proof -
  have ev: "req_may_be_completed ex_dev ex_failed (Some ex_m) =
     Some (ex_dev\<lparr>current_tle_nr := 8, current_tle_writes := 0,
             trace := [REMOVE_INTERVAL WRITE, WAKE_ALL_SENDERS, END_IO_ACCT, LIST_DEL_TL,
                       SET_ALL_OUT_OF_SYNC 0 4096, PUT_LDEV, REQ_FREE]\<rparr>,
           ex_failed\<lparr>master_bio := None, i_in_tree := False, on_tl := False\<rparr>,
           Some \<lparr>m_bio = Some ex_write_bio, m_error = - 28\<rparr>, Freed)"
    by code_simp
  have h2: "m_bio ex_m = None"
    by (simp add: ex_m_def)
  have h3: "m_bio \<lparr>m_bio = Some ex_write_bio, m_error = - 28\<rparr> \<noteq> None"
    by simp
  have st: "RQ_LOCAL_OK \<notin> rq_state ex_failed \<and> RQ_NET_OK \<notin> rq_state ex_failed"
    by (simp add: ex_failed_def ex_req_def)
  have pb: "private_bio ex_failed = ERR_PTR (- 28)"
    by (simp add: ex_failed_def ex_req_def)
  have pe: "PTR_ERR (private_bio ex_failed) \<noteq> 0"
    by (simp add: pb PTR_ERR_ERR_PTR)
  from req_may_be_completed_reports [OF ev h2 h3] st pe
  have "m_error \<lparr>m_bio = Some ex_write_bio, m_error = - 28\<rparr> \<noteq> 0 \<and>
        m_error \<lparr>m_bio = Some ex_write_bio, m_error = - 28\<rparr> = PTR_ERR (private_bio ex_failed)"
    by simp
  with ev h2 st pb show ?thesis
    by simp
qed

text \<open>
  C1 holds for the success of the completion, and the code departs from it in the error it
  reports. The code's own comment has the local completion error ``stored as
  \<open>ERR_PTR\<close> in \<open>private_bio\<close> within \<open>drbd_request_endio\<close>'', but
  \<open>req_may_be_completed\<close> takes \<open>PTR_ERR(req->private_bio)\<close> without asking whether an
  error was stored. The write \<open>ex_abort\<close> is pending on the local disk, with
  \<open>private_bio\<close> pointing to the bio submitted, and was never sent. The event
  \<open>ABORT_DISK_IO\<close> sets \<open>RQ_LOCAL_ABORTED\<close>, which lets the request be completed while it
  is still \<open>RQ_LOCAL_PENDING\<close>. Neither \<open>RQ_LOCAL_OK\<close> nor \<open>RQ_NET_OK\<close> is set, no error
  is stored (\<open>private_bio\<close> is no \<open>ERR_PTR\<close>), and the master bio is completed with the
  error \<open>0x12345678\<close>, the low half of the pointer, where C1 has \<open>-EIO\<close>.
\<close>

theorem req_may_be_completed_stray_error:
  "(case req_mod ex_dev ex_abort ABORT_DISK_IO (Some ex_m) of
      None \<Rightarrow> False
    | Some (rv, d', r', m', f) \<Rightarrow>
        m' = Some \<lparr>m_bio = Some ex_write_bio, m_error = 0x12345678\<rparr>
        \<and> master_bio r' = None \<and> private_bio r' = private_bio ex_abort)
   \<and> (case req_may_be_completed ex_dev (set_flags {RQ_LOCAL_ABORTED} ex_abort) (Some ex_m) of
      None \<Rightarrow> False
    | Some (d', r', m', f) \<Rightarrow>
        m' = Some \<lparr>m_bio = Some ex_write_bio, m_error = 0x12345678\<rparr>)
   \<and> RQ_LOCAL_OK \<notin> rq_state ex_abort \<and> RQ_NET_OK \<notin> rq_state ex_abort
   \<and> ERR_PTR (PTR_ERR (private_bio ex_abort)) \<noteq> private_bio ex_abort
   \<and> (0x12345678 :: 32 word) \<noteq> - EIO"
  by code_simp

subsection \<open>Every event, in summary\<close>

lemma fate_of_cong:
  "rq_state r' = rq_state r \<Longrightarrow> master_bio r' = master_bio r \<Longrightarrow> fate_of r' = fate_of r"
  by (simp add: fate_of_def removable_def)

lemma req_may_be_completed_summary:
  assumes "req_may_be_completed d r m = Some (d', r', m', f)"
  shows "(f = Alive \<or> f = fate_of r') \<and>
         (RQ_NET_QUEUED \<notin> rq_state r' \<and> RQ_NET_PENDING \<notin> rq_state r' \<and>
          RQ_LOCAL_PENDING \<notin> rq_state r' \<longrightarrow> f = fate_of r') \<and>
         ((current_tle_nr d' = current_tle_nr d \<and> current_tle_writes d' = current_tle_writes d) \<or>
          (current_tle_nr d' = current_tle_nr d + 1 \<and> current_tle_writes d' = 0)) \<and>
         susp d' = susp d"
proof -
  note r = req_may_be_completed_result [OF assms]
  from r have sub: "rq_state r \<subseteq> rq_state r'"
    by (auto split: if_splits)
  have "RQ_NET_QUEUED \<notin> rq_state r' \<and> RQ_NET_PENDING \<notin> rq_state r' \<and>
        RQ_LOCAL_PENDING \<notin> rq_state r' \<longrightarrow> may_complete r"
    using sub by (auto simp add: may_complete_def)
  with r show ?thesis
    by (auto split: if_splits)
qed

lemma req_may_be_completed_not_susp_summary:
  assumes "req_may_be_completed_not_susp d r m = Some (d', r', m', f)"
  shows "(f = Alive \<or> f = fate_of r') \<and>
         (\<not> susp d \<and> RQ_NET_QUEUED \<notin> rq_state r' \<and> RQ_NET_PENDING \<notin> rq_state r' \<and>
          RQ_LOCAL_PENDING \<notin> rq_state r' \<longrightarrow> f = fate_of r') \<and>
         ((current_tle_nr d' = current_tle_nr d \<and> current_tle_writes d' = current_tle_writes d) \<or>
          (current_tle_nr d' = current_tle_nr d + 1 \<and> current_tle_writes d' = 0)) \<and>
         susp d' = susp d"
proof (cases "susp d")
  case True
  with assms show ?thesis
    by (simp add: req_may_be_completed_not_susp_def)
next
  case False
  with assms have "req_may_be_completed d r m = Some (d', r', m', f)"
    by (simp add: req_may_be_completed_not_susp_def)
  from req_may_be_completed_summary [OF this] False show ?thesis
    by simp
qed

lemma ack_common_summary:
  assumes "ack_common d r m = Some (d', r', m', f)"
  shows "(f = Alive \<or> f = fate_of r') \<and>
         (\<not> susp d \<and> RQ_NET_QUEUED \<notin> rq_state r' \<and> RQ_NET_PENDING \<notin> rq_state r' \<and>
          RQ_LOCAL_PENDING \<notin> rq_state r' \<longrightarrow> f = fate_of r') \<and>
         ((current_tle_nr d' = current_tle_nr d \<and> current_tle_writes d' = current_tle_writes d) \<or>
          (current_tle_nr d' = current_tle_nr d + 1 \<and> current_tle_writes d' = 0)) \<and>
         susp d' = susp d"
  using req_may_be_completed_not_susp_summary [OF assms [unfolded ack_common_def Let_def]]
  by simp

lemma barrier_acked_summary:
  assumes "barrier_acked d r = (d', r', f)"
  shows "(f = Alive \<or> f = fate_of r') \<and> (RQ_WRITE \<in> rq_state r \<longrightarrow> f = fate_of r') \<and>
         current_tle_nr d' = current_tle_nr d \<and> current_tle_writes d' = current_tle_writes d \<and>
         susp d' = susp d"
proof (cases "RQ_WRITE \<in> rq_state r")
  case False
  with assms show ?thesis by (simp add: barrier_acked_def)
next
  case True
  obtain d2 r1 where p: "(if rq_state r \<inter> RQ_NET_MASK \<noteq> {} then
                  (let ra = set_flags {RQ_NET_DONE} r
                   in (if RQ_EXP_RECEIVE_ACK \<notin> rq_state ra \<and> RQ_EXP_WRITE_ACK \<notin> rq_state ra
                       then emit (SUB_AP_IN_FLIGHT (drop_bit 9 (i_size ra)))
                         (if RQ_NET_PENDING \<in> rq_state r
                   then emit FIXME_BARRIER_ACKED_BUT_PENDING d else d) else (if RQ_NET_PENDING \<in> rq_state r
                   then emit FIXME_BARRIER_ACKED_BUT_PENDING d else d), ra))
                else ((if RQ_NET_PENDING \<in> rq_state r
                   then emit FIXME_BARRIER_ACKED_BUT_PENDING d else d), r)) = (d2, r1)"
    by fastforce
  then have e: "current_tle_nr d2 = current_tle_nr d" "current_tle_writes d2 = current_tle_writes d"
     "susp d2 = susp d"
    by (auto simp add: Let_def split: if_splits)
  from assms True p have "req_may_be_done d2 r1 = (d', r', f)"
    by (simp add: barrier_acked_def Let_def)
  from req_may_be_done_result [OF this] e True show ?thesis
    by (auto simp add: fate_of_def removable_def split: if_splits)
qed

lemma proj_if:
  "current_tle_nr (if c then a else b) = (if c then current_tle_nr a else current_tle_nr b)"
  "current_tle_writes (if c then a else b) = (if c then current_tle_writes a else current_tle_writes b)"
  "susp (if c then a else b) = (if c then susp a else susp b)"
  by simp_all

lemma with_rv_Some:
  "with_rv rv x = Some (rv', d', r', m', f) \<longleftrightarrow> rv' = rv \<and> x = Some (d', r', m', f)"
  by (cases x) (auto simp add: with_rv_def)

lemma req_mod_summary:
  assumes "req_mod d req what m = Some (rv, d', req', m', f)"
  shows "(f = Alive \<or> f = fate_of req') \<and>
         (consults_done d req what \<and> RQ_NET_QUEUED \<notin> rq_state req' \<and>
          RQ_NET_PENDING \<notin> rq_state req' \<and> RQ_LOCAL_PENDING \<notin> rq_state req' \<longrightarrow>
            f = fate_of req') \<and>
         ((current_tle_nr d' = current_tle_nr d \<and> current_tle_writes d' = current_tle_writes d) \<or>
          (current_tle_nr d' = current_tle_nr d + 1 \<and> current_tle_writes d' = 0))"
proof (cases what)
  case CREATED
  with assms show ?thesis
    by (auto simp add: req_mod_def Let_def)
next
  case TO_BE_SENT
  with assms show ?thesis
    by (auto simp add: req_mod_def Let_def)
next
  case TO_BE_SUBMITTED
  with assms show ?thesis
    by (auto simp add: req_mod_def Let_def)
next
  case READ_COMPLETED_WITH_ERROR
  with assms show ?thesis
    by (auto simp add: req_mod_def Let_def)
next
  case QUEUE_FOR_NET_READ
  with assms show ?thesis
    by (auto simp add: req_mod_def Let_def)
next
  case QUEUE_FOR_SEND_OOS
  with assms show ?thesis
    by (auto simp add: req_mod_def Let_def)
next
  case QUEUE_FOR_NET_WRITE
  with assms show ?thesis
    by (auto simp add: req_mod_def Let_def)
next
  case COMPLETED_OK
  with assms obtain D R M where "req_may_be_completed_not_susp D R M = Some (d', req', m', f)"
    and "current_tle_nr D = current_tle_nr d" and "current_tle_writes D = current_tle_writes d"
    and "susp D = susp d"
    by (auto simp add: req_mod_def Let_def with_rv_Some proj_if)
  with req_may_be_completed_not_susp_summary [of D R M d' req' m' f] COMPLETED_OK show ?thesis
    by auto
next
  case ABORT_DISK_IO
  with assms obtain D R M where "req_may_be_completed_not_susp D R M = Some (d', req', m', f)"
    and "current_tle_nr D = current_tle_nr d" and "current_tle_writes D = current_tle_writes d"
    and "susp D = susp d"
    by (auto simp add: req_mod_def Let_def with_rv_Some proj_if)
  with req_may_be_completed_not_susp_summary [of D R M d' req' m' f] ABORT_DISK_IO show ?thesis
    by auto
next
  case WRITE_COMPLETED_WITH_ERROR
  with assms obtain D R M where "req_may_be_completed_not_susp D R M = Some (d', req', m', f)"
    and "current_tle_nr D = current_tle_nr d" and "current_tle_writes D = current_tle_writes d"
    and "susp D = susp d"
    by (auto simp add: req_mod_def Let_def with_rv_Some proj_if)
  with req_may_be_completed_not_susp_summary [of D R M d' req' m' f] WRITE_COMPLETED_WITH_ERROR show ?thesis
    by auto
next
  case READ_AHEAD_COMPLETED_WITH_ERROR
  with assms obtain D R M where "req_may_be_completed_not_susp D R M = Some (d', req', m', f)"
    and "current_tle_nr D = current_tle_nr d" and "current_tle_writes D = current_tle_writes d"
    and "susp D = susp d"
    by (auto simp add: req_mod_def Let_def with_rv_Some proj_if)
  with req_may_be_completed_not_susp_summary [of D R M d' req' m' f] READ_AHEAD_COMPLETED_WITH_ERROR show ?thesis
    by auto
next
  case READ_RETRY_REMOTE_CANCELED
  with assms obtain D R M where "req_may_be_completed_not_susp D R M = Some (d', req', m', f)"
    and "current_tle_nr D = current_tle_nr d" and "current_tle_writes D = current_tle_writes d"
    and "susp D = susp d"
    by (auto simp add: req_mod_def Let_def with_rv_Some proj_if)
  with req_may_be_completed_not_susp_summary [of D R M d' req' m' f] READ_RETRY_REMOTE_CANCELED show ?thesis
    by auto
next
  case SEND_CANCELED
  with assms obtain D R M where "req_may_be_completed_not_susp D R M = Some (d', req', m', f)"
    and "current_tle_nr D = current_tle_nr d" and "current_tle_writes D = current_tle_writes d"
    and "susp D = susp d"
    by (auto simp add: req_mod_def Let_def with_rv_Some proj_if)
  with req_may_be_completed_not_susp_summary [of D R M d' req' m' f] SEND_CANCELED show ?thesis
    by auto
next
  case SEND_FAILED
  with assms obtain D R M where "req_may_be_completed_not_susp D R M = Some (d', req', m', f)"
    and "current_tle_nr D = current_tle_nr d" and "current_tle_writes D = current_tle_writes d"
    and "susp D = susp d"
    by (auto simp add: req_mod_def Let_def with_rv_Some proj_if)
  with req_may_be_completed_not_susp_summary [of D R M d' req' m' f] SEND_FAILED show ?thesis
    by auto
next
  case OOS_HANDED_TO_NETWORK
  with assms obtain D R M where "req_may_be_completed_not_susp D R M = Some (d', req', m', f)"
    and "current_tle_nr D = current_tle_nr d" and "current_tle_writes D = current_tle_writes d"
    and "susp D = susp d"
    by (auto simp add: req_mod_def Let_def with_rv_Some proj_if)
  with req_may_be_completed_not_susp_summary [of D R M d' req' m' f] OOS_HANDED_TO_NETWORK show ?thesis
    by auto
next
  case POSTPONE_WRITE
  with assms obtain D R M where "req_may_be_completed_not_susp D R M = Some (d', req', m', f)"
    and "current_tle_nr D = current_tle_nr d" and "current_tle_writes D = current_tle_writes d"
    and "susp D = susp d"
    by (auto simp add: req_mod_def Let_def with_rv_Some proj_if)
  with req_may_be_completed_not_susp_summary [of D R M d' req' m' f] POSTPONE_WRITE show ?thesis
    by auto
next
  case NEG_ACKED
  with assms obtain D R M where "req_may_be_completed_not_susp D R M = Some (d', req', m', f)"
    and "current_tle_nr D = current_tle_nr d" and "current_tle_writes D = current_tle_writes d"
    and "susp D = susp d"
    by (auto simp add: req_mod_def Let_def with_rv_Some proj_if)
  with req_may_be_completed_not_susp_summary [of D R M d' req' m' f] NEG_ACKED show ?thesis
    by auto
next
  case DATA_RECEIVED
  with assms obtain D R M where "req_may_be_completed_not_susp D R M = Some (d', req', m', f)"
    and "current_tle_nr D = current_tle_nr d" and "current_tle_writes D = current_tle_writes d"
    and "susp D = susp d"
    by (auto simp add: req_mod_def Let_def with_rv_Some proj_if)
  with req_may_be_completed_not_susp_summary [of D R M d' req' m' f] DATA_RECEIVED show ?thesis
    by auto
next
  case DISCARD_WRITE
  with assms obtain D R M where "ack_common D R M = Some (d', req', m', f)"
    and "current_tle_nr D = current_tle_nr d" and "current_tle_writes D = current_tle_writes d"
    and "susp D = susp d"
    by (auto simp add: req_mod_def Let_def with_rv_Some proj_if)
  with ack_common_summary [of D R M d' req' m' f] DISCARD_WRITE show ?thesis
    by auto
next
  case WRITE_ACKED_BY_PEER_AND_SIS
  with assms obtain D R M where "ack_common D R M = Some (d', req', m', f)"
    and "current_tle_nr D = current_tle_nr d" and "current_tle_writes D = current_tle_writes d"
    and "susp D = susp d"
    by (auto simp add: req_mod_def Let_def with_rv_Some proj_if)
  with ack_common_summary [of D R M d' req' m' f] WRITE_ACKED_BY_PEER_AND_SIS show ?thesis
    by auto
next
  case WRITE_ACKED_BY_PEER
  with assms obtain D R M where "ack_common D R M = Some (d', req', m', f)"
    and "current_tle_nr D = current_tle_nr d" and "current_tle_writes D = current_tle_writes d"
    and "susp D = susp d"
    by (auto simp add: req_mod_def Let_def with_rv_Some proj_if)
  with ack_common_summary [of D R M d' req' m' f] WRITE_ACKED_BY_PEER show ?thesis
    by auto
next
  case RECV_ACKED_BY_PEER
  with assms obtain D R M where "ack_common D R M = Some (d', req', m', f)"
    and "current_tle_nr D = current_tle_nr d" and "current_tle_writes D = current_tle_writes d"
    and "susp D = susp d"
    by (auto simp add: req_mod_def Let_def with_rv_Some proj_if)
  with ack_common_summary [of D R M d' req' m' f] RECV_ACKED_BY_PEER show ?thesis
    by auto
next
  case HANDED_OVER_TO_NETWORK
  with assms obtain D R M where "req_may_be_completed_not_susp D R M = Some (d', req', m', f)"
    and "current_tle_nr D = current_tle_nr d" and "current_tle_writes D = current_tle_writes d"
    and "susp D = susp d"
    by (auto simp add: req_mod_def Let_def with_rv_Some proj_if split: option.splits prod.splits if_splits)
  with req_may_be_completed_not_susp_summary [of D R M d' req' m' f] HANDED_OVER_TO_NETWORK show ?thesis
    by auto
next
  case CONNECTION_LOST_WHILE_PENDING
  with assms obtain D R M where "req_may_be_completed D R M = Some (d', req', m', f)"
    and "current_tle_nr D = current_tle_nr d" and "current_tle_writes D = current_tle_writes d"
    by (auto simp add: req_mod_def Let_def with_rv_Some proj_if)
  with req_may_be_completed_summary [of D R M d' req' m' f] CONNECTION_LOST_WHILE_PENDING show ?thesis
    by auto
next
  case FAIL_FROZEN_DISK_IO
  show ?thesis
  proof (cases "RQ_LOCAL_COMPLETED \<in> rq_state req")
    case True
    with assms FAIL_FROZEN_DISK_IO obtain M where "req_may_be_completed d req M = Some (d', req', m', f)"
      by (auto simp add: req_mod_def with_rv_Some)
    with req_may_be_completed_summary [of d req M d' req' m' f] FAIL_FROZEN_DISK_IO show ?thesis
      by auto
  next
    case False
    with assms FAIL_FROZEN_DISK_IO show ?thesis
      by (auto simp add: req_mod_def)
  qed
next
  case RESTART_FROZEN_DISK_IO
  with assms show ?thesis
    by (auto simp add: req_mod_def Let_def split: option.splits if_splits)
next
  case RESEND
  show ?thesis
  proof (cases "RQ_NET_OK \<in> rq_state req")
    case True
    with assms RESEND have "barrier_acked d req = (d', req', f)"
      by (auto simp add: req_mod_def split: prod.splits)
    with barrier_acked_summary [of d req d' req' f] RESEND show ?thesis
      by auto
  next
    case False
    with assms RESEND show ?thesis
      by (auto simp add: req_mod_def split: if_splits)
  qed
next
  case BARRIER_ACKED
  with assms have "barrier_acked d req = (d', req', f)"
    by (auto simp add: req_mod_def split: prod.splits)
  with barrier_acked_summary [of d req d' req' f] BARRIER_ACKED show ?thesis
    by auto
qed

subsection \<open>Handing a request over to the network\<close>

lemma not_susp_pending:
  assumes "req_may_be_completed_not_susp D R M = Some (d', r', m', f)"
      and "RQ_NET_PENDING \<in> rq_state R"
  shows "m' = M \<and> r' = R \<and> f = Alive"
  using assms
  by (auto simp add: req_may_be_completed_not_susp_def req_may_be_completed_def Let_def
      split: if_splits)

lemma completed_pending:
  assumes "req_may_be_completed D R M = Some (d', r', m', f)"
      and "RQ_NET_PENDING \<in> rq_state R"
  shows "m' = M \<and> r' = R \<and> f = Alive"
  using assms
  by (auto simp add: req_may_be_completed_def Let_def split: if_splits)

lemma barrier_acked_req:
  assumes "barrier_acked d r = (d', r', f)"
  shows "master_bio r' = master_bio r \<and> rq_state r \<subseteq> rq_state r'"
proof (cases "RQ_WRITE \<in> rq_state r")
  case False
  with assms show ?thesis by (simp add: barrier_acked_def)
next
  case True
  show ?thesis
  proof (cases "rq_state r \<inter> RQ_NET_MASK \<noteq> {}")
    case True
    with assms \<open>RQ_WRITE \<in> rq_state r\<close> obtain D where
      "req_may_be_done D (set_flags {RQ_NET_DONE} r) = (d', r', f)"
      by (auto simp add: barrier_acked_def Let_def)
    from req_may_be_done_result [OF this] show ?thesis
      by (auto split: if_splits)
  next
    case False
    with assms \<open>RQ_WRITE \<in> rq_state r\<close> obtain D where
      "req_may_be_done D r = (d', r', f)"
      by (auto simp add: barrier_acked_def Let_def)
    from req_may_be_done_result [OF this] show ?thesis
      by (auto split: if_splits)
  qed
qed

lemma handed_over_step:
  assumes "req_mod d req HANDED_OVER_TO_NETWORK m = Some (rv, d', req', m', f)"
  shows "\<exists>D. req_may_be_completed_not_susp D (handed_over req)
               (map_option (\<lambda>mm. mm\<lparr>m_bio := None\<rparr>) m) = Some (d', req', m', f) \<and>
             susp D = susp d \<and> master_bio req \<noteq> None"
  using assms
  by (auto simp add: req_mod_def Let_def with_rv_Some proj_if handed_over_def
      split: option.splits prod.splits if_splits)

lemma req_may_be_completed_not_susp_result:
  assumes "req_may_be_completed_not_susp d r m = Some (d', r', m', f)"
  shows "m' = (if \<not> susp d \<and> completes r
               then map_option (\<lambda>mm. mm\<lparr>m_error := completion_error r,
                                          m_bio := master_bio r\<rparr>) m
               else m) \<and>
         master_bio r' = (if \<not> susp d \<and> completes r then None else master_bio r) \<and>
         rq_state r' = (if \<not> susp d \<and> may_complete r \<and> retried_read r
                        then insert RQ_POSTPONED (rq_state r) else rq_state r)"
proof (cases "susp d")
  case True
  with assms show ?thesis
    by (simp add: req_may_be_completed_not_susp_def)
next
  case False
  with assms have "req_may_be_completed d r m = Some (d', r', m', f)"
    by (simp add: req_may_be_completed_not_susp_def)
  from req_may_be_completed_result [OF this] False show ?thesis
    by simp
qed

lemma no_completion_while_pending:
  assumes "req_mod d req what m = Some (rv, d', req', m', f)"
      and "\<not> peer_answer what"
      and "RQ_EXP_RECEIVE_ACK \<in> rq_state req \<or> RQ_EXP_WRITE_ACK \<in> rq_state req"
      and "RQ_NET_PENDING \<in> rq_state req"
  shows "m' = map_option (\<lambda>mm. mm\<lparr>m_bio := None\<rparr>) m \<and> master_bio req' = master_bio req \<and>
         RQ_NET_PENDING \<in> rq_state req'"
proof (cases what)
  case CREATED
  with assms show ?thesis
    by (auto simp add: req_mod_def Let_def)
next
  case TO_BE_SENT
  with assms show ?thesis
    by (auto simp add: req_mod_def Let_def)
next
  case TO_BE_SUBMITTED
  with assms show ?thesis
    by (auto simp add: req_mod_def Let_def)
next
  case READ_COMPLETED_WITH_ERROR
  with assms show ?thesis
    by (auto simp add: req_mod_def Let_def)
next
  case QUEUE_FOR_NET_READ
  with assms show ?thesis
    by (auto simp add: req_mod_def Let_def)
next
  case QUEUE_FOR_NET_WRITE
  with assms show ?thesis
    by (auto simp add: req_mod_def Let_def)
next
  case QUEUE_FOR_SEND_OOS
  with assms show ?thesis
    by (auto simp add: req_mod_def Let_def)
next
  case CONNECTION_LOST_WHILE_PENDING
  with assms(2) show ?thesis
    by (simp add: peer_answer_def)
next
  case DISCARD_WRITE
  with assms(2) show ?thesis
    by (simp add: peer_answer_def)
next
  case WRITE_ACKED_BY_PEER_AND_SIS
  with assms(2) show ?thesis
    by (simp add: peer_answer_def)
next
  case WRITE_ACKED_BY_PEER
  with assms(2) show ?thesis
    by (simp add: peer_answer_def)
next
  case RECV_ACKED_BY_PEER
  with assms(2) show ?thesis
    by (simp add: peer_answer_def)
next
  case NEG_ACKED
  with assms(2) show ?thesis
    by (simp add: peer_answer_def)
next
  case DATA_RECEIVED
  with assms(2) show ?thesis
    by (simp add: peer_answer_def)
next
  case COMPLETED_OK
  with assms obtain D R where
    "req_may_be_completed_not_susp D R (map_option (\<lambda>mm. mm\<lparr>m_bio := None\<rparr>) m) =
       Some (d', req', m', f)"
    and "RQ_NET_PENDING \<in> rq_state R" and "master_bio R = master_bio req"
    by (auto simp add: req_mod_def Let_def with_rv_Some)
  with not_susp_pending [of D R _ d' req' m' f] show ?thesis
    by auto
next
  case ABORT_DISK_IO
  with assms obtain D R where
    "req_may_be_completed_not_susp D R (map_option (\<lambda>mm. mm\<lparr>m_bio := None\<rparr>) m) =
       Some (d', req', m', f)"
    and "RQ_NET_PENDING \<in> rq_state R" and "master_bio R = master_bio req"
    by (auto simp add: req_mod_def Let_def with_rv_Some)
  with not_susp_pending [of D R _ d' req' m' f] show ?thesis
    by auto
next
  case WRITE_COMPLETED_WITH_ERROR
  with assms obtain D R where
    "req_may_be_completed_not_susp D R (map_option (\<lambda>mm. mm\<lparr>m_bio := None\<rparr>) m) =
       Some (d', req', m', f)"
    and "RQ_NET_PENDING \<in> rq_state R" and "master_bio R = master_bio req"
    by (auto simp add: req_mod_def Let_def with_rv_Some)
  with not_susp_pending [of D R _ d' req' m' f] show ?thesis
    by auto
next
  case READ_AHEAD_COMPLETED_WITH_ERROR
  with assms obtain D R where
    "req_may_be_completed_not_susp D R (map_option (\<lambda>mm. mm\<lparr>m_bio := None\<rparr>) m) =
       Some (d', req', m', f)"
    and "RQ_NET_PENDING \<in> rq_state R" and "master_bio R = master_bio req"
    by (auto simp add: req_mod_def Let_def with_rv_Some)
  with not_susp_pending [of D R _ d' req' m' f] show ?thesis
    by auto
next
  case READ_RETRY_REMOTE_CANCELED
  with assms obtain D R where
    "req_may_be_completed_not_susp D R (map_option (\<lambda>mm. mm\<lparr>m_bio := None\<rparr>) m) =
       Some (d', req', m', f)"
    and "RQ_NET_PENDING \<in> rq_state R" and "master_bio R = master_bio req"
    by (auto simp add: req_mod_def Let_def with_rv_Some)
  with not_susp_pending [of D R _ d' req' m' f] show ?thesis
    by auto
next
  case SEND_CANCELED
  with assms obtain D R where
    "req_may_be_completed_not_susp D R (map_option (\<lambda>mm. mm\<lparr>m_bio := None\<rparr>) m) =
       Some (d', req', m', f)"
    and "RQ_NET_PENDING \<in> rq_state R" and "master_bio R = master_bio req"
    by (auto simp add: req_mod_def Let_def with_rv_Some)
  with not_susp_pending [of D R _ d' req' m' f] show ?thesis
    by auto
next
  case SEND_FAILED
  with assms obtain D R where
    "req_may_be_completed_not_susp D R (map_option (\<lambda>mm. mm\<lparr>m_bio := None\<rparr>) m) =
       Some (d', req', m', f)"
    and "RQ_NET_PENDING \<in> rq_state R" and "master_bio R = master_bio req"
    by (auto simp add: req_mod_def Let_def with_rv_Some)
  with not_susp_pending [of D R _ d' req' m' f] show ?thesis
    by auto
next
  case OOS_HANDED_TO_NETWORK
  with assms obtain D R where
    "req_may_be_completed_not_susp D R (map_option (\<lambda>mm. mm\<lparr>m_bio := None\<rparr>) m) =
       Some (d', req', m', f)"
    and "RQ_NET_PENDING \<in> rq_state R" and "master_bio R = master_bio req"
    by (auto simp add: req_mod_def Let_def with_rv_Some)
  with not_susp_pending [of D R _ d' req' m' f] show ?thesis
    by auto
next
  case POSTPONE_WRITE
  with assms obtain D R where
    "req_may_be_completed_not_susp D R (map_option (\<lambda>mm. mm\<lparr>m_bio := None\<rparr>) m) =
       Some (d', req', m', f)"
    and "RQ_NET_PENDING \<in> rq_state R" and "master_bio R = master_bio req"
    by (auto simp add: req_mod_def Let_def with_rv_Some)
  with not_susp_pending [of D R _ d' req' m' f] show ?thesis
    by auto
next
  case HANDED_OVER_TO_NETWORK
  from handed_over_step [OF assms(1) [unfolded HANDED_OVER_TO_NETWORK]] obtain D where
    "req_may_be_completed_not_susp D (handed_over req)
       (map_option (\<lambda>mm. mm\<lparr>m_bio := None\<rparr>) m) = Some (d', req', m', f)"
    by blast
  moreover from assms(3,4) have "RQ_NET_PENDING \<in> rq_state (handed_over req)"
    and "master_bio (handed_over req) = master_bio req"
    by (auto simp add: handed_over_def Let_def)
  ultimately show ?thesis
    using not_susp_pending [of D "handed_over req" _ d' req' m' f] by auto
next
  case FAIL_FROZEN_DISK_IO
  show ?thesis
  proof (cases "RQ_LOCAL_COMPLETED \<in> rq_state req")
    case True
    with assms FAIL_FROZEN_DISK_IO have
      "req_may_be_completed d req (map_option (\<lambda>mm. mm\<lparr>m_bio := None\<rparr>) m) =
         Some (d', req', m', f)"
      by (auto simp add: req_mod_def with_rv_Some)
    with completed_pending [of d req _ d' req' m' f] assms(4) show ?thesis
      by auto
  next
    case False
    with assms FAIL_FROZEN_DISK_IO show ?thesis
      by (auto simp add: req_mod_def)
  qed
next
  case RESTART_FROZEN_DISK_IO
  with assms show ?thesis
    by (auto simp add: req_mod_def Let_def split: option.splits if_splits)
next
  case RESEND
  show ?thesis
  proof (cases "RQ_NET_OK \<in> rq_state req")
    case True
    with assms RESEND have "barrier_acked d req = (d', req', f)"
      and "m' = map_option (\<lambda>mm. mm\<lparr>m_bio := None\<rparr>) m"
      by (auto simp add: req_mod_def split: prod.splits)
    with barrier_acked_req [of d req d' req' f] assms(4) show ?thesis
      by auto
  next
    case False
    with assms RESEND show ?thesis
      by (auto simp add: req_mod_def split: if_splits)
  qed
next
  case BARRIER_ACKED
  with assms have "barrier_acked d req = (d', req', f)"
    and "m' = map_option (\<lambda>mm. mm\<lparr>m_bio := None\<rparr>) m"
    by (auto simp add: req_mod_def split: prod.splits)
  with barrier_acked_req [of d req d' req' f] assms(4) show ?thesis
    by auto
qed


lemma sint_succ: "sint (x :: 32 word) < 2 ^ 31 - 1 \<Longrightarrow> sint (x + 1) = sint x + 1"
proof -
  assume a: "sint x < 2 ^ 31 - 1"
  have "- (2 ^ 31) \<le> sint x" using sint_ge [of x] by simp
  with a show ?thesis
    by (simp add: sint_word_ariths signed_take_bit_int_eq_self)
qed

lemma conn_check_congested_epoch:
  "(current_tle_nr (snd (conn_check_congested nc apv fl al d)) = current_tle_nr d \<and>
    current_tle_writes (snd (conn_check_congested nc apv fl al d)) = current_tle_writes d) \<or>
   (current_tle_nr (snd (conn_check_congested nc apv fl al d)) = current_tle_nr d + 1 \<and>
    current_tle_writes (snd (conn_check_congested nc apv fl al d)) = 0)"
  by (simp add: conn_check_congested_def Let_def split: option.split)

lemma fate_Freed_iff: "fate_of r = Freed \<longleftrightarrow> destructible r \<and> RQ_POSTPONED \<notin> rq_state r"
  by (auto simp add: fate_of_def removable_def destructible_def)

subsection \<open>When a request is destroyed\<close>

text \<open>
  C2, as the code has it. \<open>req_may_be_done\<close> frees a request exactly when the predicate of
  the specification holds (\<open>master_bio\<close> is null, \<open>RQ_LOCAL_PENDING\<close> is clear, and no
  flag of \<open>RQ_NET_MASK\<close> is set or \<open>RQ_NET_DONE\<close> is set) and \<open>RQ_POSTPONED\<close> is clear.
  A postponed request is not freed: whether or not its master bio is still there, it is
  taken off the transfer log and handed to \<open>drbd_restart_write\<close> as soon as the two other
  conditions hold. The request leaves the transfer log exactly when it is freed or
  restarted. For the events of \<open>__req_mod\<close>: no event frees a request unless the predicate
  holds in the state it leaves, with \<open>RQ_POSTPONED\<close> clear; and every event that goes on
  to \<open>req_may_be_completed\<close> or \<open>req_may_be_done\<close> (\<open>consults_done\<close>: for most events
  only while I/O is not suspended) frees the request when the predicate holds in the state
  it leaves, \<open>RQ_POSTPONED\<close> is clear and the request is neither on the sender's queue
  nor pending on the network.
\<close>

theorem request_destruction:
  "(req_may_be_done d req = (d1, req1, f1) \<longrightarrow>
      (f1 = Freed \<longleftrightarrow> destructible req \<and> RQ_POSTPONED \<notin> rq_state req) \<and>
      (f1 = Restarted \<longleftrightarrow>
         RQ_POSTPONED \<in> rq_state req \<and> RQ_LOCAL_PENDING \<notin> rq_state req \<and>
         (rq_state req \<inter> RQ_NET_MASK = {} \<or> RQ_NET_DONE \<in> rq_state req)) \<and>
      (on_tl req1 \<longleftrightarrow> on_tl req \<and> f1 = Alive) \<and>
      rq_state req1 = rq_state req \<and> master_bio req1 = master_bio req) \<and>
   (req_mod d req what m = Some (rv, d', req', m', f) \<longrightarrow>
      (f = Freed \<longrightarrow> destructible req' \<and> RQ_POSTPONED \<notin> rq_state req') \<and>
      (consults_done d req what \<and> RQ_NET_QUEUED \<notin> rq_state req' \<and>
       RQ_NET_PENDING \<notin> rq_state req' \<and> destructible req' \<and> RQ_POSTPONED \<notin> rq_state req' \<longrightarrow>
         f = Freed))"
proof (intro conjI impI)
  assume a: "req_may_be_done d req = (d1, req1, f1)"
  note r = req_may_be_done_result [OF a]
  from r show "f1 = Freed \<longleftrightarrow> destructible req \<and> RQ_POSTPONED \<notin> rq_state req"
    by (auto simp add: removable_def destructible_def split: if_splits)
  from r show "f1 = Restarted \<longleftrightarrow>
         RQ_POSTPONED \<in> rq_state req \<and> RQ_LOCAL_PENDING \<notin> rq_state req \<and>
         (rq_state req \<inter> RQ_NET_MASK = {} \<or> RQ_NET_DONE \<in> rq_state req)"
    by (auto simp add: removable_def split: if_splits)
  from r show "on_tl req1 \<longleftrightarrow> on_tl req \<and> f1 = Alive"
    by (auto split: if_splits)
  from r show "rq_state req1 = rq_state req"
    by (auto split: if_splits)
  from r show "master_bio req1 = master_bio req"
    by (auto split: if_splits)
next
  assume a: "req_mod d req what m = Some (rv, d', req', m', f)"
  note s = req_mod_summary [OF a]
  {
    assume "f = Freed"
    with s have "fate_of req' = Freed" by auto
    then show "destructible req'" and "RQ_POSTPONED \<notin> rq_state req'"
      by (simp_all add: fate_Freed_iff)
  }
  assume c: "consults_done d req what \<and> RQ_NET_QUEUED \<notin> rq_state req' \<and>
       RQ_NET_PENDING \<notin> rq_state req' \<and> destructible req' \<and> RQ_POSTPONED \<notin> rq_state req'"
  then have "RQ_LOCAL_PENDING \<notin> rq_state req'"
    by (simp add: destructible_def)
  with s c have "f = fate_of req'" by simp
  with c show "f = Freed" by (simp add: fate_Freed_iff)
qed

text \<open>
  The theorem at a write of an earlier epoch that is written on both sides and completed:
  once \<open>RQ_NET_DONE\<close> is set \<open>req_may_be_done\<close> frees it, and the event
  \<open>BARRIER_ACKED\<close> sets the flag and frees it.
\<close>

theorem request_destruction_witness:
  "(\<exists>d1 r1. req_may_be_done ex_dev (set_flags {RQ_NET_DONE} ex_acked) = (d1, r1, Freed) \<and>
             \<not> on_tl r1) \<and>
   destructible (set_flags {RQ_NET_DONE} ex_acked) \<and>
   consults_done ex_dev ex_acked BARRIER_ACKED \<and>
   (\<exists>rv d' r' m'. req_mod ex_dev ex_acked BARRIER_ACKED (Some ex_m) = Some (rv, d', r', m', Freed) \<and>
                   destructible r' \<and> RQ_POSTPONED \<notin> rq_state r')"
proof -
  obtain d1 r1 f1 where a: "req_may_be_done ex_dev (set_flags {RQ_NET_DONE} ex_acked) = (d1, r1, f1)"
    by (cases "req_may_be_done ex_dev (set_flags {RQ_NET_DONE} ex_acked)")
  have dx: "destructible (set_flags {RQ_NET_DONE} ex_acked) \<and>
            RQ_POSTPONED \<notin> rq_state (set_flags {RQ_NET_DONE} ex_acked)"
    by code_simp
  from request_destruction [of ex_dev "set_flags {RQ_NET_DONE} ex_acked" d1 r1 f1] a dx
  have p1: "f1 = Freed \<and> \<not> on_tl r1"
    by simp
  have cd: "consults_done ex_dev ex_acked BARRIER_ACKED"
    by code_simp
  have "req_mod ex_dev ex_acked BARRIER_ACKED (Some ex_m) \<noteq> None"
    by code_simp
  then obtain rv d' r' m' f where
    b: "req_mod ex_dev ex_acked BARRIER_ACKED (Some ex_m) = Some (rv, d', r', m', f)"
    by (cases "req_mod ex_dev ex_acked BARRIER_ACKED (Some ex_m)") auto
  have "case req_mod ex_dev ex_acked BARRIER_ACKED (Some ex_m) of
          None \<Rightarrow> False
        | Some (rv, d', r', m', f) \<Rightarrow>
            RQ_NET_QUEUED \<notin> rq_state r' \<and> RQ_NET_PENDING \<notin> rq_state r' \<and> destructible r' \<and>
            RQ_POSTPONED \<notin> rq_state r'"
    by code_simp
  with b have e: "RQ_NET_QUEUED \<notin> rq_state r' \<and> RQ_NET_PENDING \<notin> rq_state r' \<and> destructible r' \<and>
            RQ_POSTPONED \<notin> rq_state r'"
    by simp
  from request_destruction [of ex_dev ex_acked _ _ _ BARRIER_ACKED "Some ex_m" rv d' r' m' f]
    b cd e
  have "f = Freed"
    by simp
  with a p1 dx cd b e show ?thesis
    by blast
qed

text \<open>
  C2 as stated fails in both directions. A postponed write whose master bio has not been
  completed is taken off the transfer log by \<open>req_may_be_done\<close> and handed to
  \<open>drbd_restart_write\<close>, although the predicate does not hold. And while I/O is
  suspended, \<open>COMPLETED_OK\<close> for an aborted local write, whose master bio has been
  completed, establishes the predicate, and the request is not freed.
\<close>

theorem request_destruction_counterexample:
  "(case req_may_be_done ex_dev ex_postponed of
      (d', r', f) \<Rightarrow> f = Restarted \<and> \<not> on_tl r' \<and> on_tl ex_postponed \<and>
         trace d' = [LIST_DEL_TL, SET_ALL_OUT_OF_SYNC 0 4096, PUT_LDEV, RESTART_WRITE]) \<and>
   master_bio ex_postponed \<noteq> None \<and> \<not> destructible ex_postponed \<and>
   (case req_mod ex_dev_susp ex_aborted COMPLETED_OK (Some ex_m) of
      None \<Rightarrow> False
    | Some (rv, d', r', m', f) \<Rightarrow> destructible r' \<and> RQ_POSTPONED \<notin> rq_state r' \<and> f = Alive \<and>
        REQ_FREE \<notin> set (trace d'))"
  by code_simp

subsection \<open>Handing a request over to the network: the theorem\<close>

text \<open>
  C4, as the code has it. \<open>HANDED_OVER_TO_NETWORK\<close> clears \<open>RQ_NET_QUEUED\<close> and sets
  \<open>RQ_NET_SENT\<close> for every request. For a write that expects no acknowledgement
  (protocol A: neither \<open>RQ_EXP_RECEIVE_ACK\<close> nor \<open>RQ_EXP_WRITE_ACK\<close>) and is still
  \<open>RQ_NET_PENDING\<close>, it clears \<open>RQ_NET_PENDING\<close> and sets \<open>RQ_NET_OK\<close>; when
  \<open>RQ_NET_PENDING\<close> is clear already (a negative acknowledgement was faster) it stays
  clear and \<open>RQ_NET_OK\<close> is left as it is. Under protocol A the event completes the
  master bio of a write that is still \<open>RQ_NET_PENDING\<close> with success at once when the
  local part is not pending, the request is not postponed and I/O is not suspended: no
  acknowledgement and no barrier ack is needed. A
  request that expects a write acknowledgement (protocol C) and is still
  \<open>RQ_NET_PENDING\<close> is completed by no event but the peer's answers and the loss of the
  connection; it stays pending and keeps its master bio.
\<close>

theorem handed_over_to_network:
  "(req_mod d req HANDED_OVER_TO_NETWORK m = Some (rv, d', req', m', f) \<longrightarrow>
      RQ_NET_QUEUED \<notin> rq_state req' \<and> RQ_NET_SENT \<in> rq_state req' \<and>
      (\<forall>b. master_bio req = Some b \<and> bio_data_dir b = WRITE \<and>
           RQ_EXP_RECEIVE_ACK \<notin> rq_state req \<and> RQ_EXP_WRITE_ACK \<notin> rq_state req \<and>
           RQ_NET_PENDING \<in> rq_state req \<longrightarrow>
           RQ_NET_PENDING \<notin> rq_state req' \<and> RQ_NET_OK \<in> rq_state req') \<and>
      (RQ_NET_PENDING \<notin> rq_state req \<longrightarrow>
           RQ_NET_PENDING \<notin> rq_state req' \<and>
           (RQ_NET_OK \<in> rq_state req' \<longleftrightarrow> RQ_NET_OK \<in> rq_state req)) \<and>
      (\<forall>b mm. master_bio req = Some b \<and> bio_rw b = WRITE \<and>
           RQ_EXP_RECEIVE_ACK \<notin> rq_state req \<and> RQ_EXP_WRITE_ACK \<notin> rq_state req \<and>
           RQ_NET_PENDING \<in> rq_state req \<and> RQ_POSTPONED \<notin> rq_state req \<and>
           (RQ_LOCAL_PENDING \<in> rq_state req \<longrightarrow> RQ_LOCAL_ABORTED \<in> rq_state req) \<and>
           \<not> susp d \<and> m = Some mm \<longrightarrow>
           m' = Some (mm\<lparr>m_error := 0, m_bio := Some b\<rparr>) \<and> master_bio req' = None)) \<and>
   (req_mod d2 req2 what m2 = Some (rv2, d2', req2', m2', f2) \<and> \<not> peer_answer what \<and>
    RQ_EXP_WRITE_ACK \<in> rq_state req2 \<and> RQ_NET_PENDING \<in> rq_state req2 \<longrightarrow>
      m2' = map_option (\<lambda>mm. mm\<lparr>m_bio := None\<rparr>) m2 \<and> master_bio req2' = master_bio req2 \<and>
      RQ_NET_PENDING \<in> rq_state req2')"
proof (intro conjI impI)
  assume h: "req_mod d req HANDED_OVER_TO_NETWORK m = Some (rv, d', req', m', f)"
  from handed_over_step [OF h] obtain D where
    st: "req_may_be_completed_not_susp D (handed_over req)
          (map_option (\<lambda>mm. mm\<lparr>m_bio := None\<rparr>) m) = Some (d', req', m', f)"
    and sd: "susp D = susp d" and mb: "master_bio req \<noteq> None"
    by blast
  note r = req_may_be_completed_not_susp_result [OF st]
  from r show "RQ_NET_QUEUED \<notin> rq_state req'"
    by (auto simp add: handed_over_def Let_def split: if_splits)
  from r show "RQ_NET_SENT \<in> rq_state req'"
    by (auto simp add: handed_over_def Let_def split: if_splits)
  from r show "\<forall>b. master_bio req = Some b \<and> bio_data_dir b = WRITE \<and>
           RQ_EXP_RECEIVE_ACK \<notin> rq_state req \<and> RQ_EXP_WRITE_ACK \<notin> rq_state req \<and>
           RQ_NET_PENDING \<in> rq_state req \<longrightarrow>
           RQ_NET_PENDING \<notin> rq_state req' \<and> RQ_NET_OK \<in> rq_state req'"
    by (auto simp add: handed_over_def Let_def split: if_splits)
  from r show "RQ_NET_PENDING \<notin> rq_state req \<Longrightarrow> RQ_NET_PENDING \<notin> rq_state req'"
    by (auto simp add: handed_over_def Let_def split: if_splits)
  from r show "RQ_NET_PENDING \<notin> rq_state req \<Longrightarrow>
               (RQ_NET_OK \<in> rq_state req') = (RQ_NET_OK \<in> rq_state req)"
    by (auto simp add: handed_over_def Let_def split: if_splits)
  show "\<forall>b mm. master_bio req = Some b \<and> bio_rw b = WRITE \<and>
           RQ_EXP_RECEIVE_ACK \<notin> rq_state req \<and> RQ_EXP_WRITE_ACK \<notin> rq_state req \<and>
           RQ_NET_PENDING \<in> rq_state req \<and> RQ_POSTPONED \<notin> rq_state req \<and>
           (RQ_LOCAL_PENDING \<in> rq_state req \<longrightarrow> RQ_LOCAL_ABORTED \<in> rq_state req) \<and>
           \<not> susp d \<and> m = Some mm \<longrightarrow>
           m' = Some (mm\<lparr>m_error := 0, m_bio := Some b\<rparr>) \<and> master_bio req' = None"
  proof (intro allI impI)
    fix b mm
    assume a: "master_bio req = Some b \<and> bio_rw b = WRITE \<and>
           RQ_EXP_RECEIVE_ACK \<notin> rq_state req \<and> RQ_EXP_WRITE_ACK \<notin> rq_state req \<and>
           RQ_NET_PENDING \<in> rq_state req \<and> RQ_POSTPONED \<notin> rq_state req \<and>
           (RQ_LOCAL_PENDING \<in> rq_state req \<longrightarrow> RQ_LOCAL_ABORTED \<in> rq_state req) \<and>
           \<not> susp d \<and> m = Some mm"
    then have s: "rq_state (handed_over req) =
                    insert RQ_NET_SENT (insert RQ_NET_OK (rq_state req - {RQ_NET_PENDING}) - {RQ_NET_QUEUED})"
      and mbh: "master_bio (handed_over req) = Some b"
      by (auto simp add: handed_over_def Let_def bio_data_dir_def bio_rw_def)
    from s mbh a have c: "completes (handed_over req)"
      by (auto simp add: completes_def may_complete_def retried_read_def)
    from s have "completion_error (handed_over req) = 0"
      by (simp add: completion_error_def)
    with r c sd a mbh show "m' = Some (mm\<lparr>m_error := 0, m_bio := Some b\<rparr>) \<and> master_bio req' = None"
      by simp
  qed
next
  assume "req_mod d2 req2 what m2 = Some (rv2, d2', req2', m2', f2) \<and> \<not> peer_answer what \<and>
    RQ_EXP_WRITE_ACK \<in> rq_state req2 \<and> RQ_NET_PENDING \<in> rq_state req2"
  then have "m2' = map_option (\<lambda>mm. mm\<lparr>m_bio := None\<rparr>) m2 \<and> master_bio req2' = master_bio req2 \<and>
      RQ_NET_PENDING \<in> rq_state req2'"
    using no_completion_while_pending [of d2 req2 what m2 rv2 d2' req2' m2' f2] by blast
  then show "m2' = map_option (\<lambda>mm. mm\<lparr>m_bio := None\<rparr>) m2" and "master_bio req2' = master_bio req2"
    and "RQ_NET_PENDING \<in> rq_state req2'"
    by simp_all
qed

text \<open>
  The theorem at a write that is done locally and on the sender's queue: under protocol A
  the event completes the master bio with error 0 while \<open>RQ_NET_DONE\<close> is not set; under
  protocol C the master bio stays and the request stays pending.
\<close>

theorem handed_over_to_network_witness:
  "(\<exists>rv d' r' f. req_mod ex_devA ex_queuedA HANDED_OVER_TO_NETWORK (Some ex_m) =
        Some (rv, d', r', Some (ex_m\<lparr>m_error := 0, m_bio := Some ex_write_bio\<rparr>), f) \<and>
      master_bio r' = None \<and> RQ_NET_OK \<in> rq_state r' \<and> RQ_NET_PENDING \<notin> rq_state r' \<and>
      RQ_NET_QUEUED \<notin> rq_state r' \<and> RQ_NET_SENT \<in> rq_state r' \<and> RQ_NET_DONE \<notin> rq_state r') \<and>
   \<not> peer_answer HANDED_OVER_TO_NETWORK \<and>
   (\<exists>rv d' r' f. req_mod ex_dev ex_queuedC HANDED_OVER_TO_NETWORK (Some ex_m) =
        Some (rv, d', r', Some ex_m, f) \<and>
      master_bio r' = Some ex_write_bio \<and> RQ_NET_PENDING \<in> rq_state r')"
proof -
  have "req_mod ex_devA ex_queuedA HANDED_OVER_TO_NETWORK (Some ex_m) \<noteq> None"
    by code_simp
  then obtain rv d' r' m' f where
    a: "req_mod ex_devA ex_queuedA HANDED_OVER_TO_NETWORK (Some ex_m) = Some (rv, d', r', m', f)"
    by (cases "req_mod ex_devA ex_queuedA HANDED_OVER_TO_NETWORK (Some ex_m)") auto
  have ha: "master_bio ex_queuedA = Some ex_write_bio \<and> bio_rw ex_write_bio = WRITE \<and>
            bio_data_dir ex_write_bio = WRITE \<and>
            RQ_EXP_RECEIVE_ACK \<notin> rq_state ex_queuedA \<and> RQ_EXP_WRITE_ACK \<notin> rq_state ex_queuedA \<and>
            RQ_NET_PENDING \<in> rq_state ex_queuedA \<and> RQ_POSTPONED \<notin> rq_state ex_queuedA \<and>
            RQ_LOCAL_PENDING \<notin> rq_state ex_queuedA \<and> \<not> susp ex_devA"
    by code_simp
  have "case req_mod ex_devA ex_queuedA HANDED_OVER_TO_NETWORK (Some ex_m) of
          None \<Rightarrow> False
        | Some (rv, d', r', m', f) \<Rightarrow> RQ_NET_DONE \<notin> rq_state r'"
    by code_simp
  with a have nd: "RQ_NET_DONE \<notin> rq_state r'"
    by simp
  from handed_over_to_network [of ex_devA ex_queuedA "Some ex_m" rv d' r' m' f] a ha
  have p1: "m' = Some (ex_m\<lparr>m_error := 0, m_bio := Some ex_write_bio\<rparr>) \<and> master_bio r' = None \<and>
            RQ_NET_OK \<in> rq_state r' \<and> RQ_NET_PENDING \<notin> rq_state r' \<and>
            RQ_NET_QUEUED \<notin> rq_state r' \<and> RQ_NET_SENT \<in> rq_state r'"
    by simp
  have np: "\<not> peer_answer HANDED_OVER_TO_NETWORK"
    by (simp add: peer_answer_def)
  have "req_mod ex_dev ex_queuedC HANDED_OVER_TO_NETWORK (Some ex_m) \<noteq> None"
    by code_simp
  then obtain rv2 d2' r2' m2' f2 where
    b: "req_mod ex_dev ex_queuedC HANDED_OVER_TO_NETWORK (Some ex_m) = Some (rv2, d2', r2', m2', f2)"
    by (cases "req_mod ex_dev ex_queuedC HANDED_OVER_TO_NETWORK (Some ex_m)") auto
  have hc: "RQ_EXP_WRITE_ACK \<in> rq_state ex_queuedC \<and> RQ_NET_PENDING \<in> rq_state ex_queuedC \<and>
            master_bio ex_queuedC = Some ex_write_bio \<and>
            map_option (\<lambda>mm. mm\<lparr>m_bio := None\<rparr>) (Some ex_m) = Some ex_m"
    by code_simp
  from handed_over_to_network
    [of _ _ _ _ _ _ _ _ ex_dev ex_queuedC HANDED_OVER_TO_NETWORK "Some ex_m" rv2 d2' r2' m2' f2]
    b np hc
  have p2: "m2' = Some ex_m \<and> master_bio r2' = Some ex_write_bio \<and> RQ_NET_PENDING \<in> rq_state r2'"
    by simp
  from a p1 nd np b p2 show ?thesis
    by blast
qed

text \<open>
  C4 as stated fails for a protocol A write that the peer refused before the sender was
  done with it: \<open>RQ_NET_PENDING\<close> is clear, and the event does not set \<open>RQ_NET_OK\<close>.
\<close>

theorem handed_over_to_network_counterexample:
  "master_bio ex_negacked = Some ex_write_bio \<and> bio_data_dir ex_write_bio = WRITE \<and>
   RQ_WRITE \<in> rq_state ex_negacked \<and> wire_protocol ex_devA = DRBD_PROT_A \<and>
   RQ_EXP_RECEIVE_ACK \<notin> rq_state ex_negacked \<and> RQ_EXP_WRITE_ACK \<notin> rq_state ex_negacked \<and>
   (case req_mod ex_devA ex_negacked HANDED_OVER_TO_NETWORK (Some ex_m) of
      None \<Rightarrow> False
    | Some (rv, d', r', m', f) \<Rightarrow> RQ_NET_OK \<notin> rq_state r' \<and> RQ_NET_SENT \<in> rq_state r')"
  by code_simp

subsection \<open>Closing an epoch\<close>

text \<open>
  C5, as the code has it. \<open>start_new_tl_epoch\<close> adds one to \<open>current_tle_nr\<close> (a 32-bit
  counter, so modulo \<open>2^32\<close>) and sets \<open>current_tle_writes\<close> to 0.
  \<open>req_may_be_completed\<close> closes the epoch exactly when it gets past its early returns
  for a request whose master bio is a write and whose epoch is the current one (the soft
  close); \<open>QUEUE_FOR_NET_WRITE\<close> closes it exactly when \<open>current_tle_writes\<close> has
  reached \<open>max_epoch_size\<close> (the hard close). Every event of \<open>__req_mod\<close>, and
  \<open>conn_check_congested\<close>, either leaves both counters alone or adds one to
  \<open>current_tle_nr\<close> and sets \<open>current_tle_writes\<close> to 0. So no event decreases
  \<open>current_tle_nr\<close>, read as the \<open>int\<close> it is, as long as it is below the largest
  \<open>int\<close>.
\<close>

theorem epoch_close:
  "current_tle_nr (start_new_tl_epoch d) = current_tle_nr d + 1 \<and>
   current_tle_writes (start_new_tl_epoch d) = 0 \<and>
   (req_may_be_completed d req m = Some (d1, req1, m1, f1) \<longrightarrow>
      current_tle_nr d1 = (if soft_close d req then current_tle_nr d + 1 else current_tle_nr d) \<and>
      current_tle_writes d1 = (if soft_close d req then 0 else current_tle_writes d)) \<and>
   (req_mod d req QUEUE_FOR_NET_WRITE m = Some (rv2, d2, req2, m2, f2) \<longrightarrow>
      current_tle_nr d2 = (if max_epoch_size d \<le> current_tle_writes d
                           then current_tle_nr d + 1 else current_tle_nr d) \<and>
      current_tle_writes d2 = (if max_epoch_size d \<le> current_tle_writes d
                               then 0 else current_tle_writes d)) \<and>
   (req_mod d req what m = Some (rv3, d3, req3, m3, f3) \<longrightarrow>
      ((current_tle_nr d3 = current_tle_nr d \<and> current_tle_writes d3 = current_tle_writes d) \<or>
       (current_tle_nr d3 = current_tle_nr d + 1 \<and> current_tle_writes d3 = 0)) \<and>
      (sint (current_tle_nr d) < 2 ^ 31 - 1 \<longrightarrow>
         sint (current_tle_nr d) \<le> sint (current_tle_nr d3))) \<and>
   ((current_tle_nr (snd (conn_check_congested nc apv fl al d)) = current_tle_nr d \<and>
     current_tle_writes (snd (conn_check_congested nc apv fl al d)) = current_tle_writes d) \<or>
    (current_tle_nr (snd (conn_check_congested nc apv fl al d)) = current_tle_nr d + 1 \<and>
     current_tle_writes (snd (conn_check_congested nc apv fl al d)) = 0))"
proof (intro conjI impI)
  show "current_tle_nr (start_new_tl_epoch d) = current_tle_nr d + 1"
    and "current_tle_writes (start_new_tl_epoch d) = 0"
    by simp_all
next
  assume "req_may_be_completed d req m = Some (d1, req1, m1, f1)"
  from req_may_be_completed_result [OF this]
  show "current_tle_nr d1 = (if soft_close d req then current_tle_nr d + 1 else current_tle_nr d)"
    and "current_tle_writes d1 = (if soft_close d req then 0 else current_tle_writes d)"
    by simp_all
next
  assume "req_mod d req QUEUE_FOR_NET_WRITE m = Some (rv2, d2, req2, m2, f2)"
  then show "current_tle_nr d2 = (if max_epoch_size d \<le> current_tle_writes d
                           then current_tle_nr d + 1 else current_tle_nr d)"
    and "current_tle_writes d2 = (if max_epoch_size d \<le> current_tle_writes d
                               then 0 else current_tle_writes d)"
    by (auto simp add: req_mod_def Let_def)
next
  assume a: "req_mod d req what m = Some (rv3, d3, req3, m3, f3)"
  from req_mod_summary [OF a]
  show e: "(current_tle_nr d3 = current_tle_nr d \<and> current_tle_writes d3 = current_tle_writes d) \<or>
       (current_tle_nr d3 = current_tle_nr d + 1 \<and> current_tle_writes d3 = 0)"
    by simp
  assume "sint (current_tle_nr d) < 2 ^ 31 - 1"
  from sint_succ [OF this] e show "sint (current_tle_nr d) \<le> sint (current_tle_nr d3)"
    by auto
next
  show "(current_tle_nr (snd (conn_check_congested nc apv fl al d)) = current_tle_nr d \<and>
     current_tle_writes (snd (conn_check_congested nc apv fl al d)) = current_tle_writes d) \<or>
    (current_tle_nr (snd (conn_check_congested nc apv fl al d)) = current_tle_nr d + 1 \<and>
     current_tle_writes (snd (conn_check_congested nc apv fl al d)) = 0)"
    by (rule conn_check_congested_epoch)
qed

text \<open>
  The theorem at a completing write of the current epoch 7 (soft close) and at
  \<open>QUEUE_FOR_NET_WRITE\<close> on a device whose epoch holds \<open>max_epoch_size\<close> writes (hard
  close): the epoch number becomes 8 and the write count 0.
\<close>

theorem epoch_close_witness:
  "soft_close ex_dev ex_failed \<and>
   (\<exists>d1 r1 m1 f1. req_may_be_completed ex_dev ex_failed (Some ex_m) = Some (d1, r1, m1, f1) \<and>
      current_tle_nr d1 = 8 \<and> current_tle_writes d1 = 0) \<and>
   max_epoch_size ex_dev_full \<le> current_tle_writes ex_dev_full \<and>
   sint (current_tle_nr ex_dev_full) < 2 ^ 31 - 1 \<and>
   (\<exists>rv d2 r2 m2 f2. req_mod ex_dev_full ex_fresh QUEUE_FOR_NET_WRITE (Some ex_m) =
        Some (rv, d2, r2, m2, f2) \<and>
      current_tle_nr d2 = 8 \<and> current_tle_writes d2 = 0 \<and>
      sint (current_tle_nr ex_dev_full) \<le> sint (current_tle_nr d2))"
proof -
  have sc: "soft_close ex_dev ex_failed"
    by (simp add: soft_close_def may_complete_def ex_failed_def ex_req_def ex_dev_def
        ex_write_bio_def bio_rw_def)
  have "req_may_be_completed ex_dev ex_failed (Some ex_m) \<noteq> None"
    by code_simp
  then obtain d1 r1 m1 f1 where
    a: "req_may_be_completed ex_dev ex_failed (Some ex_m) = Some (d1, r1, m1, f1)"
    by (cases "req_may_be_completed ex_dev ex_failed (Some ex_m)") auto
  have n7: "current_tle_nr ex_dev = 7"
    by (simp add: ex_dev_def)
  from epoch_close [of ex_dev ex_failed "Some ex_m" d1 r1 m1 f1] a sc n7
  have p1: "current_tle_nr d1 = 8 \<and> current_tle_writes d1 = 0"
    by simp
  have h: "max_epoch_size ex_dev_full \<le> current_tle_writes ex_dev_full \<and>
           sint (current_tle_nr ex_dev_full) < 2 ^ 31 - 1 \<and> current_tle_nr ex_dev_full = 7"
    by code_simp
  have "req_mod ex_dev_full ex_fresh QUEUE_FOR_NET_WRITE (Some ex_m) \<noteq> None"
    by code_simp
  then obtain rv d2 r2 m2 f2 where
    b: "req_mod ex_dev_full ex_fresh QUEUE_FOR_NET_WRITE (Some ex_m) = Some (rv, d2, r2, m2, f2)"
    by (cases "req_mod ex_dev_full ex_fresh QUEUE_FOR_NET_WRITE (Some ex_m)") auto
  from epoch_close [of ex_dev_full ex_fresh "Some ex_m" _ _ _ _ rv d2 r2 m2 f2
      QUEUE_FOR_NET_WRITE rv d2 r2 m2 f2] b h
  have p2: "current_tle_nr d2 = 8 \<and> current_tle_writes d2 = 0 \<and>
            sint (current_tle_nr ex_dev_full) \<le> sint (current_tle_nr d2)"
    by simp
  from sc a p1 h b p2 show ?thesis
    by blast
qed

text \<open>
  C5 as stated fails where the counter wraps: closing epoch \<open>2^31 - 1\<close> gives an epoch
  number that is smaller.
\<close>

theorem epoch_close_counterexample:
  "sint (current_tle_nr (start_new_tl_epoch ex_dev_last)) <
   sint (current_tle_nr ex_dev_last)"
  by code_simp

subsection \<open>The request timer: auxiliary facts\<close>

lemma uint_lower: "- (2 ^ 63) \<le> uint (w :: 64 word)"
proof -
  have "- (2 ^ 63) \<le> (0 :: int)" by simp
  also have "0 \<le> uint w" by simp
  finally show ?thesis .
qed

lemma time_is_before_eq_jiffies_le:
  "uint (j :: 64 word) < 2 ^ 63 \<Longrightarrow> uint a < 2 ^ 63 \<Longrightarrow> time_is_before_eq_jiffies j a = (a \<le> j)"
proof -
  assume uj: "uint j < 2 ^ 63" and ua: "uint a < 2 ^ 63"
  have "signed_take_bit 63 (uint j) = uint j"
    using uint_lower uj by (rule signed_take_bit_int_eq_self)
  then have sj: "sint j = uint j"
    by (simp add: sint_uint)
  have "signed_take_bit 63 (uint a) = uint a"
    using uint_lower ua by (rule signed_take_bit_int_eq_self)
  then have sa: "sint a = uint a"
    by (simp add: sint_uint)
  have "0 \<le> uint j" and "0 \<le> uint a"
    by simp_all
  with uj ua have "- (2 ^ 63) \<le> uint j - uint a" and "uint j - uint a < 2 ^ 63"
    by linarith+
  then have "signed_take_bit 63 (uint j - uint a) = uint j - uint a"
    by (rule signed_take_bit_int_eq_self)
  then have "sint (j - a) = uint j - uint a"
    by (simp add: sint_word_diff sj sa)
  then show ?thesis
    by (simp add: word_le_def time_is_before_eq_jiffies_def)
qed

lemma find_oldest_request_Some:
  "find_oldest_request rs = Some r \<longleftrightarrow>
     (\<exists>pre post. rs = pre @ r # post \<and>
        rq_state r \<inter> {RQ_NET_PENDING, RQ_LOCAL_PENDING} \<noteq> {} \<and>
        (\<forall>x \<in> set pre. rq_state x \<inter> {RQ_NET_PENDING, RQ_LOCAL_PENDING} = {}))"
proof (induction rs)
  case Nil
  then show ?case by simp
next
  case (Cons a rs)
  show ?case
  proof (cases "rq_state a \<inter> {RQ_NET_PENDING, RQ_LOCAL_PENDING} \<noteq> {}")
    case True
    have "(\<exists>pre post. a # rs = pre @ r # post \<and>
        rq_state r \<inter> {RQ_NET_PENDING, RQ_LOCAL_PENDING} \<noteq> {} \<and>
        (\<forall>x \<in> set pre. rq_state x \<inter> {RQ_NET_PENDING, RQ_LOCAL_PENDING} = {})) \<longleftrightarrow> a = r"
    proof
      assume "\<exists>pre post. a # rs = pre @ r # post \<and>
        rq_state r \<inter> {RQ_NET_PENDING, RQ_LOCAL_PENDING} \<noteq> {} \<and>
        (\<forall>x \<in> set pre. rq_state x \<inter> {RQ_NET_PENDING, RQ_LOCAL_PENDING} = {})"
      then obtain pre post where e: "a # rs = pre @ r # post"
        and p: "\<forall>x \<in> set pre. rq_state x \<inter> {RQ_NET_PENDING, RQ_LOCAL_PENDING} = {}"
        by blast
      show "a = r"
      proof (cases pre)
        case Nil
        with e show ?thesis by simp
      next
        case (Cons x xs)
        with e have "x = a" by simp
        with Cons p True show ?thesis by simp
      qed
    next
      assume "a = r"
      with True have "a # rs = [] @ r # rs \<and>
        rq_state r \<inter> {RQ_NET_PENDING, RQ_LOCAL_PENDING} \<noteq> {} \<and>
        (\<forall>x \<in> set []. rq_state x \<inter> {RQ_NET_PENDING, RQ_LOCAL_PENDING} = {})"
        by simp
      then show "\<exists>pre post. a # rs = pre @ r # post \<and>
        rq_state r \<inter> {RQ_NET_PENDING, RQ_LOCAL_PENDING} \<noteq> {} \<and>
        (\<forall>x \<in> set pre. rq_state x \<inter> {RQ_NET_PENDING, RQ_LOCAL_PENDING} = {})"
        by blast
    qed
    with True show ?thesis by auto
  next
    case False
    have "(\<exists>pre post. a # rs = pre @ r # post \<and>
        rq_state r \<inter> {RQ_NET_PENDING, RQ_LOCAL_PENDING} \<noteq> {} \<and>
        (\<forall>x \<in> set pre. rq_state x \<inter> {RQ_NET_PENDING, RQ_LOCAL_PENDING} = {})) \<longleftrightarrow>
          (\<exists>pre post. rs = pre @ r # post \<and>
        rq_state r \<inter> {RQ_NET_PENDING, RQ_LOCAL_PENDING} \<noteq> {} \<and>
        (\<forall>x \<in> set pre. rq_state x \<inter> {RQ_NET_PENDING, RQ_LOCAL_PENDING} = {}))"
    proof
      assume "\<exists>pre post. a # rs = pre @ r # post \<and>
        rq_state r \<inter> {RQ_NET_PENDING, RQ_LOCAL_PENDING} \<noteq> {} \<and>
        (\<forall>x \<in> set pre. rq_state x \<inter> {RQ_NET_PENDING, RQ_LOCAL_PENDING} = {})"
      then obtain pre post where e: "a # rs = pre @ r # post"
        and q: "rq_state r \<inter> {RQ_NET_PENDING, RQ_LOCAL_PENDING} \<noteq> {}"
        and p: "\<forall>x \<in> set pre. rq_state x \<inter> {RQ_NET_PENDING, RQ_LOCAL_PENDING} = {}"
        by blast
      from e q False obtain xs where "pre = a # xs"
        by (cases pre) auto
      with e p q have "rs = xs @ r # post \<and>
        rq_state r \<inter> {RQ_NET_PENDING, RQ_LOCAL_PENDING} \<noteq> {} \<and>
        (\<forall>x \<in> set xs. rq_state x \<inter> {RQ_NET_PENDING, RQ_LOCAL_PENDING} = {})"
        by simp
      then show "\<exists>pre post. rs = pre @ r # post \<and>
        rq_state r \<inter> {RQ_NET_PENDING, RQ_LOCAL_PENDING} \<noteq> {} \<and>
        (\<forall>x \<in> set pre. rq_state x \<inter> {RQ_NET_PENDING, RQ_LOCAL_PENDING} = {})"
        by blast
    next
      assume "\<exists>pre post. rs = pre @ r # post \<and>
        rq_state r \<inter> {RQ_NET_PENDING, RQ_LOCAL_PENDING} \<noteq> {} \<and>
        (\<forall>x \<in> set pre. rq_state x \<inter> {RQ_NET_PENDING, RQ_LOCAL_PENDING} = {})"
      then obtain pre post where "rs = pre @ r # post"
        and "rq_state r \<inter> {RQ_NET_PENDING, RQ_LOCAL_PENDING} \<noteq> {}"
        and "\<forall>x \<in> set pre. rq_state x \<inter> {RQ_NET_PENDING, RQ_LOCAL_PENDING} = {}"
        by blast
      with False have "a # rs = (a # pre) @ r # post \<and>
        rq_state r \<inter> {RQ_NET_PENDING, RQ_LOCAL_PENDING} \<noteq> {} \<and>
        (\<forall>x \<in> set (a # pre). rq_state x \<inter> {RQ_NET_PENDING, RQ_LOCAL_PENDING} = {})"
        by simp
      then show "\<exists>pre post. a # rs = pre @ r # post \<and>
        rq_state r \<inter> {RQ_NET_PENDING, RQ_LOCAL_PENDING} \<noteq> {} \<and>
        (\<forall>x \<in> set pre. rq_state x \<inter> {RQ_NET_PENDING, RQ_LOCAL_PENDING} = {})"
        by blast
    qed
    with False Cons.IH show ?thesis by simp
  qed
qed

lemma find_oldest_request_None:
  "find_oldest_request rs = None \<longleftrightarrow>
     (\<forall>x \<in> set rs. rq_state x \<inter> {RQ_NET_PENDING, RQ_LOCAL_PENDING} = {})"
  by (induction rs) auto

subsection \<open>The request timer: the theorem\<close>

text \<open>
  C8, as the code has it. With \<open>ent\<close> the network timeout times \<open>HZ/10\<close> times the
  ko-count (0 without a \<open>net_conf\<close>) and \<open>dt\<close> the disk timeout times \<open>HZ/10\<close> (0
  without a local disk), the period is \<open>et = min_not_zero(dt, ent)\<close>: the timeout that is
  not zero when the other one is, the smaller one when neither is. When \<open>et\<close> is 0, or the
  device is neither connected nor has a usable disk, the timer is not armed again. Otherwise
  the tick takes the first entry of the transfer log that has \<open>RQ_NET_PENDING\<close> or
  \<open>RQ_LOCAL_PENDING\<close> set. Without one, the timer is armed at \<open>jiffies + et\<close>. With
  one (\<open>r\<close>, after the entries \<open>pre\<close> that are not pending): the connection is forced
  to \<open>C_TIMEOUT\<close> exactly when \<open>ent\<close> is not 0, \<open>r\<close> is \<open>RQ_NET_PENDING\<close> and its
  start time plus \<open>ent\<close> has passed; the disk error is escalated exactly when \<open>dt\<close> is
  not 0, \<open>r\<close> is \<open>RQ_LOCAL_PENDING\<close>, belongs to this device and its start time plus
  \<open>dt\<close> has passed; and the timer is armed at \<open>jiffies + et\<close> when the start time plus
  \<open>et\<close> has passed, at the start time plus \<open>et\<close> otherwise. "Has passed" is the
  comparison \<open>time_is_before_eq_jiffies\<close>, which is \<open>\<le>\<close> while the clock is below
  \<open>2^63\<close>.
\<close>

theorem request_timer:
  "(let ent = timer_ent env; dt = timer_dt env; et = min_not_zero dt ent; j = te_jiffies env
    in et = (if dt = 0 then ent else if ent = 0 then dt else min dt ent) \<and>
       (et = 0 \<or> (te_repl_below_standalone env \<and> te_disk_at_most_failed env) \<longrightarrow>
          request_timer_fn env = []) \<and>
       (et \<noteq> 0 \<and> \<not> (te_repl_below_standalone env \<and> te_disk_at_most_failed env) \<and>
        (\<forall>x \<in> set (te_transfer_log env).
            rq_state x \<inter> {RQ_NET_PENDING, RQ_LOCAL_PENDING} = {}) \<longrightarrow>
          request_timer_fn env = [MOD_TIMER (j + et)]) \<and>
       (et \<noteq> 0 \<and> \<not> (te_repl_below_standalone env \<and> te_disk_at_most_failed env) \<and>
        te_transfer_log env = pre @ r # post \<and>
        rq_state r \<inter> {RQ_NET_PENDING, RQ_LOCAL_PENDING} \<noteq> {} \<and>
        (\<forall>x \<in> set pre. rq_state x \<inter> {RQ_NET_PENDING, RQ_LOCAL_PENDING} = {}) \<longrightarrow>
          request_timer_fn env =
            (if ent \<noteq> 0 \<and> RQ_NET_PENDING \<in> rq_state r \<and>
                time_is_before_eq_jiffies j (start_time r + ent)
             then [WARN_KO_COUNT_TIMEOUT, CHANGE_CSTATE_TIMEOUT] else []) @
            (if dt \<noteq> 0 \<and> RQ_LOCAL_PENDING \<in> rq_state r \<and> req_device r = te_device env \<and>
                time_is_before_eq_jiffies j (start_time r + dt)
             then [WARN_DISK_TIMEOUT, CHK_IO_ERROR True] else []) @
            [MOD_TIMER ((if time_is_before_eq_jiffies j (start_time r + et)
                         then j else start_time r) + et)])) \<and>
   (uint now < 2 ^ 63 \<and> uint t < 2 ^ 63 \<longrightarrow> time_is_before_eq_jiffies now t = (t \<le> now))"
proof -
  have a: "min_not_zero (timer_dt env) (timer_ent env) =
             (if timer_dt env = 0 then timer_ent env
              else if timer_ent env = 0 then timer_dt env
              else min (timer_dt env) (timer_ent env))"
    by (simp add: min_not_zero_def)
  have b: "min_not_zero (timer_dt env) (timer_ent env) = 0 \<or>
           (te_repl_below_standalone env \<and> te_disk_at_most_failed env) \<Longrightarrow>
             request_timer_fn env = []"
    by (auto simp add: request_timer_fn_def Let_def)
  have c: "find_oldest_request (te_transfer_log env) = None \<Longrightarrow>
           min_not_zero (timer_dt env) (timer_ent env) \<noteq> 0 \<Longrightarrow>
           \<not> (te_repl_below_standalone env \<and> te_disk_at_most_failed env) \<Longrightarrow>
             request_timer_fn env =
               [MOD_TIMER (te_jiffies env + min_not_zero (timer_dt env) (timer_ent env))]"
    by (auto simp add: request_timer_fn_def Let_def)
  have d: "find_oldest_request (te_transfer_log env) = Some r \<Longrightarrow>
           min_not_zero (timer_dt env) (timer_ent env) \<noteq> 0 \<Longrightarrow>
           \<not> (te_repl_below_standalone env \<and> te_disk_at_most_failed env) \<Longrightarrow>
             request_timer_fn env =
            (if timer_ent env \<noteq> 0 \<and> RQ_NET_PENDING \<in> rq_state r \<and>
                time_is_before_eq_jiffies (te_jiffies env) (start_time r + timer_ent env)
             then [WARN_KO_COUNT_TIMEOUT, CHANGE_CSTATE_TIMEOUT] else []) @
            (if timer_dt env \<noteq> 0 \<and> RQ_LOCAL_PENDING \<in> rq_state r \<and>
                req_device r = te_device env \<and>
                time_is_before_eq_jiffies (te_jiffies env) (start_time r + timer_dt env)
             then [WARN_DISK_TIMEOUT, CHK_IO_ERROR True] else []) @
            [MOD_TIMER ((if time_is_before_eq_jiffies (te_jiffies env)
                              (start_time r + min_not_zero (timer_dt env) (timer_ent env))
                         then te_jiffies env else start_time r) +
                        min_not_zero (timer_dt env) (timer_ent env))]"
    by (simp add: request_timer_fn_def Let_def)
  have e: "te_transfer_log env = pre @ r # post \<and>
        rq_state r \<inter> {RQ_NET_PENDING, RQ_LOCAL_PENDING} \<noteq> {} \<and>
        (\<forall>x \<in> set pre. rq_state x \<inter> {RQ_NET_PENDING, RQ_LOCAL_PENDING} = {}) \<Longrightarrow>
        find_oldest_request (te_transfer_log env) = Some r"
    unfolding find_oldest_request_Some by blast
  have f: "(\<forall>x \<in> set (te_transfer_log env).
            rq_state x \<inter> {RQ_NET_PENDING, RQ_LOCAL_PENDING} = {}) \<Longrightarrow>
        find_oldest_request (te_transfer_log env) = None"
    by (simp add: find_oldest_request_None)
  show ?thesis
    unfolding Let_def
    apply (intro conjI impI)
    subgoal by (rule a)
    subgoal by (rule b)
    subgoal premises p
      using p c [OF f] by simp
    subgoal premises p
      using p d [OF e] by simp
    subgoal premises p
      using p time_is_before_eq_jiffies_le [of now t] by simp
    done
qed

text \<open>
  The theorem at a tick at time 20000, with \<open>ent\<close> 10500 and no disk timeout, where the
  oldest pending request was sent at time 5000: the connection times out and the timer is
  armed at 30500.
\<close>

theorem request_timer_witness:
  "min_not_zero (timer_dt (ex_timer_env 5000)) (timer_ent (ex_timer_env 5000)) = 10500 \<and>
   timer_ent (ex_timer_env 5000) = 10500 \<and> timer_dt (ex_timer_env 5000) = 0 \<and>
   \<not> (te_repl_below_standalone (ex_timer_env 5000) \<and> te_disk_at_most_failed (ex_timer_env 5000)) \<and>
   te_transfer_log (ex_timer_env 5000) = [ex_acked] @ ex_waiting 5000 # [] \<and>
   rq_state (ex_waiting 5000) \<inter> {RQ_NET_PENDING, RQ_LOCAL_PENDING} \<noteq> {} \<and>
   rq_state ex_acked \<inter> {RQ_NET_PENDING, RQ_LOCAL_PENDING} = {} \<and>
   RQ_NET_PENDING \<in> rq_state (ex_waiting 5000) \<and>
   time_is_before_eq_jiffies 20000 (5000 + 10500) \<and>
   request_timer_fn (ex_timer_env 5000) =
     [WARN_KO_COUNT_TIMEOUT, CHANGE_CSTATE_TIMEOUT, MOD_TIMER (20000 + 10500)]"
proof -
  have h: "min_not_zero (timer_dt (ex_timer_env 5000)) (timer_ent (ex_timer_env 5000)) = 10500 \<and>
   timer_ent (ex_timer_env 5000) = 10500 \<and> timer_dt (ex_timer_env 5000) = 0 \<and>
   \<not> (te_repl_below_standalone (ex_timer_env 5000) \<and> te_disk_at_most_failed (ex_timer_env 5000)) \<and>
   te_transfer_log (ex_timer_env 5000) = [ex_acked] @ ex_waiting 5000 # [] \<and>
   rq_state (ex_waiting 5000) \<inter> {RQ_NET_PENDING, RQ_LOCAL_PENDING} \<noteq> {} \<and>
   rq_state ex_acked \<inter> {RQ_NET_PENDING, RQ_LOCAL_PENDING} = {} \<and>
   RQ_NET_PENDING \<in> rq_state (ex_waiting 5000) \<and>
   time_is_before_eq_jiffies 20000 (5000 + 10500) \<and>
   te_jiffies (ex_timer_env 5000) = 20000 \<and> start_time (ex_waiting 5000) = 5000"
    by code_simp
  from request_timer [of "ex_timer_env 5000" "[ex_acked]" "ex_waiting 5000" "[]"] h
  have "request_timer_fn (ex_timer_env 5000) =
     [WARN_KO_COUNT_TIMEOUT, CHANGE_CSTATE_TIMEOUT, MOD_TIMER (20000 + 10500)]"
    by (simp add: Let_def)
  with h show ?thesis
    by blast
qed

text \<open>
  C8 as stated fails. With no disk timeout (\<open>dt\<close> is 0) the period is \<open>ent\<close>, not the
  minimum of the two, which is 0. And the timer is not armed at the later of now and the
  start time plus \<open>et\<close>: for the request sent at time 5000 that is 20000 (now), and the
  timer is armed at 30500; nor is it armed at \<open>et\<close> after the later of now and the start
  time: for a request sent at time 15000 that is 30500, and the timer is armed at 25500.
\<close>

theorem request_timer_counterexample:
  "timer_dt (ex_timer_env 5000) = 0 \<and> timer_ent (ex_timer_env 5000) = 10500 \<and>
   min (timer_dt (ex_timer_env 5000)) (timer_ent (ex_timer_env 5000)) = 0 \<and>
   request_timer_fn (ex_timer_env 5000) =
     [WARN_KO_COUNT_TIMEOUT, CHANGE_CSTATE_TIMEOUT, MOD_TIMER 30500] \<and>
   max (20000 :: 64 word) (5000 + 10500) = 20000 \<and>
   request_timer_fn (ex_timer_env 15000) = [MOD_TIMER 25500] \<and>
   max (20000 :: 64 word) 15000 + 10500 = 30500"
  by code_simp

subsection \<open>The entry point: what it rejects\<close>

text \<open>
  C9, as the code has it. \<open>drbd_make_request\<close> rejects a bio only for the flag
  \<open>DRBD_REQ_HARDBARRIER\<close>: it ends it with \<open>-EOPNOTSUPP\<close> and does nothing else. Every
  other bio is counted (\<open>inc_ap_bio\<close>) and passed on to \<open>__drbd_make_request\<close> with
  the start time, whatever its size: a size of zero and a size that is not a multiple of
  512 only fail an assertion each, which is recorded before the bio is passed on.
\<close>

theorem drbd_make_request_rejects:
  "trace (drbd_make_request d b j) =
     trace d @
     (if bi_hardbarrier b then [BIO_ENDIO b (- EOPNOTSUPP)]
      else (if bi_size b = 0 then [ASSERT_FAILED ''bio->bi_size > 0''] else []) @
           (if bi_size b AND 511 \<noteq> 0 then [ASSERT_FAILED ''IS_ALIGNED(bio->bi_size, 512)'']
            else []) @
           [INC_AP_BIO, MAKE_REQUEST b j])"
  by (simp add: drbd_make_request_def Let_def D_ASSERT_def emit_def IS_ALIGNED_def word_greater_zero_iff)

text \<open>
  The theorem at a bio with the barrier flag, which is ended with \<open>-EOPNOTSUPP\<close>, and at
  a write of 4096 bytes, which is passed on.
\<close>

theorem drbd_make_request_rejects_witness:
  "trace (drbd_make_request ex_dev ex_barrier_bio 77) = [BIO_ENDIO ex_barrier_bio (- EOPNOTSUPP)] \<and>
   trace (drbd_make_request ex_dev ex_write_bio 77) = [INC_AP_BIO, MAKE_REQUEST ex_write_bio 77]"
proof -
  have "bi_hardbarrier ex_barrier_bio \<and> \<not> bi_hardbarrier ex_write_bio \<and>
        bi_size ex_write_bio \<noteq> 0 \<and> bi_size ex_write_bio AND 511 = 0 \<and> trace ex_dev = []"
    by code_simp
  with drbd_make_request_rejects [of ex_dev ex_barrier_bio 77]
    drbd_make_request_rejects [of ex_dev ex_write_bio 77]
  show ?thesis
    by simp
qed

text \<open>
  C9 as stated fails: a bio of no bytes and a bio of 100 bytes are passed on to
  \<open>__drbd_make_request\<close>, each after one failed assertion.
\<close>

theorem drbd_make_request_rejects_counterexample:
  "bi_size ex_empty_bio = 0 \<and>
   trace (drbd_make_request ex_dev ex_empty_bio 77) =
     [ASSERT_FAILED ''bio->bi_size > 0'', INC_AP_BIO, MAKE_REQUEST ex_empty_bio 77] \<and>
   bi_size ex_odd_bio = 100 \<and>
   trace (drbd_make_request ex_dev ex_odd_bio 77) =
     [ASSERT_FAILED ''IS_ALIGNED(bio->bi_size, 512)'', INC_AP_BIO, MAKE_REQUEST ex_odd_bio 77]"
  by code_simp

section \<open>The transfer log of drbd\_main.c\<close>

lemma tl_next_upd [simp]:
  "tl_next (m\<lparr>tl_begin := b\<rparr>) = tl_next m"
  "tl_next (m\<lparr>klog := l\<rparr>) = tl_next m"
  "tl_next (printk e m) = tl_next m"
  by (simp_all add: tl_next_def printk_def fun_eq_iff)

lemma tl_release_step_fields:
  "transfer_log (tl_release_step m) = transfer_log m"
  "tl_begin (tl_release_step m) = tl_next m (tl_begin m)"
  "tl_next (tl_release_step m) = tl_next m"
  by (simp_all add: tl_release_step_def Let_def printk_def)

lemma tl_release_step_eq:
  "\<exists>l. tl_release_step m = m\<lparr>tl_begin := tl_next m (tl_begin m), klog := klog m @ l\<rparr>
       \<and> set l \<subseteq> {PRINTK_TL_MESSED_UP}"
proof (cases "tl_next m (tl_begin m) = tl_end m")
  case True
  then have "tl_release_step m
             = m\<lparr>tl_begin := tl_next m (tl_begin m), klog := klog m @ [PRINTK_TL_MESSED_UP]\<rparr>"
    by (simp add: tl_release_step_def Let_def printk_def)
  then show ?thesis by (intro exI [of _ "[PRINTK_TL_MESSED_UP]"]) simp
next
  case False
  then have "tl_release_step m = m\<lparr>tl_begin := tl_next m (tl_begin m), klog := klog m @ []\<rparr>"
    by (simp add: tl_release_step_def Let_def printk_def)
  then show ?thesis by (intro exI [of _ "[]"]) simp
qed

lemma tl_release_loop_unfold:
  "tl_release_loop m es =
     (if transfer_log m ! tl_next m (tl_begin m) \<noteq> TL_BARRIER
      then tl_release_loop (tl_release_step m) (es + 1)
      else Some (tl_release_step m, es + 1))"
  by (subst tl_release_loop.simps) (simp add: Let_def tl_release_step_fields)

text \<open>
  The loop of \<open>tl_release\<close> returns when the ring holds a barrier behind \<open>tl_begin\<close>: it
  leaves the cursor on the first one, \<open>n + 1\<close> slots further, and has counted \<open>n + 1\<close>
  steps.
\<close>

lemma tl_release_loop_steps:
  "transfer_log m ! ((tl_next m ^^ Suc n) (tl_begin m)) = TL_BARRIER \<Longrightarrow>
   (\<forall>k\<in>{1..n}. transfer_log m ! ((tl_next m ^^ k) (tl_begin m)) \<noteq> TL_BARRIER) \<Longrightarrow>
   \<exists>l. tl_release_loop m es =
          Some (m\<lparr>tl_begin := (tl_next m ^^ Suc n) (tl_begin m), klog := klog m @ l\<rparr>,
                es + of_nat (Suc n))
       \<and> set l \<subseteq> {PRINTK_TL_MESSED_UP}"
proof (induction n arbitrary: m es)
  case 0
  from 0(1) have b: "transfer_log m ! tl_next m (tl_begin m) = TL_BARRIER" by simp
  obtain l where l: "tl_release_step m = m\<lparr>tl_begin := tl_next m (tl_begin m), klog := klog m @ l\<rparr>"
    "set l \<subseteq> {PRINTK_TL_MESSED_UP}"
    using tl_release_step_eq by blast
  have "tl_release_loop m es = Some (tl_release_step m, es + 1)"
    by (subst tl_release_loop_unfold) (simp only: b if_False simp_thms)
  with l show ?case by (intro exI [of _ l]) simp
next
  case (Suc n)
  let ?m2 = "tl_release_step m"
  note f = tl_release_step_fields [of m]
  have pw: "\<And>k. (tl_next m ^^ k) (tl_next m (tl_begin m)) = (tl_next m ^^ Suc k) (tl_begin m)"
    by (simp add: funpow_swap1)
  have nb: "transfer_log m ! tl_next m (tl_begin m) \<noteq> TL_BARRIER"
    using Suc.prems(2) [rule_format, of 1] by simp
  have step: "tl_release_loop m es = tl_release_loop ?m2 (es + 1)"
    by (subst tl_release_loop_unfold) (simp only: nb if_True simp_thms)
  have h1: "transfer_log ?m2 ! ((tl_next ?m2 ^^ Suc n) (tl_begin ?m2)) = TL_BARRIER"
    using Suc.prems(1) by (simp only: f pw)
  have h2: "\<forall>k\<in>{1..n}. transfer_log ?m2 ! ((tl_next ?m2 ^^ k) (tl_begin ?m2)) \<noteq> TL_BARRIER"
  proof
    fix k assume "k \<in> {1..n}"
    then have "Suc k \<in> {1..Suc n}" by simp
    from Suc.prems(2) [rule_format, OF this] show
      "transfer_log ?m2 ! ((tl_next ?m2 ^^ k) (tl_begin ?m2)) \<noteq> TL_BARRIER"
      by (simp only: f pw not_False_eq_True)
  qed
  from Suc.IH [OF h1 h2, of "es + 1"] obtain l where
    l: "tl_release_loop ?m2 (es + 1) =
          Some (?m2\<lparr>tl_begin := (tl_next ?m2 ^^ Suc n) (tl_begin ?m2), klog := klog ?m2 @ l\<rparr>,
                es + 1 + of_nat (Suc n))" "set l \<subseteq> {PRINTK_TL_MESSED_UP}"
    by blast
  obtain l0 where l0: "?m2 = m\<lparr>tl_begin := tl_next m (tl_begin m), klog := klog m @ l0\<rparr>"
    "set l0 \<subseteq> {PRINTK_TL_MESSED_UP}"
    using tl_release_step_eq by blast
  have eq: "?m2\<lparr>tl_begin := (tl_next ?m2 ^^ Suc n) (tl_begin ?m2), klog := klog ?m2 @ l\<rparr>
          = m\<lparr>tl_begin := (tl_next m ^^ Suc (Suc n)) (tl_begin m), klog := klog m @ (l0 @ l)\<rparr>"
  proof -
    have kl: "klog ?m2 = klog m @ l0" by (subst l0(1)) simp
    have up: "\<And>X K. ?m2\<lparr>tl_begin := X, klog := K\<rparr> = m\<lparr>tl_begin := X, klog := K\<rparr>"
      by (subst l0(1)) simp
    show ?thesis by (simp only: f pw kl up append_assoc)
  qed
  have es: "es + 1 + of_nat (Suc n) = es + of_nat (Suc (Suc n))" by simp
  show ?case
    apply (rule exI [of _ "l0 @ l"])
    using l l0(2) by (simp only: step eq es) simp
qed

text \<open>
  C3, as the code has it. Let the ring hold a barrier behind \<open>tl_begin\<close>, the first one
  \<open>n + 1\<close> slots further (without one, the loop of \<open>tl_release\<close> does not end). Then
  \<open>tl_release m barrier_nr set_size\<close> returns, and all it does is this: it moves
  \<open>tl_begin\<close> onto that barrier, which stays in the ring and is discounted by the next
  call; it adds one to \<open>barrier_nr_done\<close>, whether or not the number reported is the one
  expected; and it writes to the kernel log. A barrier number other than
  \<open>barrier_nr_done\<close> is logged (\<open>invalid barrier number\<close>) and so is a set size other
  than the number of entries found (\<open>Epoch set size wrong\<close>): neither is fatal. The
  connection state, the ring's entries and the requests they point to are as before: nothing
  is reset, and no request is marked.
\<close>

theorem tl_release_mismatch_logged:
  assumes "transfer_log m ! ((tl_next m ^^ Suc n) (tl_begin m)) = TL_BARRIER"
    and "\<forall>k\<in>{1..n}. transfer_log m ! ((tl_next m ^^ k) (tl_begin m)) \<noteq> TL_BARRIER"
    and "found = (if transfer_log m ! tl_begin m = TL_BARRIER then of_nat n else of_nat n + 1)"
  shows "\<exists>m' l. tl_release m barrier_nr set_size = Some m'
           \<and> m' = m\<lparr>tl_begin := (tl_next m ^^ Suc n) (tl_begin m),
                     barrier_nr_done := barrier_nr_done m + 1, klog := klog m @ l\<rparr>
           \<and> cstate m' = cstate m \<and> transfer_log m' = transfer_log m
           \<and> requests m' = requests m
           \<and> set l \<subseteq> {PRINTK_TL_MESSED_UP,
                        PRINTK_INVALID_BARRIER_NR (barrier_nr_done m) barrier_nr,
                        PRINTK_EPOCH_SET_SIZE_WRONG found set_size}
           \<and> (PRINTK_INVALID_BARRIER_NR (barrier_nr_done m) barrier_nr \<in> set l
                \<longleftrightarrow> barrier_nr_done m \<noteq> barrier_nr)
           \<and> (PRINTK_EPOCH_SET_SIZE_WRONG found set_size \<in> set l \<longleftrightarrow> found \<noteq> set_size)"
proof -
  let ?es0 = "if transfer_log m ! tl_begin m = TL_BARRIER then - 1 else 0 :: 32 word"
  let ?B = "(tl_next m ^^ Suc n) (tl_begin m)"
  from tl_release_loop_steps [OF assms(1) assms(2), of ?es0] obtain l1 where
    loop: "tl_release_loop m ?es0 = Some (m\<lparr>tl_begin := ?B, klog := klog m @ l1\<rparr>,
                                          ?es0 + of_nat (Suc n))"
    and l1: "set l1 \<subseteq> {PRINTK_TL_MESSED_UP}"
    by blast
  have fnd: "?es0 + of_nat (Suc n) = found" using assms(3) by simp
  define l2 where "l2 = (if barrier_nr_done m \<noteq> barrier_nr
                         then [PRINTK_INVALID_BARRIER_NR (barrier_nr_done m) barrier_nr] else [])"
  define l3 where "l3 = (if found \<noteq> set_size
                         then [PRINTK_EPOCH_SET_SIZE_WRONG found set_size] else [])"
  define m' where "m' = m\<lparr>tl_begin := ?B, barrier_nr_done := barrier_nr_done m + 1,
                           klog := klog m @ (l1 @ l2 @ l3)\<rparr>"
  have r: "tl_release m barrier_nr set_size = Some m'"
    unfolding tl_release_def
    apply (simp only: Let_def loop fnd option.case prod.case)
    apply (simp add: printk_def m'_def l2_def l3_def)
    done
  have s: "set (l1 @ l2 @ l3) \<subseteq> {PRINTK_TL_MESSED_UP,
                        PRINTK_INVALID_BARRIER_NR (barrier_nr_done m) barrier_nr,
                        PRINTK_EPOCH_SET_SIZE_WRONG found set_size}"
    using l1 by (auto simp add: l2_def l3_def)
  have i: "PRINTK_INVALID_BARRIER_NR (barrier_nr_done m) barrier_nr \<in> set (l1 @ l2 @ l3)
            \<longleftrightarrow> barrier_nr_done m \<noteq> barrier_nr"
    using l1 by (auto simp add: l2_def l3_def)
  have e: "PRINTK_EPOCH_SET_SIZE_WRONG found set_size \<in> set (l1 @ l2 @ l3)
            \<longleftrightarrow> found \<noteq> set_size"
    using l1 by (auto simp add: l2_def l3_def)
  have c: "cstate m' = cstate m" "transfer_log m' = transfer_log m" "requests m' = requests m"
    by (simp_all add: m'_def)
  show ?thesis
    apply (rule exI [of _ m'])
    apply (rule exI [of _ "l1 @ l2 @ l3"])
    apply (intro conjI)
           apply (rule r)
          apply (rule m'_def)
         apply (rule c(1))
        apply (rule c(2))
       apply (rule c(3))
      apply (rule s)
     apply (rule i)
    apply (rule e)
    done
qed

theorem tl_release_mismatch_logged_witness:
  "\<exists>m' l. tl_release ex_conf 7 1 = Some m'
      \<and> m' = ex_conf\<lparr>tl_begin := (tl_next ex_conf ^^ Suc 2) (tl_begin ex_conf),
                       barrier_nr_done := barrier_nr_done ex_conf + 1,
                       klog := klog ex_conf @ l\<rparr>
      \<and> cstate m' = cstate ex_conf \<and> transfer_log m' = transfer_log ex_conf
      \<and> requests m' = requests ex_conf
      \<and> set l \<subseteq> {PRINTK_TL_MESSED_UP,
                   PRINTK_INVALID_BARRIER_NR (barrier_nr_done ex_conf) 7,
                   PRINTK_EPOCH_SET_SIZE_WRONG 2 1}
      \<and> (PRINTK_INVALID_BARRIER_NR (barrier_nr_done ex_conf) 7 \<in> set l
           \<longleftrightarrow> barrier_nr_done ex_conf \<noteq> 7)
      \<and> (PRINTK_EPOCH_SET_SIZE_WRONG 2 1 \<in> set l \<longleftrightarrow> (2 :: 32 word) \<noteq> 1)"
proof -
  have h1: "transfer_log ex_conf ! ((tl_next ex_conf ^^ Suc 2) (tl_begin ex_conf)) = TL_BARRIER"
    by code_simp
  have h2: "\<forall>k\<in>{1..2}. transfer_log ex_conf ! ((tl_next ex_conf ^^ k) (tl_begin ex_conf))
              \<noteq> TL_BARRIER"
    by code_simp
  have h3: "(2 :: 32 word) = (if transfer_log ex_conf ! tl_begin ex_conf = TL_BARRIER
                              then of_nat 2 else of_nat 2 + 1)"
    by code_simp
  from tl_release_mismatch_logged [OF h1 h2 h3, of 7 1] show ?thesis .
qed

text \<open>
  C3 as the spec has it fails: with \<open>barrier_nr_done = 5\<close> and two requests before the
  next barrier, the acknowledgement of barrier 7 with a set size of 1 is wrong twice. The
  call returns, both mismatches are in the kernel log and nothing else has happened: the
  connection state is the one before (no call of \<open>set_cstate\<close>), \<open>barrier_nr_done\<close> is 6, and
  the status of the two requests covered is unchanged.
\<close>

theorem tl_release_mismatch_logged_counterexample:
  "case tl_release ex_conf 7 1 of
     None \<Rightarrow> False
   | Some m' \<Rightarrow>
       klog m' = [PRINTK_INVALID_BARRIER_NR 5 7, PRINTK_EPOCH_SET_SIZE_WRONG 2 1]
     \<and> cstate m' = cstate ex_conf \<and> barrier_nr_done m' = 6 \<and> tl_begin m' = 3
     \<and> transfer_log m' = transfer_log ex_conf
     \<and> rq_status (requests m' 0x1000) = rq_status (requests ex_conf 0x1000)
     \<and> rq_status (requests m' 0x2000) = rq_status (requests ex_conf 0x2000)"
  by code_simp

section \<open>The sender of drbd\_main.c\<close>

subsection \<open>Byte order on the wire\<close>







lemma bytes_length [simp]:
  "length (le_bytes16 a) = 2" "length (be_bytes16 a) = 2" "length (mem16 e a) = 2"
  "length (le_bytes32 b) = 4" "length (be_bytes32 b) = 4" "length (mem32 e b) = 4"
  "length (le_bytes64 c) = 8" "length (be_bytes64 c) = 8" "length (mem64 e c) = 8"
  by (simp_all add: le_bytes16_def be_bytes16_def mem16_def le_bytes32_def be_bytes32_def
      mem32_def le_bytes64_def be_bytes64_def mem64_def)

lemma packet_image_length [simp]: "length (packet_image e p) = 8"
  by (simp add: packet_image_def)



lemma tl_add_barrier_fields:
  "fst (tl_add_barrier m) = barrier_nr_issue m"
  "host (snd (tl_add_barrier m)) = host m"
  "have_sock (snd (tl_add_barrier m)) = have_sock m"
  "cstate (snd (tl_add_barrier m)) = cstate m"
  "sendmsg_results (snd (tl_add_barrier m)) = sendmsg_results m"
  "mbds_id (snd (tl_add_barrier m)) = mbds_id m"
  "blk_size_b (snd (tl_add_barrier m)) = blk_size_b m"
  by (simp_all add: tl_add_barrier_def Let_def printk_def)

lemma drbd_send_barrier_unfold:
  "drbd_send_barrier m =
     (case drbd_send (snd (tl_add_barrier m))
             \<lparr>magic = 0, command = cpu_to_be16 (host m) (cmd_code Barrier), length_field = 0\<rparr>
             (mem32 (host m) (barrier_nr_issue m)) [] False of
        None \<Rightarrow> None
      | Some (r, m2) \<Rightarrow> Some (r, if r = 12 then inc_pending m2 else m2))"
  by (simp add: drbd_send_barrier_def case_prod_beta tl_add_barrier_fields Let_def)




subsection \<open>Sending data\<close>

lemma sock_accepted_append:
  "sock_accepted v (xs @ ys) = sock_accepted v xs @ sock_accepted v ys"
  by (induction v xs rule: sock_accepted.induct) simp_all

lemma drbd_send_loop_accepted:
  "drbd_send_loop via rs iov0 iov1 iovlen hs ds sent lg = Some (rv, sent', tmo, lg', rs') \<Longrightarrow>
   drbd_send_vars iov0 iov1 iovlen hs ds \<Longrightarrow>
   \<exists>k. sent' = sent + int k
     \<and> sock_accepted via lg'
         = sock_accepted via lg @ take k (if iovlen = 2 then iov0 @ iov1 else iov0)"
proof (induction rs arbitrary: iov0 iov1 iovlen hs ds sent lg)
  case Nil
  then show ?case by simp
next
  case (Cons a rs)
  let ?R = "if iovlen = 2 then iov0 @ iov1 else iov0"
  let ?rv = "sm_rv a"
  let ?lg1 = "lg @ [SOCK_SENDMSG via (take (hs + ds) ?R) ?rv]"
  note inv = Cons.prems(2)
  from inv have len: "length ?R = hs + ds"
    by (auto simp add: drbd_send_vars_def split: if_splits)
  have acc1: "sock_accepted via ?lg1
              = sock_accepted via lg @ (if 0 < ?rv then take (nat ?rv) ?R else [])"
    using len by (simp add: sock_accepted_append)
  have fin: "\<exists>k. sent' = sent + int k
               \<and> sock_accepted via lg' = sock_accepted via lg @ take k ?R"
    if rec: "drbd_send_loop via rs i0 i1 il h d (sent + ?rv)
               (?lg1 @ [PRINTK_CALLING_SENDMSG_AGAIN]) = Some (rv, sent', tmo, lg', rs')"
      and inv': "drbd_send_vars i0 i1 il h d"
      and rest: "(if il = 2 then i0 @ i1 else i0) = drop (nat ?rv) ?R"
      and pos: "0 < ?rv"
    for i0 i1 il h d
  proof -
    from Cons.IH [OF rec inv'] obtain k' where
      k1: "sent' = sent + ?rv + int k'"
      and k2: "sock_accepted via lg'
               = sock_accepted via (?lg1 @ [PRINTK_CALLING_SENDMSG_AGAIN])
                 @ take k' (if il = 2 then i0 @ i1 else i0)"
      by blast
    have a: "sock_accepted via (?lg1 @ [PRINTK_CALLING_SENDMSG_AGAIN])
             = sock_accepted via lg @ take (nat ?rv) ?R"
      using pos by (simp only: sock_accepted_append [of via ?lg1] acc1) simp
    have "sock_accepted via lg'
          = (sock_accepted via lg @ take (nat ?rv) ?R) @ take k' (drop (nat ?rv) ?R)"
      by (simp only: k2 a rest)
    also have "\<dots> = sock_accepted via lg @ take (nat ?rv + k') ?R"
      by (simp only: take_add append_assoc)
    finally have "sock_accepted via lg' = sock_accepted via lg @ take (nat ?rv + k') ?R" .
    moreover have "sent' = sent + int (nat ?rv + k')" using k1 pos by simp
    ultimately show ?thesis by blast
  qed
  note run = Cons.prems(1)
  show ?case
  proof (cases "?rv = - ERESTARTSYS \<and> sm_sig a")
    case True
    then have neg: "\<not> 0 < ?rv" by (simp add: ERESTARTSYS_def)
    show ?thesis
    proof (cases "sm_timeout a")
      case t: True
      from run True t have "sent' = sent" "lg' = ?lg1 @ [PRINTK_LEAVING_WHILE]"
        by (auto simp add: Let_def)
      with acc1 neg show ?thesis
        by (intro exI [of _ 0]) (simp add: sock_accepted_append)
    next
      case f: False
      from run True f have rec: "drbd_send_loop via rs iov0 iov1 iovlen hs ds sent ?lg1
                                  = Some (rv, sent', tmo, lg', rs')"
        by (auto simp add: Let_def)
      from Cons.IH [OF rec inv] obtain k where
        "sent' = sent + int k"
        "sock_accepted via lg' = sock_accepted via ?lg1 @ take k ?R"
        by blast
      with acc1 neg show ?thesis by (intro exI [of _ k]) simp
    qed
  next
    case nosig: False
    show ?thesis
    proof (cases "?rv \<le> 0")
      case True
      from run True have "sent' = sent" "lg' = ?lg1"
        using nosig by (auto simp add: Let_def)
      with acc1 True show ?thesis by (intro exI [of _ 0]) simp
    next
      case pos: False
      then have p: "0 < ?rv" by simp
      show ?thesis
      proof (cases "sent + ?rv = int (hs + ds)")
        case True
        from run pos True have "sent' = sent + ?rv" "lg' = ?lg1"
          using nosig by (auto simp add: Let_def)
        with acc1 p show ?thesis by (intro exI [of _ "nat ?rv"]) simp
      next
        case more: False
        show ?thesis
        proof (cases "?rv < int hs")
          case True
          from run pos more True have
            rec: "drbd_send_loop via rs (drop (nat ?rv) iov0) iov1 iovlen (hs - nat ?rv) ds
                    (sent + ?rv) (?lg1 @ [PRINTK_CALLING_SENDMSG_AGAIN])
                  = Some (rv, sent', tmo, lg', rs')"
            using nosig by (auto simp add: Let_def)
          from inv True p have inv': "drbd_send_vars (drop (nat ?rv) iov0) iov1 iovlen
                                        (hs - nat ?rv) ds"
            by (auto simp add: drbd_send_vars_def split: if_splits)
          from inv True p have rest: "(if iovlen = 2 then drop (nat ?rv) iov0 @ iov1
                                       else drop (nat ?rv) iov0) = drop (nat ?rv) ?R"
            by (auto simp add: drbd_send_vars_def split: if_splits)
          from fin [OF rec inv' rest p] show ?thesis .
        next
          case ge: False
          show ?thesis
          proof (cases "hs = 0")
            case False
            from run pos more ge False have
              rec: "drbd_send_loop via rs (drop (nat (?rv - int hs)) iov1) iov1 1 0
                      (ds - nat (?rv - int hs))
                      (sent + ?rv) (?lg1 @ [PRINTK_CALLING_SENDMSG_AGAIN])
                    = Some (rv, sent', tmo, lg', rs')"
              using nosig by (auto simp add: Let_def)
            from inv ge False p have inv': "drbd_send_vars (drop (nat (?rv - int hs)) iov1) iov1 1 0
                                          (ds - nat (?rv - int hs))"
              by (auto simp add: drbd_send_vars_def split: if_splits)
            have n: "nat (?rv - int hs) = nat ?rv - hs" by simp
            from inv ge False p have rest: "(if (1::nat) = 2 then drop (nat (?rv - int hs)) iov1 @ iov1
                                         else drop (nat (?rv - int hs)) iov1) = drop (nat ?rv) ?R"
              by (auto simp add: drbd_send_vars_def n split: if_splits)
            from fin [OF rec inv' rest p] show ?thesis .
          next
            case True
            from run pos more ge True have
              rec: "drbd_send_loop via rs (drop (nat ?rv) iov0) iov1 iovlen 0 (ds - nat ?rv)
                      (sent + ?rv) (?lg1 @ [PRINTK_CALLING_SENDMSG_AGAIN])
                    = Some (rv, sent', tmo, lg', rs')"
              using nosig by (auto simp add: Let_def)
            from inv True have inv': "drbd_send_vars (drop (nat ?rv) iov0) iov1 iovlen 0
                                        (ds - nat ?rv)"
              by (auto simp add: drbd_send_vars_def split: if_splits)
            from inv True have rest: "(if iovlen = 2 then drop (nat ?rv) iov0 @ iov1
                                       else drop (nat ?rv) iov0) = drop (nat ?rv) ?R"
              by (auto simp add: drbd_send_vars_def split: if_splits)
            from fin [OF rec inv' rest p] show ?thesis .
          qed
        qed
      qed
    qed
  qed
qed


lemma drbd_send_fields:
  assumes "drbd_send m header rest data via = Some (r, m')"
  shows "transfer_log m' = transfer_log m" "tl_end m' = tl_end m" "tl_begin m' = tl_begin m"
    "mbds_id m' = mbds_id m" "blk_size_b m' = blk_size_b m"
    "conf_wire_protocol m' = conf_wire_protocol m" "host m' = host m"
  using assms
  by (auto simp add: drbd_send_def Let_def set_cstate_def printk_def
      split: if_splits option.splits)

lemma drbd_send_accepted:
  assumes "drbd_send m header rest data via = Some (r, m')" and "0 < r"
  shows "\<exists>lg. klog m' = klog m @ lg
           \<and> sock_accepted via lg
               = take (nat r) (packet_image (host m) (drbd_send_header m header data)
                               @ rest @ data)"
proof -
  let ?iov0 = "packet_image (host m) (drbd_send_header m header data) @ rest"
  let ?il = "if length data > 0 then 2 else 1 :: nat"
  let ?L = "drbd_send_loop via (sendmsg_results m) ?iov0 data ?il (length ?iov0) (length data) 0 []"
  have g1: "(if via then have_msock m else have_sock m)"
  proof (rule ccontr)
    assume "\<not> (if via then have_msock m else have_sock m)"
    then have "drbd_send m header rest data via = Some (- 1000, m)"
      by (simp add: drbd_send_def)
    with assms show False by simp
  qed
  have g2: "\<not> cstate m < WFReportParams"
  proof
    assume "cstate m < WFReportParams"
    with g1 have "drbd_send m header rest data via = Some (- 1001, m)"
      by (simp add: drbd_send_def)
    with assms show False by simp
  qed
  have e: "drbd_send m header rest data via =
             (case ?L of
                None \<Rightarrow> None
              | Some (rv, sent, timeout_happened, lg, rs) \<Rightarrow>
                  (let m1 = m\<lparr>sendmsg_results := rs, klog := klog m @ lg\<rparr>
                   in if timeout_happened then
                        Some (- 1002, printk CALL_restart_receiver
                                        (set_cstate Timeout (printk PRINTK_SEND_TIMED_OUT m1)))
                      else if rv \<le> 0 then
                        Some (sent, printk CALL_restart_receiver
                                      (set_cstate BrokenPipe
                                         (printk (PRINTK_SENDMSG_RETURNED rv) m1)))
                      else Some (sent, m1)))"
    using g1 g2 by (simp add: drbd_send_def Let_def)
  from assms(1) e obtain rv sent tmo lg rs where L: "?L = Some (rv, sent, tmo, lg, rs)"
    by (cases ?L) auto
  have nt: "\<not> tmo"
  proof
    assume tmo
    with e L have "drbd_send m header rest data via
                   = Some (- 1002, printk CALL_restart_receiver
                        (set_cstate Timeout (printk PRINTK_SEND_TIMED_OUT
                           (m\<lparr>sendmsg_results := rs, klog := klog m @ lg\<rparr>))))"
      by (simp add: Let_def)
    with assms show False by simp
  qed
  from e L nt assms(1) have r: "r = sent"
    by (simp add: Let_def split: if_splits)
  from e L nt assms(1) have k: "\<exists>x. klog m' = klog m @ lg @ x \<and> sock_accepted via x = []"
    apply (simp add: Let_def split: if_splits)
     apply (rule exI [of _ "[PRINTK_SENDMSG_RETURNED rv, CALL_set_cstate BrokenPipe,
                             CALL_restart_receiver]"])
     apply (auto simp add: printk_def set_cstate_def)
    done
  have inv: "drbd_send_vars ?iov0 data ?il (length ?iov0) (length data)"
    by (simp add: drbd_send_vars_def)
  from drbd_send_loop_accepted [OF L inv] obtain n where
    n: "sent = 0 + int n"
    "sock_accepted via lg = sock_accepted via [] @ take n (if ?il = 2 then ?iov0 @ data else ?iov0)"
    by blast
  have R: "(if ?il = 2 then ?iov0 @ data else ?iov0)
           = packet_image (host m) (drbd_send_header m header data) @ rest @ data"
    by simp
  from n r have nr: "nat r = n" by simp
  from k obtain x where x: "klog m' = klog m @ lg @ x" "sock_accepted via x = []" by blast
  have "sock_accepted via (lg @ x)
        = take (nat r) (packet_image (host m) (drbd_send_header m header data) @ rest @ data)"
    using n(2) x(2) by (simp only: sock_accepted_append R nr) simp
  with x(1) show ?thesis by (intro exI [of _ "lg @ x"]) simp
qed

lemma drbd_send_data_barrier_fields:
  assumes "drbd_send_data_barrier m = Some mb"
  shows "mbds_id mb = mbds_id m" "blk_size_b mb = blk_size_b m"
proof -
  have "mbds_id mb = mbds_id m \<and> blk_size_b mb = blk_size_b m"
  proof (cases "issue_barrier m")
    case False
    with assms show ?thesis by (simp add: drbd_send_data_barrier_def)
  next
    case True
    let ?m0 = "m\<lparr>issue_barrier := False\<rparr>"
    from assms True obtain r where b: "drbd_send_barrier ?m0 = Some (r, mb)"
      by (auto simp add: drbd_send_data_barrier_def)
    then obtain m2 where
      s: "drbd_send (snd (tl_add_barrier ?m0))
            \<lparr>magic = 0, command = cpu_to_be16 (host ?m0) (cmd_code Barrier), length_field = 0\<rparr>
            (mem32 (host ?m0) (barrier_nr_issue ?m0)) [] False = Some (r, m2)"
      and mb: "mb = (if r = 12 then inc_pending m2 else m2)"
      by (auto simp add: drbd_send_barrier_unfold split: option.splits)
    from drbd_send_fields(4,5) [OF s] mb show ?thesis
      by (simp add: tl_add_barrier_fields inc_pending_def printk_def)
  qed
  then show "mbds_id mb = mbds_id m" "blk_size_b mb = blk_size_b m" by simp_all
qed

lemma bpl_mask: "(push_bit LN2_BPL 1 - 1 :: 64 word) = mask 6"
  by (simp add: LN2_BPL_def mask_eq_exp_minus_1)

lemma bpl_index: "unat (x AND (push_bit LN2_BPL 1 - 1) :: 64 word) < 64"
proof -
  have "unat (take_bit 6 x) < 2 ^ 6"
    by (simp only: unsigned_take_bit_eq take_bit_nat_less_exp)
  then have "unat (x AND mask 6) < 64" by (simp add: take_bit_eq_mask)
  then show ?thesis by (simp only: bpl_mask)
qed

lemma bit_or_self: "k < 64 \<Longrightarrow> bit (w OR push_bit k (1 :: 64 word)) k"
  by (simp add: bit_simps)

lemma bm_set_bit_out_of_sync:
  "bv \<noteq> 0 \<Longrightarrow> bm_set_bit sbm blocknr ln2 bv =
     (let bitnr = drop_bit (BM_BLOCK_SIZE_B - ln2) blocknr;
          widx = unat (drop_bit LN2_BPL bitnr)
      in if bm_size sbm \<le> drop_bit LN2_BPL bitnr then Some (sbm, [PRINTK_BITMAP_TOO_SMALL])
         else if widx < length (bm sbm)
         then Some (sbm\<lparr>bm := (bm sbm)[widx := bm sbm ! widx
                 OR push_bit (unat (bitnr AND (push_bit LN2_BPL 1 - 1))) 1]\<rparr>, [])
         else None)"
  by (simp add: bm_set_bit_def Let_def)

lemma bm_set_bit_sets:
  assumes "bv \<noteq> 0" and "bm_set_bit sbm blocknr ln2 bv = Some (b, msgs)"
    and "drop_bit LN2_BPL (drop_bit (BM_BLOCK_SIZE_B - ln2) blocknr) < bm_size sbm"
  shows "bm_is_set b (drop_bit (BM_BLOCK_SIZE_B - ln2) blocknr)"
  using assms(2) assms(3) unfolding bm_set_bit_out_of_sync [OF assms(1)] Let_def bm_is_set_def
  by (auto simp add: bit_or_self [OF bpl_index] not_le [symmetric]
      simp del: drop_bit_drop_bit push_bit_of_1 split: if_splits)

lemma oos: "SS_OUT_OF_SYNC \<noteq> 0" by (simp add: SS_OUT_OF_SYNC_def)

lemma data_frame_length: "length (data_frame m data block_nr block_id) = length data + 24"
  by (simp add: data_frame_def)

text \<open>
  C10. Let \<open>drbd_send_data\<close> return for a block id other than \<open>ID_SYNCER\<close>, for a block
  that passes the test of \<open>bm_set_bit\<close> for the size of the bitmap (a run in which
  \<open>bm_set_bit\<close> writes behind the buffer has no result in the model, and is no run that
  returns). After the barrier that may be due (state \<open>mb\<close>), either it
  returns the size of the frame, the bytes that the data socket took are the whole frame,
  header and data, and the request is the new entry at \<open>tl_end\<close> of the transfer log; or
  it returns 0, the transfer log is as it was, and the block is marked out of sync in the
  bitmap. So the request is in the transfer log only if its frame left completely.
\<close>

theorem drbd_send_data_transfer_log:
  assumes "block_id \<noteq> ID_SYNCER"
    and "drbd_send_data m data block_nr block_id = Some (ret, m')"
    and "drop_bit LN2_BPL (drop_bit (BM_BLOCK_SIZE_B - blk_size_b m) block_nr)
           < bm_size (mbds_id m)"
  shows "\<exists>mb. drbd_send_data_barrier m = Some mb
           \<and> (ret = int (length data + 24) \<or> ret = 0)
           \<and> (ret = int (length data + 24) \<longrightarrow>
                (\<exists>lg. klog m' = klog mb @ lg
                   \<and> sock_accepted False lg = data_frame mb data block_nr block_id)
                \<and> transfer_log m' = (transfer_log mb)[tl_end mb := block_id]
                \<and> tl_end m' = tl_next mb (tl_end mb) \<and> tl_begin m' = tl_begin mb
                \<and> mbds_id m' = mbds_id mb)
           \<and> (ret = 0 \<longrightarrow>
                transfer_log m' = transfer_log mb \<and> tl_end m' = tl_end mb
                \<and> tl_begin m' = tl_begin mb
                \<and> bm_is_set (mbds_id m') (drop_bit (BM_BLOCK_SIZE_B - blk_size_b m) block_nr))"
proof -
  from assms(2) obtain mb where mb: "drbd_send_data_barrier m = Some mb"
    by (cases "drbd_send_data_barrier m") (simp_all add: drbd_send_data_def)
  let ?head = "\<lparr>magic = 0, command = cpu_to_be16 (host mb) (cmd_code Data), length_field = 0\<rparr>"
  let ?rest = "mem64 (host mb) (cpu_to_be64 (host mb) block_nr) @ mem64 (host mb) block_id"
  let ?S = "drbd_send mb ?head ?rest data False"
  let ?total = "int (length data + 24)"
  from assms(2) mb obtain r m2 where s: "?S = Some (r, m2)"
    by (cases ?S) (auto simp add: drbd_send_data_def Let_def)
  note f = drbd_send_fields [OF s]
  define m3 where "m3 = (if r = ?total \<and> conf_wire_protocol m2 \<noteq> DRBD_PROT_A
                         then inc_pending m2 else m2)"
  have f3: "transfer_log m3 = transfer_log mb" "tl_end m3 = tl_end mb" "tl_begin m3 = tl_begin mb"
    "mbds_id m3 = mbds_id mb" "blk_size_b m3 = blk_size_b mb"
    by (simp_all add: m3_def inc_pending_def printk_def f)
  have k3: "\<exists>x. klog m3 = klog m2 @ x \<and> sock_accepted False x = []"
    by (cases "r = ?total \<and> conf_wire_protocol m2 \<noteq> DRBD_PROT_A")
       (simp_all add: m3_def inc_pending_def printk_def)
  have e: "drbd_send_data m data block_nr block_id =
             (if r = ?total then Some (r, tl_add m3 block_id)
              else case bm_set_bit (mbds_id m3) block_nr (blk_size_b m3) SS_OUT_OF_SYNC of
                     None \<Rightarrow> None
                   | Some (b, msgs) \<Rightarrow> Some (0, m3\<lparr>mbds_id := b, klog := klog m3 @ msgs\<rparr>))"
    using assms(1) unfolding m3_def
    by (simp only: drbd_send_data_def mb option.case Let_def s prod.case) simp
  show ?thesis
  proof (cases "r = ?total")
    case True
    with e assms(2) have res: "ret = ?total" "m' = tl_add m3 block_id" by simp_all
    from True have "0 < r" by simp
    from drbd_send_accepted [OF s this] obtain lg where
      lg: "klog m2 = klog mb @ lg"
      "sock_accepted False lg = take (nat r) (data_frame mb data block_nr block_id)"
      by (auto simp add: data_frame_def)
    from True have "nat r = length (data_frame mb data block_nr block_id)"
      by (simp add: data_frame_length)
    with lg(2) have acc: "sock_accepted False lg = data_frame mb data block_nr block_id"
      by simp
    from k3 obtain x where x: "klog m3 = klog m2 @ x" "sock_accepted False x = []" by blast
    have "\<exists>y. klog (tl_add m3 block_id) = klog m3 @ y \<and> sock_accepted False y = []"
      by (simp add: tl_add_def Let_def printk_def)
    then obtain y where y: "klog (tl_add m3 block_id) = klog m3 @ y" "sock_accepted False y = []"
      by blast
    have kl: "\<exists>lg. klog m' = klog mb @ lg
                \<and> sock_accepted False lg = data_frame mb data block_nr block_id"
      apply (rule exI [of _ "lg @ x @ y"])
      using lg(1) x y acc by (simp add: res sock_accepted_append)
    have tl: "transfer_log m' = (transfer_log mb)[tl_end mb := block_id]"
      "tl_end m' = tl_next mb (tl_end mb)" "tl_begin m' = tl_begin mb" "mbds_id m' = mbds_id mb"
      using f3 by (simp_all add: res tl_add_def Let_def printk_def tl_next_def)
    from mb res(1) kl tl show ?thesis by simp
  next
    case False
    with e assms(2) obtain b msgs where
      bm: "bm_set_bit (mbds_id m3) block_nr (blk_size_b m3) SS_OUT_OF_SYNC = Some (b, msgs)"
      and res: "ret = 0" "m' = m3\<lparr>mbds_id := b, klog := klog m3 @ msgs\<rparr>"
      by (auto split: option.splits)
    note bf = drbd_send_data_barrier_fields [OF mb]
    from assms(3) have rng: "drop_bit LN2_BPL (drop_bit (BM_BLOCK_SIZE_B - blk_size_b m3) block_nr)
                               < bm_size (mbds_id m3)"
      by (simp only: f3 bf)
    from bm_set_bit_sets [OF oos bm rng]
    have set: "bm_is_set (mbds_id m') (drop_bit (BM_BLOCK_SIZE_B - blk_size_b m) block_nr)"
      by (simp add: res f3 bf)
    have tl: "transfer_log m' = transfer_log mb" "tl_end m' = tl_end mb" "tl_begin m' = tl_begin mb"
      using f3 by (simp_all add: res)
    from mb res(1) tl set show ?thesis by simp
  qed
qed


theorem drbd_send_data_transfer_log_witness:
  "(\<exists>mb m' lg. drbd_send_data (ex_sender [28]) [1, 2, 3, 4] 5 0x4000 = Some (28, m')
       \<and> drbd_send_data_barrier (ex_sender [28]) = Some mb
       \<and> klog m' = klog mb @ lg
       \<and> sock_accepted False lg = data_frame mb [1, 2, 3, 4] 5 0x4000
       \<and> transfer_log m' = (transfer_log mb)[tl_end mb := 0x4000]
       \<and> tl_end m' = tl_next mb (tl_end mb))
   \<and> (\<exists>mb m'. drbd_send_data (ex_sender [10, 0]) [1, 2, 3, 4] 5 0x4000 = Some (0, m')
       \<and> drbd_send_data_barrier (ex_sender [10, 0]) = Some mb
       \<and> transfer_log m' = transfer_log mb \<and> tl_end m' = tl_end mb
       \<and> bm_is_set (mbds_id m') 5)"
proof -
  have id: "(0x4000 :: 64 word) \<noteq> ID_SYNCER" by code_simp
  have len: "int (length [1, 2, 3, 4 :: 8 word] + 24) = 28" by simp
  have full: "drbd_send_data (ex_sender [28]) [1, 2, 3, 4] 5 0x4000 \<noteq> None" by code_simp
  then obtain r1 m1 where
    a: "drbd_send_data (ex_sender [28]) [1, 2, 3, 4] 5 0x4000 = Some (r1, m1)"
    by (cases "drbd_send_data (ex_sender [28]) [1, 2, 3, 4] 5 0x4000") auto
  have "case drbd_send_data (ex_sender [28]) [1, 2, 3, 4] 5 0x4000 of
          None \<Rightarrow> False | Some (r, m') \<Rightarrow> r = 28"
    by code_simp
  with a have r1: "r1 = 28" by simp
  have rng1: "drop_bit LN2_BPL (drop_bit (BM_BLOCK_SIZE_B - blk_size_b (ex_sender [28])) 5)
                < bm_size (mbds_id (ex_sender [28]))"
    by code_simp
  from drbd_send_data_transfer_log [OF id a rng1] r1 len a
  have p: "\<exists>mb m' lg. drbd_send_data (ex_sender [28]) [1, 2, 3, 4] 5 0x4000 = Some (28, m')
       \<and> drbd_send_data_barrier (ex_sender [28]) = Some mb
       \<and> klog m' = klog mb @ lg
       \<and> sock_accepted False lg = data_frame mb [1, 2, 3, 4] 5 0x4000
       \<and> transfer_log m' = (transfer_log mb)[tl_end mb := 0x4000]
       \<and> tl_end m' = tl_next mb (tl_end mb)"
    by auto
  have short: "drbd_send_data (ex_sender [10, 0]) [1, 2, 3, 4] 5 0x4000 \<noteq> None" by code_simp
  then obtain r2 m2 where
    b: "drbd_send_data (ex_sender [10, 0]) [1, 2, 3, 4] 5 0x4000 = Some (r2, m2)"
    by (cases "drbd_send_data (ex_sender [10, 0]) [1, 2, 3, 4] 5 0x4000") auto
  have "case drbd_send_data (ex_sender [10, 0]) [1, 2, 3, 4] 5 0x4000 of
          None \<Rightarrow> False | Some (r, m') \<Rightarrow> r = 0"
    by code_simp
  with b have r2: "r2 = 0" by simp
  have rng2: "drop_bit LN2_BPL (drop_bit (BM_BLOCK_SIZE_B - blk_size_b (ex_sender [10, 0])) 5)
                < bm_size (mbds_id (ex_sender [10, 0]))"
    by code_simp
  have bit: "drop_bit (BM_BLOCK_SIZE_B - blk_size_b (ex_sender [10, 0])) (5 :: 64 word) = 5"
    by code_simp
  from drbd_send_data_transfer_log [OF id b rng2] r2 b bit
  have q: "\<exists>mb m'. drbd_send_data (ex_sender [10, 0]) [1, 2, 3, 4] 5 0x4000 = Some (0, m')
       \<and> drbd_send_data_barrier (ex_sender [10, 0]) = Some mb
       \<and> transfer_log m' = transfer_log mb \<and> tl_end m' = tl_end mb
       \<and> bm_is_set (mbds_id m') 5"
    by auto
  from p q show ?thesis by (rule conjI)
qed

end
